theory Spec2Isabelle
  imports Complex_Main "HOL-Library.Word"
begin

unbundle bit_operations_syntax

section \<open>Deterministic random number generator (rng.js)\<close>

text \<open>
  A JavaScript number is an IEEE double. The generator's \<open>state\<close> field always holds a
  non-negative integer: the constructor and \<open>setState\<close> store \<open>x >>> 0\<close>, and \<open>next\<close> adds
  the positive integer constant \<open>0x6D2B79F5\<close> with the ordinary \<open>+=\<close> of doubles, without
  wrapping. Integers below \<open>2 ^ 53\<close> are exact doubles; above, an addition rounds to the
  nearest double, ties to the even significand. \<open>dbl_round\<close> is that rounding on the
  non-negative integers, \<open>dbl_ulp x\<close> the spacing of the doubles around \<open>x\<close>.
\<close>

function dbl_ulp :: "int \<Rightarrow> int" where
  "dbl_ulp x = (if x < 2 ^ 53 then 1 else 2 * dbl_ulp (x div 2))"
  by pat_completeness auto
termination
  by (relation "measure nat") auto

definition dbl_round :: "int \<Rightarrow> int" where
  "dbl_round x =
     (let u = dbl_ulp x; q = x div u; r = x mod u
      in if 2 * r < u then q * u
         else if u < 2 * r then (q + 1) * u
         else if even q then q * u else (q + 1) * u)"

record RNG =
  rng_seed :: int
  rng_state :: int

text \<open>\<open>x >>> 0\<close> on an integer-valued number: the value modulo \<open>2 ^ 32\<close>.\<close>

definition to_uint32 :: "int \<Rightarrow> int" where
  "to_uint32 x = x mod 2 ^ 32"

text \<open>\<open>constructor(seed)\<close>\<close>

definition new_RNG :: "int \<Rightarrow> RNG" where
  "new_RNG s = \<lparr>rng_seed = to_uint32 s, rng_state = to_uint32 s\<rparr>"

text \<open>
  The bit mixing of \<open>next\<close>. Every operator involved (\<open>^\<close>, \<open>|\<close>, \<open>>>>\<close>, \<open>Math.imul\<close>)
  first reduces its operands to 32 bits, and the sum \<open>t + Math.imul(...)\<close> of two 32-bit values
  is exact before \<open>^=\<close> reduces it again, so the computation is one on 32-bit words.
\<close>

definition mix32 :: "32 word \<Rightarrow> 32 word" where
  "mix32 s =
     (let t1 = (s XOR drop_bit 15 s) * (s OR 1);
          t2 = t1 XOR (t1 + (t1 XOR drop_bit 7 t1) * (t1 OR 61))
      in t2 XOR drop_bit 14 t2)"

text \<open>\<open>next()\<close>: the drawn value and the generator afterwards.\<close>

definition rng_next :: "RNG \<Rightarrow> real \<times> RNG" where
  "rng_next r =
     (let st = dbl_round (rng_state r + 0x6D2B79F5)
      in (real (unat (mix32 (word_of_int st))) / 4294967296, r\<lparr>rng_state := st\<rparr>))"

text \<open>\<open>nextBool(p)\<close>\<close>

definition nextBool :: "real \<Rightarrow> RNG \<Rightarrow> bool \<times> RNG" where
  "nextBool p r = (let (x, r') = rng_next r in (x < p, r'))"

definition getState :: "RNG \<Rightarrow> int" where
  "getState r = rng_state r"

definition setState :: "int \<Rightarrow> RNG \<Rightarrow> RNG" where
  "setState s r = r\<lparr>rng_state := to_uint32 s\<rparr>"

definition reset :: "RNG \<Rightarrow> RNG" where
  "reset r = r\<lparr>rng_state := rng_seed r\<rparr>"

text \<open>\<open>n\<close> successive calls of \<open>next()\<close>: the values drawn, in order, and the generator afterwards.\<close>

fun draws :: "nat \<Rightarrow> RNG \<Rightarrow> real list \<times> RNG" where
  "draws 0 r = ([], r)"
| "draws (Suc n) r = (let (x, r') = rng_next r; (xs, r'') = draws n r' in (x # xs, r''))"


section \<open>World model (game state, constants)\<close>

text \<open>
  Numbers other than the generator's state are modelled as real numbers, so the rounding of
  double arithmetic is not represented. Objects that the program shares by reference are
  kept in arenas and referred to by position: a city object is its index in
  \<open>GameState.cities\<close> (the array is installed by \<open>initialize\<close> and never resized), an
  aircraft object is its address in \<open>ac_store\<close>, which holds every aircraft object ever
  allocated; \<open>GameState.aircraft\<close> and the per-team lists are lists of such addresses.
  The two teams are the keys \<open>Red\<close> and \<open>Blue\<close> of \<open>GameState.teams\<close>.
\<close>

datatype team_name = Red | Blue

datatype ac_type = fighter | bomber

datatype ac_status = idle | onRaid | destroyed

datatype raid_status = enroute | engaging | attacking | returning | completed

type_synonym ident = string

text \<open>\<open>constants.js\<close>\<close>

definition TICK_MS :: real where "TICK_MS = 100"
definition RAID_DISPATCH_INTERVAL_S :: real where "RAID_DISPATCH_INTERVAL_S = 20"
definition HP_MIN :: real where "HP_MIN = - 100"
definition HP_MAX :: real where "HP_MAX = 100"
definition HP_RECOVERY_PER_TICK :: real where "HP_RECOVERY_PER_TICK = 60 / 600"
definition POP_SCALE :: real where "POP_SCALE = 1000"
definition AIRBASE_COST_M :: real where "AIRBASE_COST_M = 50"
definition DESIGN_COST_MULTIPLIER :: real where "DESIGN_COST_MULTIPLIER = 1"
definition RANGE_MIN :: real where "RANGE_MIN = 10"
definition RANGE_MAX :: real where "RANGE_MAX = 100"
definition OFFENSE_MIN :: real where "OFFENSE_MIN = 1"
definition OFFENSE_MAX :: real where "OFFENSE_MAX = 100"
definition DEFENSE_MIN :: real where "DEFENSE_MIN = 1"
definition DEFENSE_MAX :: real where "DEFENSE_MAX = 100"
definition RANGE_KM_PER_POINT :: real where "RANGE_KM_PER_POINT = 10"
definition EPSILON :: real where "EPSILON = 1"
definition CITY_BASE_DEFENSE :: real where "CITY_BASE_DEFENSE = 50"
definition BOMBER_DAMAGE_BASE :: real where "BOMBER_DAMAGE_BASE = 1"
definition BOMBER_DAMAGE_SCALE :: real where "BOMBER_DAMAGE_SCALE = 10"

record orders =
  targetCityId :: ident
  o_distance :: real

record airbase =
  ab_owner :: team_name
  buildProgressM :: real
  complete :: bool
  deliveryPoint :: bool
  ab_orders :: "orders option"
  escortAllocation :: real

record city =
  c_id :: ident
  c_name :: string
  lat :: real
  lon :: real
  population :: real
  country :: string
  isPlaceholder :: bool
  c_owner :: "team_name option"
  c_hp :: real
  hasAirbase :: bool
  c_airbase :: "airbase option"

record template =
  t_id :: ident
  t_type :: ac_type
  costM :: real
  rangePoints :: real
  offense :: real
  defense :: real
  t_name :: string

record aircraft =
  a_id :: ident
  a_type :: ac_type
  templateId :: ident
  locationCityId :: ident
  homeCityId :: "ident option"
  a_status :: ac_status
  a_hp :: real
  a_owner :: "team_name option"

record raid =
  r_id :: ident
  fromCityId :: ident
  toCityId :: ident
  r_team :: "team_name option"
  bombers :: "nat list"
  escorts :: "nat list"
  r_distance :: real
  progress :: real
  speed :: real
  durationMinutes :: real
  startTime :: real
  r_status :: raid_status
  hasEngagedDefenders :: bool

record templateProd =
  allocation :: real
  tp_progress :: real

record team =
  tm_name :: string
  color :: string
  tm_cities :: "nat list"
  tm_aircraft :: "nat list"
  tm_templates :: "template list"
  productionAccumulated :: real
  productionPerMinute :: real
  deliveryPointCity :: "nat option"
  isBot :: bool
  templateProduction :: "(ident \<times> templateProd) list"
  fighterAllocation :: real
  bomberAllocation :: real
  fighterProgress :: real
  bomberProgress :: real

text \<open>
  \<open>GameState\<close>, together with the engine state that lives outside it:
  \<open>MainLoop.lastDispatchTimes\<close> and the two fields of the \<open>AIBot\<close> object.
  \<open>countries\<close> maps a country name to the member list \<open>country.cities\<close>.
\<close>

record game =
  seed :: int
  rng :: RNG
  countries :: "string \<rightharpoonup> nat list"
  cities :: "city list"
  teams :: "team_name \<Rightarrow> team"
  ac_store :: "aircraft list"
  aircraft :: "nat list"
  aircraftIdCounter :: nat
  templates :: "template list"
  templateIdCounter :: nat
  activeRaids :: "raid list"
  raidIdCounter :: nat
  tickCount :: nat
  elapsedSeconds :: real
  isPaused :: bool
  speedMultiplier :: real
  lastDispatchTimes :: "ident \<rightharpoonup> real"
  bot_teamName :: team_name
  bot_lastDecisionTime :: real

text \<open>
  The geographic utility (\<open>MapUtils\<close>) is trigonometry on doubles; the engine only consumes
  its results, so the two functions it calls are parameters of the model.
\<close>

record MapUtils =
  greatCircleDistance :: "real \<Rightarrow> real \<Rightarrow> real \<Rightarrow> real \<Rightarrow> real"
  isPathWithinRange :: "real \<Rightarrow> real \<Rightarrow> real \<Rightarrow> real \<Rightarrow> real \<Rightarrow> real \<Rightarrow> real \<Rightarrow> bool"

subsection \<open>Helpers for JavaScript idioms\<close>

text \<open>Decimal rendering of a counter inside a template literal.\<close>

fun dec :: "nat \<Rightarrow> string" where
  "dec n = (if n < 10 then [''0123456789'' ! n] else dec (n div 10) @ [''0123456789'' ! (n mod 10)])"

declare dec.simps [simp del]

text \<open>Position of the first element satisfying a predicate (\<open>Array.prototype.find\<close> on an arena).\<close>

fun find_idx :: "('a \<Rightarrow> bool) \<Rightarrow> 'a list \<Rightarrow> nat option" where
  "find_idx P [] = None"
| "find_idx P (x # xs) = (if P x then Some 0 else map_option Suc (find_idx P xs))"

text \<open>\<open>obj[k] = v\<close> on an object whose keys are iterated in insertion order.\<close>

fun obj_set :: "'k \<Rightarrow> 'v \<Rightarrow> ('k \<times> 'v) list \<Rightarrow> ('k \<times> 'v) list" where
  "obj_set k v [] = [(k, v)]"
| "obj_set k v (p # ps) = (if fst p = k then (k, v) # ps else p # obj_set k v ps)"

text \<open>
  \<open>rng.nextBool(n / d)\<close>, given the value \<open>x\<close> drawn by \<open>next()\<close>: a zero divisor makes the
  quotient \<open>Infinity\<close> (for \<open>n > 0\<close>, every draw is below it), \<open>NaN\<close> or \<open>-Infinity\<close> (no draw is).
\<close>

definition lt_quot :: "real \<Rightarrow> real \<Rightarrow> real \<Rightarrow> bool" where
  "lt_quot x n d = (if d = 0 then 0 < n else x < n / d)"

definition all_teams :: "team_name list" where
  "all_teams = [Red, Blue]"

subsection \<open>GameState\<close>

definition getTemplate :: "game \<Rightarrow> ident \<Rightarrow> template option" where
  "getTemplate g tid = find (\<lambda>t. t_id t = tid) (templates g)"

definition getCity :: "game \<Rightarrow> ident \<Rightarrow> nat option" where
  "getCity g cid = find_idx (\<lambda>c. c_id c = cid) (cities g)"

definition getTeamCities :: "game \<Rightarrow> team_name \<Rightarrow> nat list" where
  "getTeamCities g tn = filter (\<lambda>i. c_owner (cities g ! i) = Some tn) [0..<length (cities g)]"

definition getAircraftAtCity :: "game \<Rightarrow> ident \<Rightarrow> nat list" where
  "getAircraftAtCity g cid =
     filter (\<lambda>a. locationCityId (ac_store g ! a) = cid \<and> a_status (ac_store g ! a) = idle
                 \<and> 0 < a_hp (ac_store g ! a)) (aircraft g)"

definition getFightersAtCity :: "game \<Rightarrow> ident \<Rightarrow> nat list" where
  "getFightersAtCity g cid = filter (\<lambda>a. a_type (ac_store g ! a) = fighter) (getAircraftAtCity g cid)"

definition getBombersAtCity :: "game \<Rightarrow> ident \<Rightarrow> nat list" where
  "getBombersAtCity g cid = filter (\<lambda>a. a_type (ac_store g ! a) = bomber) (getAircraftAtCity g cid)"

definition upd_team :: "team_name \<Rightarrow> (team \<Rightarrow> team) \<Rightarrow> game \<Rightarrow> game" where
  "upd_team tn f g = g\<lparr>teams := (teams g)(tn := f (teams g tn))\<rparr>"

definition upd_city :: "nat \<Rightarrow> (city \<Rightarrow> city) \<Rightarrow> game \<Rightarrow> game" where
  "upd_city i f g = g\<lparr>cities := (cities g)[i := f (cities g ! i)]\<rparr>"

definition upd_aircraft :: "nat \<Rightarrow> (aircraft \<Rightarrow> aircraft) \<Rightarrow> game \<Rightarrow> game" where
  "upd_aircraft a f g = g\<lparr>ac_store := (ac_store g)[a := f (ac_store g ! a)]\<rparr>"

text \<open>\<open>aircraft.hp = 0; aircraft.status = 'destroyed'\<close>\<close>

definition destroy :: "nat \<Rightarrow> game \<Rightarrow> game" where
  "destroy a g = upd_aircraft a (\<lambda>x. x\<lparr>a_hp := 0, a_status := destroyed\<rparr>) g"

text \<open>\<open>createAircraft(templateId, cityId, teamName)\<close>: the new object's address, or \<open>None\<close> for \<open>null\<close>.\<close>

definition createAircraft :: "ident \<Rightarrow> ident \<Rightarrow> team_name \<Rightarrow> game \<Rightarrow> nat option \<times> game" where
  "createAircraft tid cid tn g =
     (case find (\<lambda>t. t_id t = tid) (templates g) of
        None \<Rightarrow> (None, g)
      | Some tmpl \<Rightarrow>
          let a = \<lparr>a_id = ''plane-'' @ dec (aircraftIdCounter g), a_type = t_type tmpl,
                   templateId = tid, locationCityId = cid, homeCityId = Some cid,
                   a_status = idle, a_hp = 1, a_owner = Some tn\<rparr>;
              addr = length (ac_store g);
              g1 = g\<lparr>aircraftIdCounter := aircraftIdCounter g + 1,
                     ac_store := ac_store g @ [a], aircraft := aircraft g @ [addr]\<rparr>
          in (Some addr, upd_team tn (\<lambda>t. t\<lparr>tm_aircraft := tm_aircraft t @ [addr]\<rparr>) g1))"

record specs =
  sp_type :: ac_type
  sp_costM :: real
  sp_rangePoints :: real
  sp_offense :: real
  sp_defense :: real
  sp_name :: string

text \<open>\<open>createTemplate(teamName, specs)\<close>; an empty \<open>specs.name\<close> is falsy and replaced by the default.\<close>

definition createTemplate :: "team_name \<Rightarrow> specs \<Rightarrow> game \<Rightarrow> game" where
  "createTemplate tn sp g =
     (let tmpl = \<lparr>t_id = ''tmpl-'' @ dec (templateIdCounter g), t_type = sp_type sp,
                  costM = sp_costM sp,
                  rangePoints = max RANGE_MIN (min RANGE_MAX (sp_rangePoints sp)),
                  offense = max OFFENSE_MIN (min OFFENSE_MAX (sp_offense sp)),
                  defense = max DEFENSE_MIN (min DEFENSE_MAX (sp_defense sp)),
                  t_name = (if sp_name sp = [] then
                              ''Custom '' @ (case sp_type sp of fighter \<Rightarrow> ''fighter'' | bomber \<Rightarrow> ''bomber'')
                            else sp_name sp)\<rparr>;
          g1 = g\<lparr>templateIdCounter := templateIdCounter g + 1, templates := templates g @ [tmpl]\<rparr>
      in upd_team tn (\<lambda>t. t\<lparr>tm_templates := tm_templates t @ [tmpl],
                             templateProduction :=
                               obj_set (t_id tmpl) \<lparr>allocation = 0, tp_progress = 0\<rparr> (templateProduction t)\<rparr>) g1)"

text \<open>\<open>DEFAULT_TEMPLATES\<close>, with the identifier that \<open>createDefaultTemplates\<close> assigns.\<close>

definition default_fighter :: "ident \<Rightarrow> template" where
  "default_fighter i = \<lparr>t_id = i, t_type = fighter, costM = 1, rangePoints = 50, offense = 30,
                        defense = 30, t_name = ''Default Fighter''\<rparr>"

definition default_bomber :: "ident \<Rightarrow> template" where
  "default_bomber i = \<lparr>t_id = i, t_type = bomber, costM = 3, rangePoints = 50, offense = 30,
                       defense = 20, t_name = ''Default Bomber''\<rparr>"

definition createDefaultTemplates :: "game \<Rightarrow> game" where
  "createDefaultTemplates g =
     (let f = default_fighter (''tmpl-'' @ dec (templateIdCounter g));
          b = default_bomber (''tmpl-'' @ dec (templateIdCounter g + 1));
          g1 = g\<lparr>templateIdCounter := templateIdCounter g + 2, templates := templates g @ [f, b]\<rparr>;
          g2 = upd_team Blue (\<lambda>t. t\<lparr>tm_templates := tm_templates t @ [f, b]\<rparr>)
                 (upd_team Red (\<lambda>t. t\<lparr>tm_templates := tm_templates t @ [f, b]\<rparr>) g1);
          ini = (\<lambda>t. t\<lparr>templateProduction :=
                         obj_set (t_id b) \<lparr>allocation = 50, tp_progress = 0\<rparr>
                           (obj_set (t_id f) \<lparr>allocation = 50, tp_progress = 0\<rparr> (templateProduction t))\<rparr>)
      in upd_team Blue ini (upd_team Red ini g2))"

text \<open>
  \<open>initialize(seed, data)\<close> with \<open>data = {countries, cities}\<close>. It overwrites the generator, the
  world and the listed counters; the two team objects and \<open>MainLoop.lastDispatchTimes\<close> are not
  reset by it.
\<close>

definition initialize :: "int \<Rightarrow> (string \<rightharpoonup> nat list) \<times> city list \<Rightarrow> game \<Rightarrow> game" where
  "initialize sd data g =
     createDefaultTemplates
       (g\<lparr>seed := sd, rng := new_RNG sd, countries := fst data, cities := snd data,
          aircraft := [], aircraftIdCounter := 0,
          templates := [], templateIdCounter := 0, activeRaids := [], raidIdCounter := 0,
          tickCount := 0, elapsedSeconds := 0, isPaused := False, speedMultiplier := 1\<rparr>)"

text \<open>\<open>updateTime()\<close>\<close>

definition updateTime :: "game \<Rightarrow> game" where
  "updateTime g =
     g\<lparr>tickCount := tickCount g + 1, elapsedSeconds := real (tickCount g + 1) * TICK_MS / 1000\<rparr>"

section \<open>Combat system\<close>

text \<open>
  The combat code that matches the specification (neutral countries, clearing of orders on
  capture) is the \<open>CombatSystem\<close> object in \<open>renderer.js\<close>; \<open>combat.js\<close> holds an earlier
  revision of the same object without \<open>neutralCountryJoinsEnemy\<close> and
  \<open>clearTargetingForCity\<close>. A function that can throw returns a sum: \<open>Inr g\<close> is
  normal completion with state \<open>g\<close>, \<open>Inl g\<close> is an uncaught \<open>TypeError\<close> that leaves the
  live state as \<open>g\<close>. Console and combat-log output is not part of the state.
\<close>

definition bind_r :: "game + game \<Rightarrow> (game \<Rightarrow> game + game) \<Rightarrow> game + game" where
  "bind_r m f = (case m of Inl e \<Rightarrow> Inl e | Inr g \<Rightarrow> f g)"

text \<open>\<open>list.reduce((sum, a) => sum + (template ? template.f : 0), 0)\<close>\<close>

definition sum_stat :: "(template \<Rightarrow> real) \<Rightarrow> game \<Rightarrow> nat list \<Rightarrow> real" where
  "sum_stat f g as =
     sum_list (map (\<lambda>a. case getTemplate g (templateId (ac_store g ! a)) of
                           None \<Rightarrow> 0 | Some t \<Rightarrow> f t) as)"

text \<open>One casualty loop of \<open>resolveFighterVsFighter\<close>: each aircraft is lost with probability \<open>n / d\<close>.\<close>

fun roll_losses :: "real \<Rightarrow> real \<Rightarrow> nat list \<Rightarrow> game \<Rightarrow> game" where
  "roll_losses n d [] g = g"
| "roll_losses n d (a # as) g =
     (let (x, r') = rng_next (rng g);
          g1 = g\<lparr>rng := r'\<rparr>
      in roll_losses n d as (if lt_quot x n d then destroy a g1 else g1))"

definition resolveFighterVsFighter :: "nat list \<Rightarrow> nat list \<Rightarrow> game \<Rightarrow> game" where
  "resolveFighterVsFighter attackers defenders g =
     (if attackers = [] \<or> defenders = [] then g
      else let A_off = sum_stat offense g attackers;
               D_def = sum_stat defense g defenders
           in roll_losses D_def (A_off + D_def + EPSILON) attackers
                (roll_losses A_off (A_off + D_def + EPSILON) defenders g))"

definition calculateEffectiveDefense :: "real \<Rightarrow> real \<Rightarrow> real" where
  "calculateEffectiveDefense defenderDefense escortOffense = max 0 (defenderDefense - escortOffense)"

text \<open>The loop of \<open>resolveBomberAttack\<close>, carrying \<open>totalDamage\<close>.\<close>

fun bomber_rolls :: "real \<Rightarrow> nat list \<Rightarrow> real \<Rightarrow> game \<Rightarrow> real \<times> game" where
  "bomber_rolls cityDefense [] totalDamage g = (totalDamage, g)"
| "bomber_rolls cityDefense (b # bs) totalDamage g =
     (if a_hp (ac_store g ! b) = 0 then bomber_rolls cityDefense bs totalDamage g
      else case getTemplate g (templateId (ac_store g ! b)) of
        None \<Rightarrow> bomber_rolls cityDefense bs totalDamage g
      | Some t \<Rightarrow>
          let (x1, r1) = rng_next (rng g);
              totalDamage1 = (if lt_quot x1 (offense t) (offense t + cityDefense + CITY_BASE_DEFENSE)
                        then totalDamage + (BOMBER_DAMAGE_BASE + of_int \<lfloor>offense t / BOMBER_DAMAGE_SCALE\<rfloor>)
                        else totalDamage);
              (x2, r2) = rng_next r1;
              g1 = g\<lparr>rng := r2\<rparr>
          in bomber_rolls cityDefense bs totalDamage1
               (if lt_quot x2 cityDefense (defense t + cityDefense + EPSILON) then destroy b g1 else g1))"

text \<open>\<open>resolveBomberAttack(bombers, targetCity, cityDefense, rng)\<close>: \<open>damageInflicted\<close> and the state.\<close>

definition resolveBomberAttack :: "nat list \<Rightarrow> real \<Rightarrow> game \<Rightarrow> real \<times> game" where
  "resolveBomberAttack bs cityDefense g =
     (if bs = [] then (0, g) else bomber_rolls cityDefense bs 0 g)"

definition targets :: "ident \<Rightarrow> city \<Rightarrow> bool" where
  "targets cid c =
     (case c_airbase c of None \<Rightarrow> False
      | Some ab \<Rightarrow> (case ab_orders ab of None \<Rightarrow> False | Some od \<Rightarrow> targetCityId od = cid))"

definition clearTargetingForCity :: "ident \<Rightarrow> game \<Rightarrow> game" where
  "clearTargetingForCity cid g =
     g\<lparr>cities := map (\<lambda>c. if hasAirbase c \<and> targets cid c
                            then c\<lparr>c_airbase := map_option (\<lambda>ab. ab\<lparr>ab_orders := None\<rparr>) (c_airbase c)\<rparr>
                            else c) (cities g)\<rparr>"

text \<open>
  \<open>captureCity(city, newOwner)\<close>. With \<open>newOwner\<close> not a team (\<open>null\<close>),
  \<open>GameState.teams[newOwner]\<close> is undefined and \<open>newTeam.cities\<close> throws after the city has
  left its old owner's list.
\<close>

definition captureCity :: "nat \<Rightarrow> team_name option \<Rightarrow> game \<Rightarrow> game + game" where
  "captureCity ci newOwner g =
     (let cid = c_id (cities g ! ci);
          g1 = (case c_owner (cities g ! ci) of
                  None \<Rightarrow> g
                | Some old \<Rightarrow>
                    upd_team old (\<lambda>t. t\<lparr>tm_cities :=
                        filter (\<lambda>j. c_id (cities g ! j) \<noteq> cid) (tm_cities t)\<rparr>) g);
          g2 = upd_city ci (\<lambda>c. c\<lparr>c_owner := newOwner\<rparr>) g1
      in case newOwner of
           None \<Rightarrow> Inl g2
         | Some new \<Rightarrow>
             let g3 = upd_team new (\<lambda>t. t\<lparr>tm_cities := tm_cities t @ [ci]\<rparr>) g2;
                 g4 = upd_city ci (\<lambda>c. c\<lparr>c_hp := 0\<rparr>) g3;
                 g5 = clearTargetingForCity cid g4
             in Inr (if hasAirbase (cities g5 ! ci)
                     then let g6 = upd_city ci (\<lambda>c. c\<lparr>hasAirbase := False, c_airbase := None\<rparr>) g5
                          in fold destroy (getAircraftAtCity g6 cid) g6
                     else g5))"

text \<open>The body of the loop over \<open>country.cities\<close> in \<open>neutralCountryJoinsEnemy\<close>.\<close>

definition join_step :: "team_name \<Rightarrow> nat \<Rightarrow> game \<Rightarrow> game" where
  "join_step enemyTeam j s =
     (if c_owner (cities s ! j) = None
      then upd_city j (\<lambda>c. c\<lparr>c_hp := 100\<rparr>)
             (upd_team enemyTeam (\<lambda>t. t\<lparr>tm_cities := tm_cities t @ [j]\<rparr>)
                (upd_city j (\<lambda>c. c\<lparr>c_owner := Some enemyTeam\<rparr>) s))
      else s)"

definition neutralCountryJoinsEnemy :: "nat \<Rightarrow> team_name option \<Rightarrow> game \<Rightarrow> game" where
  "neutralCountryJoinsEnemy ci attackerTeam g =
     (let enemyTeam = (if attackerTeam = Some Red then Blue else Red)
      in case countries g (country (cities g ! ci)) of
           None \<Rightarrow> g
         | Some members \<Rightarrow> fold (join_step enemyTeam) members g)"

definition applyCityDamage :: "nat \<Rightarrow> real \<Rightarrow> team_name option \<Rightarrow> game \<Rightarrow> game + game" where
  "applyCityDamage ci damage attackerTeam g =
     (if c_owner (cities g ! ci) = None then Inr (neutralCountryJoinsEnemy ci attackerTeam g)
      else let g1 = upd_city ci (\<lambda>c. c\<lparr>c_hp := max HP_MIN (min HP_MAX (c_hp c - damage))\<rparr>) g
           in if c_hp (cities g1 ! ci) \<le> HP_MIN then captureCity ci attackerTeam g1 else Inr g1)"

definition updateHPRecovery :: "real \<Rightarrow> game \<Rightarrow> game" where
  "updateHPRecovery deltaMs g =
     (let hpRecoveryThisTick = HP_RECOVERY_PER_TICK * (deltaMs / TICK_MS)
      in g\<lparr>cities := map (\<lambda>c. if c_hp c < HP_MAX
                                then c\<lparr>c_hp := min HP_MAX (c_hp c + hpRecoveryThisTick)\<rparr>
                                else c) (cities g)\<rparr>)"

text \<open>\<open>xs.slice(0, n)\<close>: a negative \<open>n\<close> counts from the end.\<close>

definition slice0 :: "int \<Rightarrow> 'a list \<Rightarrow> 'a list" where
  "slice0 n xs = (if 0 \<le> n then take (nat n) xs else take (nat (int (length xs) + n)) xs)"

text \<open>
  The inner loop of \<open>getDefendingFighters\<close> for one airbase city. The raid path's origin is
  dereferenced when the range test is evaluated, so a missing origin (\<open>None\<close>) throws there;
  \<open>None\<close> as result stands for that \<open>TypeError\<close>.
\<close>

fun in_range_fighters :: "MapUtils \<Rightarrow> game \<Rightarrow> nat option \<Rightarrow> nat \<Rightarrow> city \<Rightarrow> nat list \<Rightarrow> nat list option" where
  "in_range_fighters mu g fromCity toCity c [] = Some []"
| "in_range_fighters mu g fromCity toCity c (f # fs) =
     (case getTemplate g (templateId (ac_store g ! f)) of
        None \<Rightarrow> in_range_fighters mu g fromCity toCity c fs
      | Some t \<Rightarrow>
          (case fromCity of
             None \<Rightarrow> None
           | Some fi \<Rightarrow>
               map_option
                 (\<lambda>rest. if isPathWithinRange mu (lat (cities g ! fi)) (lon (cities g ! fi))
                               (lat (cities g ! toCity)) (lon (cities g ! toCity)) (lat c) (lon c)
                               (rangePoints t * RANGE_KM_PER_POINT)
                          then f # rest else rest)
                 (in_range_fighters mu g fromCity toCity c fs)))"

definition defenders_at :: "MapUtils \<Rightarrow> game \<Rightarrow> nat option \<Rightarrow> nat \<Rightarrow> nat \<Rightarrow> nat list option" where
  "defenders_at mu g fromCity toCity ci =
     (let c = cities g ! ci
      in case c_airbase c of
           None \<Rightarrow> Some []
         | Some ab \<Rightarrow>
             if \<not> hasAirbase c \<or> \<not> complete ab then Some []
             else let fightersHere = getFightersAtCity g (c_id c);
                      numDefenders = \<lfloor>real (length fightersHere) * (1 - escortAllocation ab)\<rfloor>
                  in in_range_fighters mu g fromCity toCity c (slice0 numDefenders fightersHere))"

fun concat_opt :: "'a list option list \<Rightarrow> 'a list option" where
  "concat_opt [] = Some []"
| "concat_opt (None # xs) = None"
| "concat_opt (Some x # xs) = map_option (\<lambda>r. x @ r) (concat_opt xs)"

text \<open>\<open>getDefendingFighters({fromCity, toCity}, defenderTeam)\<close>\<close>

definition getDefendingFighters :: "MapUtils \<Rightarrow> game \<Rightarrow> nat option \<Rightarrow> nat \<Rightarrow> team_name \<Rightarrow> nat list option" where
  "getDefendingFighters mu g fromCity toCity defenderTeam =
     concat_opt (map (defenders_at mu g fromCity toCity) (getTeamCities g defenderTeam))"

section \<open>Production system\<close>

text \<open>
  The production code with the per-template allocation split is the \<open>ProductionSystem\<close>
  object in \<open>ui-controls.js\<close>; \<open>production.js\<close> holds an earlier revision whose
  \<open>updateProduction\<close> only adds the tick's production to \<open>productionAccumulated\<close>.
\<close>

definition getCityProduction :: "game \<Rightarrow> nat \<Rightarrow> team_name \<Rightarrow> real" where
  "getCityProduction g ci tn =
     (let c = cities g ! ci
      in if c_owner c \<noteq> Some tn then 0
         else if (case deliveryPointCity (teams g tn) of
                    None \<Rightarrow> False | Some d \<Rightarrow> c_id (cities g ! d) = c_id c)
              then population c / POP_SCALE
              else population c / POP_SCALE * (c_hp c / 100))"

definition getTeamProduction :: "game \<Rightarrow> team_name \<Rightarrow> real" where
  "getTeamProduction g tn = sum_list (map (\<lambda>i. getCityProduction g i tn) (getTeamCities g tn))"

text \<open>
  \<open>while (templateProd.progress >= 100)\<close>: one aircraft per crossed threshold, created at
  the delivery point if the team has one. Returns the remaining progress.
\<close>

function build_units :: "ident \<Rightarrow> team_name \<Rightarrow> real \<Rightarrow> game \<Rightarrow> real \<times> game" where
  "build_units tid tn p g =
     (if 100 \<le> p
      then build_units tid tn (p - 100)
             (case deliveryPointCity (teams g tn) of
                None \<Rightarrow> g
              | Some d \<Rightarrow> snd (createAircraft tid (c_id (cities g ! d)) tn g))
      else (p, g))"
  by pat_completeness auto
termination
proof (relation "measure (\<lambda>(tid, tn, p, g). nat \<lfloor>p\<rfloor>)")
  show "wf (measure (\<lambda>(tid, tn, p, g). nat \<lfloor>p\<rfloor>))" by simp
next
  fix tid :: ident and tn :: team_name and p :: real and g :: game
  assume "100 \<le> p"
  then have "\<lfloor>p - 100\<rfloor> < \<lfloor>p\<rfloor>" and "0 < \<lfloor>p\<rfloor>" by linarith+
  then show "((tid, tn, p - 100,
               case deliveryPointCity (teams g tn) of None \<Rightarrow> g
               | Some d \<Rightarrow> snd (createAircraft tid (c_id (cities g ! d)) tn g)),
              tid, tn, p, g) \<in> measure (\<lambda>(tid, tn, p, g). nat \<lfloor>p\<rfloor>)"
    by simp
qed

declare build_units.simps [simp del]

text \<open>The body of the loop over the keys of \<open>team.templateProduction\<close>.\<close>

definition alloc_step :: "team_name \<Rightarrow> real \<Rightarrow> real \<Rightarrow> ident \<Rightarrow> game \<Rightarrow> game" where
  "alloc_step tn productionThisTick totalAlloc tid g =
     (case map_of (templateProduction (teams g tn)) tid of
        None \<Rightarrow> g
      | Some templateProd \<Rightarrow>
          (case getTemplate g tid of
             None \<Rightarrow> g
           | Some tmpl \<Rightarrow>
               if allocation templateProd = 0 \<or> costM tmpl \<le> 0 then g
               else let pct = allocation templateProd / totalAlloc;
                        production = productionThisTick * pct;
                        (p, g1) = build_units tid tn
                                    (tp_progress templateProd + production / costM tmpl * 100) g
                    in upd_team tn (\<lambda>t. t\<lparr>templateProduction :=
                           obj_set tid (templateProd\<lparr>tp_progress := p\<rparr>) (templateProduction t)\<rparr>) g1))"

text \<open>The update of the legacy mirror fields at the end of \<open>processAllocationProduction\<close>.\<close>

definition update_legacy :: "team_name \<Rightarrow> game \<Rightarrow> game" where
  "update_legacy tn g =
     (let mirror = (\<lambda>ty put s.
            case find (\<lambda>t. t_type t = ty) (tm_templates (teams s tn)) of
              None \<Rightarrow> s
            | Some tmpl \<Rightarrow>
                (case map_of (templateProduction (teams s tn)) (t_id tmpl) of
                   None \<Rightarrow> s
                 | Some pr \<Rightarrow> upd_team tn (put pr) s))
      in mirror bomber (\<lambda>pr t. t\<lparr>bomberProgress := tp_progress pr, bomberAllocation := allocation pr\<rparr>)
           (mirror fighter (\<lambda>pr t. t\<lparr>fighterProgress := tp_progress pr, fighterAllocation := allocation pr\<rparr>) g))"

definition processAllocationProduction :: "team_name \<Rightarrow> real \<Rightarrow> game \<Rightarrow> game" where
  "processAllocationProduction tn productionThisTick g =
     (let keys = map fst (templateProduction (teams g tn));
          totalAlloc = sum_list (map (\<lambda>p. allocation (snd p)) (templateProduction (teams g tn)))
      in if totalAlloc = 0 then g
         else update_legacy tn (fold (alloc_step tn productionThisTick totalAlloc) keys g))"

definition updateProduction :: "real \<Rightarrow> game \<Rightarrow> game" where
  "updateProduction deltaMs g =
     fold (\<lambda>tn s. let s1 = upd_team tn (\<lambda>t. t\<lparr>productionPerMinute := getTeamProduction s tn\<rparr>) s
                  in processAllocationProduction tn
                       (productionPerMinute (teams s1 tn) * (deltaMs / 60000)) s1)
          all_teams g"

definition incomplete_airbase :: "city \<Rightarrow> bool" where
  "incomplete_airbase c = (case c_airbase c of None \<Rightarrow> False | Some ab \<Rightarrow> \<not> complete ab)"

text \<open>The body of the loop over the teams in \<open>processAirbaseBuilds\<close>.\<close>

definition build_step :: "real \<Rightarrow> team_name \<Rightarrow> game \<Rightarrow> game" where
  "build_step deltaMs tn g =
     (case find (\<lambda>i. incomplete_airbase (cities g ! i)) (getTeamCities g tn) of
        None \<Rightarrow> g
      | Some i \<Rightarrow>
          (case c_airbase (cities g ! i) of
             None \<Rightarrow> g
           | Some ab \<Rightarrow>
               let productionNeeded = AIRBASE_COST_M - buildProgressM ab;
                   productionAvailable = productionPerMinute (teams g tn) * (deltaMs / 60000);
                   productionUsed = min productionAvailable productionNeeded;
                   fin = (AIRBASE_COST_M \<le> buildProgressM ab + productionUsed);
                   ab' = ab\<lparr>buildProgressM := buildProgressM ab + productionUsed,
                           complete := (if fin then True else complete ab)\<rparr>
               in upd_team tn (\<lambda>t. t\<lparr>productionAccumulated := productionAccumulated t - productionUsed\<rparr>)
                    (upd_city i (\<lambda>c. c\<lparr>c_airbase := Some ab',
                                        hasAirbase := (if fin then True else hasAirbase c)\<rparr>) g)))"

definition processAirbaseBuilds :: "real \<Rightarrow> game \<Rightarrow> game" where
  "processAirbaseBuilds deltaMs g = fold (build_step deltaMs) all_teams g"

subsection \<open>Commands\<close>

definition tryProduceAircraft :: "team_name \<Rightarrow> ident \<Rightarrow> game \<Rightarrow> bool \<times> game" where
  "tryProduceAircraft tn tid g =
     (case getTemplate g tid of
        None \<Rightarrow> (False, g)
      | Some tmpl \<Rightarrow>
          if productionAccumulated (teams g tn) < costM tmpl then (False, g)
          else (case deliveryPointCity (teams g tn) of
                  None \<Rightarrow> (False, g)
                | Some d \<Rightarrow>
                    (True, snd (createAircraft tid (c_id (cities g ! d)) tn
                      (upd_team tn (\<lambda>t. t\<lparr>productionAccumulated := productionAccumulated t - costM tmpl\<rparr>) g)))))"

definition getDesignCost :: "game \<Rightarrow> team_name \<Rightarrow> real" where
  "getDesignCost g tn = productionPerMinute (teams g tn) * DESIGN_COST_MULTIPLIER"

definition startDesign :: "team_name \<Rightarrow> specs \<Rightarrow> game \<Rightarrow> bool \<times> game" where
  "startDesign tn sp g =
     (let designCost = getDesignCost g tn
      in if productionAccumulated (teams g tn) < designCost then (False, g)
         else (True, createTemplate tn sp
                 (upd_team tn (\<lambda>t. t\<lparr>productionAccumulated := productionAccumulated t - designCost\<rparr>) g)))"

definition buildAirbase :: "ident \<Rightarrow> team_name \<Rightarrow> game \<Rightarrow> bool \<times> game" where
  "buildAirbase cid tn g =
     (case getCity g cid of
        None \<Rightarrow> (False, g)
      | Some i \<Rightarrow>
          let c = cities g ! i
          in if c_owner c \<noteq> Some tn then (False, g)
             else if hasAirbase c then (False, g)
             else if isPlaceholder c \<and> c_hp c < 0 then (False, g)
             else (True, upd_city i (\<lambda>c. c\<lparr>c_airbase :=
                     Some \<lparr>ab_owner = tn, buildProgressM = 0, complete = False, deliveryPoint = False,
                           ab_orders = None, escortAllocation = 0.5\<rparr>\<rparr>) g))"

definition complete_airbase :: "city \<Rightarrow> bool" where
  "complete_airbase c = (hasAirbase c \<and> (case c_airbase c of None \<Rightarrow> False | Some ab \<Rightarrow> complete ab))"

definition setDeliveryPoint :: "ident \<Rightarrow> team_name \<Rightarrow> game \<Rightarrow> bool \<times> game" where
  "setDeliveryPoint cid tn g =
     (case getCity g cid of
        None \<Rightarrow> (False, g)
      | Some i \<Rightarrow>
          if \<not> complete_airbase (cities g ! i) then (False, g)
          else if c_owner (cities g ! i) \<noteq> Some tn then (False, g)
          else let g1 = (case deliveryPointCity (teams g tn) of
                           None \<Rightarrow> g
                         | Some d \<Rightarrow> upd_city d (\<lambda>c. c\<lparr>c_airbase :=
                              map_option (\<lambda>ab. ab\<lparr>deliveryPoint := False\<rparr>) (c_airbase c)\<rparr>) g)
               in (True, upd_city i (\<lambda>c. c\<lparr>c_airbase :=
                            map_option (\<lambda>ab. ab\<lparr>deliveryPoint := True\<rparr>) (c_airbase c)\<rparr>)
                          (upd_team tn (\<lambda>t. t\<lparr>deliveryPointCity := Some i\<rparr>) g1)))"

definition setBomberOrders :: "MapUtils \<Rightarrow> ident \<Rightarrow> ident \<Rightarrow> game \<Rightarrow> bool \<times> game" where
  "setBomberOrders mu cid targetId g =
     (case (getCity g cid, getCity g targetId) of
        (Some i, Some j) \<Rightarrow>
          if \<not> complete_airbase (cities g ! i) then (False, g)
          else (True, upd_city i (\<lambda>c. c\<lparr>c_airbase := map_option (\<lambda>ab. ab\<lparr>ab_orders :=
                   Some \<lparr>targetCityId = targetId,
                         o_distance = greatCircleDistance mu (lat (cities g ! i)) (lon (cities g ! i))
                                        (lat (cities g ! j)) (lon (cities g ! j))\<rparr>\<rparr>) (c_airbase c)\<rparr>) g)
      | _ \<Rightarrow> (False, g))"

definition clearBomberOrders :: "ident \<Rightarrow> game \<Rightarrow> bool \<times> game" where
  "clearBomberOrders cid g =
     (case getCity g cid of
        None \<Rightarrow> (False, g)
      | Some i \<Rightarrow>
          (case c_airbase (cities g ! i) of
             None \<Rightarrow> (False, g)
           | Some ab \<Rightarrow> (True, upd_city i (\<lambda>c. c\<lparr>c_airbase := Some (ab\<lparr>ab_orders := None\<rparr>)\<rparr>) g)))"

section \<open>Main loop (main-loop.js)\<close>

text \<open>A loop whose body can throw: the first exception ends it.\<close>

fun fold_r :: "('a \<Rightarrow> game \<Rightarrow> game + game) \<Rightarrow> 'a list \<Rightarrow> game \<Rightarrow> game + game" where
  "fold_r f [] g = Inr g"
| "fold_r f (x # xs) g = (case f x g of Inl e \<Rightarrow> Inl e | Inr g' \<Rightarrow> fold_r f xs g')"

definition set_status :: "ac_status \<Rightarrow> nat \<Rightarrow> game \<Rightarrow> game" where
  "set_status st a g = upd_aircraft a (\<lambda>x. x\<lparr>a_status := st\<rparr>) g"

definition is_idle :: "game \<Rightarrow> nat \<Rightarrow> bool" where
  "is_idle g a = (a_status (ac_store g ! a) = idle)"

definition range_of :: "game \<Rightarrow> nat \<Rightarrow> real" where
  "range_of g a = (case getTemplate g (templateId (ac_store g ! a)) of
                     None \<Rightarrow> 0 | Some t \<Rightarrow> rangePoints t)"

text \<open>
  \<open>dispatchRaid(airbaseCity)\<close>. \<open>Array.prototype.sort\<close> with the comparator
  \<open>rangeB - rangeA\<close> is a stable sort by descending range.
\<close>

definition dispatchRaid :: "MapUtils \<Rightarrow> nat \<Rightarrow> game \<Rightarrow> game + game" where
  "dispatchRaid mu ci g =
     (let c = cities g ! ci
      in case c_airbase c of
           None \<Rightarrow> Inl g
         | Some ab \<Rightarrow>
            (case ab_orders ab of
               None \<Rightarrow> Inr g
             | Some od \<Rightarrow>
                (case getCity g (targetCityId od) of
                   None \<Rightarrow> Inr g
                 | Some ti \<Rightarrow>
                     let bs = filter (is_idle g) (getBombersAtCity g (c_id c))
                     in if bs = [] then Inr g
                        else
                          let fighters = filter (is_idle g) (getFightersAtCity g (c_id c));
                              numEscorts = \<lfloor>real (length fighters) * escortAllocation ab\<rfloor>;
                              sortedFighters = sort_key (\<lambda>a. - range_of g a) fighters;
                              es = slice0 numEscorts sortedFighters;
                              d = greatCircleDistance mu (lat c) (lon c)
                                    (lat (cities g ! ti)) (lon (cities g ! ti));
                              r = \<lparr>r_id = ''raid-'' @ dec (raidIdCounter g), fromCityId = c_id c,
                                   toCityId = targetCityId od, r_team = c_owner c,
                                   bombers = bs, escorts = es, r_distance = d, progress = 0,
                                   speed = 500, durationMinutes = d / 500,
                                   startTime = elapsedSeconds g, r_status = enroute,
                                   hasEngagedDefenders = False\<rparr>;
                              g1 = g\<lparr>raidIdCounter := raidIdCounter g + 1\<rparr>;
                              g2 = fold (set_status onRaid) es (fold (set_status onRaid) bs g1)
                          in Inr (g2\<lparr>activeRaids := activeRaids g2 @ [r]\<rparr>))))"

text \<open>The body of the loop over \<open>GameState.cities\<close> in \<open>processDispatchSchedules\<close>.\<close>

definition dispatch_step :: "MapUtils \<Rightarrow> nat \<Rightarrow> game \<Rightarrow> game + game" where
  "dispatch_step mu ci g =
     (let c = cities g ! ci
      in if \<not> complete_airbase c then Inr g
         else if (case c_airbase c of None \<Rightarrow> True | Some ab \<Rightarrow> ab_orders ab = None) then Inr g
         else let lastDispatch = (case lastDispatchTimes g (c_id c) of None \<Rightarrow> 0 | Some t \<Rightarrow> t);
                  timeSinceDispatch = elapsedSeconds g - lastDispatch
              in if RAID_DISPATCH_INTERVAL_S \<le> timeSinceDispatch
                 then bind_r (dispatchRaid mu ci g)
                        (\<lambda>s. Inr (s\<lparr>lastDispatchTimes := (lastDispatchTimes s)(c_id c \<mapsto> elapsedSeconds s)\<rparr>))
                 else Inr g)"

definition processDispatchSchedules :: "MapUtils \<Rightarrow> game \<Rightarrow> game + game" where
  "processDispatchSchedules mu g = fold_r (dispatch_step mu) [0..<length (cities g)] g"

text \<open>
  \<open>moveAircraft(deltaMs)\<close>. A raid of duration 0 divides by zero: for a positive \<open>deltaMs\<close>
  (the tick passes \<open>TICK_MS\<close>) the quotient is \<open>Infinity\<close> and the clamp gives 1; for other
  \<open>deltaMs\<close> the JavaScript value is \<open>NaN\<close> or \<open>-Infinity\<close>, which a real number cannot hold,
  and the model leaves the progress as it is.
\<close>

definition advance :: "real \<Rightarrow> raid \<Rightarrow> raid" where
  "advance deltaMs r =
     (if r_status r = completed then r
      else if r_status r = enroute \<or> r_status r = engaging
           then r\<lparr>progress := (if durationMinutes r = 0
                                then (if 0 < deltaMs then 1 else progress r)
                                else min 1 (progress r + deltaMs / 60000 / durationMinutes r))\<rparr>
           else r)"

definition moveAircraft :: "real \<Rightarrow> game \<Rightarrow> game" where
  "moveAircraft deltaMs g = g\<lparr>activeRaids := map (advance deltaMs) (activeRaids g)\<rparr>"

definition alive :: "game \<Rightarrow> nat \<Rightarrow> bool" where
  "alive g a = (0 < a_hp (ac_store g ! a))"

text \<open>The loop over the bombers in \<open>resolveDefenderEngagement\<close>.\<close>

fun intercept_rolls :: "real \<Rightarrow> nat list \<Rightarrow> game \<Rightarrow> game" where
  "intercept_rolls defenderOffense [] g = g"
| "intercept_rolls defenderOffense (b # bs) g =
     (case getTemplate g (templateId (ac_store g ! b)) of
        None \<Rightarrow> intercept_rolls defenderOffense bs g
      | Some t \<Rightarrow>
          let (x, r') = rng_next (rng g);
              g1 = g\<lparr>rng := r'\<rparr>
          in intercept_rolls defenderOffense bs
               (if lt_quot x (0.3 * defenderOffense) (defense t + defenderOffense + EPSILON)
                then destroy b g1 else g1))"

definition resolveDefenderEngagement :: "MapUtils \<Rightarrow> raid \<Rightarrow> game \<Rightarrow> game + game" where
  "resolveDefenderEngagement mu r g =
     (case getCity g (toCityId r) of
        None \<Rightarrow> Inl g
      | Some ti \<Rightarrow>
         (case c_owner (cities g ! ti) of
            None \<Rightarrow> Inr g
          | Some defenderTeam \<Rightarrow>
             (case getDefendingFighters mu g (getCity g (fromCityId r)) ti defenderTeam of
                None \<Rightarrow> Inl g
              | Some defenders \<Rightarrow>
                  if defenders = [] then Inr g
                  else
                    let es = filter (alive g) (escorts r);
                        g1 = (if es \<noteq> [] then resolveFighterVsFighter es defenders g else g);
                        survivingDefenders = filter (alive g1) defenders
                    in if survivingDefenders \<noteq> []
                       then Inr (intercept_rolls (sum_stat offense g1 survivingDefenders)
                                   (filter (alive g1) (bombers r)) g1)
                       else Inr g1)))"

definition upd_raid :: "nat \<Rightarrow> (raid \<Rightarrow> raid) \<Rightarrow> game \<Rightarrow> game" where
  "upd_raid k f g = g\<lparr>activeRaids := (activeRaids g)[k := f (activeRaids g ! k)]\<rparr>"

definition encounter_step :: "MapUtils \<Rightarrow> nat \<Rightarrow> game \<Rightarrow> game + game" where
  "encounter_step mu k g =
     (let r = activeRaids g ! k
      in if r_status r \<noteq> enroute then Inr g
         else if hasEngagedDefenders r then Inr g
         else if 0.5 \<le> progress r
              then bind_r (resolveDefenderEngagement mu r g)
                     (\<lambda>s. Inr (upd_raid k (\<lambda>x. x\<lparr>hasEngagedDefenders := True\<rparr>) s))
              else Inr g)"

definition resolveInAirEncounters :: "MapUtils \<Rightarrow> game \<Rightarrow> game + game" where
  "resolveInAirEncounters mu g = fold_r (encounter_step mu) [0..<length (activeRaids g)] g"

definition resolveRaidAttack :: "raid \<Rightarrow> game \<Rightarrow> game + game" where
  "resolveRaidAttack r g =
     (case getCity g (toCityId r) of
        None \<Rightarrow> Inr g
      | Some ti \<Rightarrow>
          let survivingBombers = filter (alive g) (bombers r)
          in if survivingBombers = [] then Inr g
             else let cityDefense = sum_stat defense g (getFightersAtCity g (c_id (cities g ! ti)));
                      (damageInflicted, g1) = resolveBomberAttack survivingBombers cityDefense g
                  in if 0 < damageInflicted then applyCityDamage ti damageInflicted (r_team r) g1
                     else Inr g1)"

text \<open>
  The first loop of \<open>resolveArrivals\<close> over the raid positions \<open>ks\<close>; \<open>cr\<close> is
  \<open>completedRaids\<close>, as positions in \<open>GameState.activeRaids\<close>.
\<close>

fun arrivals_loop :: "nat list \<Rightarrow> nat list \<Rightarrow> game \<Rightarrow> game + nat list \<times> game" where
  "arrivals_loop [] cr g = Inr (cr, g)"
| "arrivals_loop (k # ks) cr g =
     (let r = activeRaids g ! k
      in if r_status r = completed then arrivals_loop ks cr g
         else if 1 \<le> progress r \<and> r_status r \<noteq> attacking
              then let g1 = upd_raid k (\<lambda>x. x\<lparr>r_status := attacking\<rparr>) g
                   in (case resolveRaidAttack (activeRaids g1 ! k) g1 of
                         Inl e \<Rightarrow> Inl e
                       | Inr g2 \<Rightarrow> arrivals_loop ks (cr @ [k]) g2)
              else arrivals_loop ks cr g)"

text \<open>The body of the second loop of \<open>resolveArrivals\<close>.\<close>

definition return_home :: "nat \<Rightarrow> game \<Rightarrow> game" where
  "return_home k g =
     (let g1 = upd_raid k (\<lambda>x. x\<lparr>r_status := completed\<rparr>) g;
          r = activeRaids g1 ! k
      in case getCity g1 (fromCityId r) of
           None \<Rightarrow> g1
         | Some fi \<Rightarrow>
             fold (\<lambda>a s. if alive s a
                         then upd_aircraft a (\<lambda>x. x\<lparr>a_status := idle,
                                                     locationCityId := c_id (cities s ! fi)\<rparr>) s
                         else s)
                  (bombers r @ escorts r) g1)"

definition resolveArrivals :: "game \<Rightarrow> game + game" where
  "resolveArrivals g =
     (case arrivals_loop [0..<length (activeRaids g)] [] g of
        Inl e \<Rightarrow> Inl e
      | Inr (completedRaids, g1) \<Rightarrow>
          let g2 = fold return_home completedRaids g1
          in Inr (g2\<lparr>activeRaids := filter (\<lambda>r. r_status r \<noteq> completed) (activeRaids g2)\<rparr>))"

text \<open>
  \<open>AIBot.update(elapsedSeconds)\<close>. What the bot decides (\<open>makeDecisions\<close>) is the pluggable
  policy and a parameter here: any function of the state that completes or throws.
\<close>

definition bot_update :: "(game \<Rightarrow> game + game) \<Rightarrow> game \<Rightarrow> game + game" where
  "bot_update makeDecisions g =
     (if 5 \<le> elapsedSeconds g - bot_lastDecisionTime g
      then bind_r (makeDecisions g) (\<lambda>s. Inr (s\<lparr>bot_lastDecisionTime := elapsedSeconds g\<rparr>))
      else Inr g)"

text \<open>
  \<open>tick()\<close>. \<open>Renderer.render()\<close> draws the state and does not change it.
\<close>

definition tick :: "MapUtils \<Rightarrow> (game \<Rightarrow> game + game) \<Rightarrow> game \<Rightarrow> game + game" where
  "tick mu makeDecisions g =
     (if isPaused g then Inr g
      else
        let g1 = updateTime g;
            g2 = updateProduction TICK_MS g1;
            g3 = processAirbaseBuilds TICK_MS g2;
            g4 = updateHPRecovery TICK_MS g3
        in bind_r (processDispatchSchedules mu g4) (\<lambda>g5.
           bind_r (resolveInAirEncounters mu (moveAircraft TICK_MS g5)) (\<lambda>g6.
           bind_r (resolveArrivals g6) (\<lambda>g7.
           fold_r (\<lambda>tn s. if isBot (teams s tn) then bot_update makeDecisions s else Inr s)
                  all_teams g7))))"

definition togglePause :: "game \<Rightarrow> game" where
  "togglePause g = g\<lparr>isPaused := \<not> isPaused g\<rparr>"

definition setSpeed :: "real \<Rightarrow> game \<Rightarrow> game" where
  "setSpeed multiplier g = g\<lparr>speedMultiplier := multiplier\<rparr>"

subsection \<open>Choosing a target (UIControls.showTargetSelector, AIBot.setBomberTargets)\<close>

text \<open>
  \<open>Math.max(...bombers.map(b => template ? template.rangePoints * RANGE_KM_PER_POINT : 0))\<close>.
  Both callers return before this line when the list is empty, so \<open>Math.max()\<close> of no
  argument (\<open>-Infinity\<close>) does not arise; the model gives 0 there.
\<close>

definition range_km :: "game \<Rightarrow> nat \<Rightarrow> real" where
  "range_km g a = (case getTemplate g (templateId (ac_store g ! a)) of
                     None \<Rightarrow> 0 | Some t \<Rightarrow> rangePoints t * RANGE_KM_PER_POINT)"

definition maxRange :: "game \<Rightarrow> nat list \<Rightarrow> real" where
  "maxRange g bs = (case map (range_km g) bs of [] \<Rightarrow> 0 | x # xs \<Rightarrow> fold max xs x)"

text \<open>
  \<open>showTargetSelector(airbaseCity)\<close>. \<open>answer\<close> is what \<open>prompt\<close> returns (\<open>None\<close> when the player
  cancels) and \<open>toLowerCase\<close> is \<open>String.prototype.toLowerCase\<close>; the alerts and the popup are
  not part of the state.
\<close>

definition showTargetSelector :: "MapUtils \<Rightarrow> (string \<Rightarrow> string) \<Rightarrow> string option \<Rightarrow> nat \<Rightarrow> game \<Rightarrow> game" where
  "showTargetSelector mu toLowerCase answer ci g =
     (let c = cities g ! ci;
          bs = getBombersAtCity g (c_id c)
      in if bs = [] then g
         else
           let maxR = maxRange g bs;
               ts = filter (\<lambda>t. c_owner t \<noteq> c_owner c
                                 \<and> greatCircleDistance mu (lat c) (lon c) (lat t) (lon t) \<le> maxR)
                           (cities g)
           in if ts = [] then g
              else case answer of
                     None \<Rightarrow> g
                   | Some targetName \<Rightarrow>
                       if targetName = [] then g
                       else (case find (\<lambda>t. toLowerCase (c_name t) = toLowerCase targetName) ts of
                               None \<Rightarrow> g
                             | Some t \<Rightarrow> snd (setBomberOrders mu (c_id c) (c_id t) g)))"

text \<open>
  The score of \<open>selectBestTarget\<close> is a JavaScript number: a division by zero gives an
  infinity or \<open>NaN\<close>, and the search starts from \<open>-Infinity\<close>.
\<close>

datatype jsnum = NaN | NegInf | Num real | PosInf

fun js_div :: "real \<Rightarrow> real \<Rightarrow> jsnum" where
  "js_div x y = (if y \<noteq> 0 then Num (x / y)
                 else if 0 < x then PosInf else if x < 0 then NegInf else NaN)"

fun js_gt :: "jsnum \<Rightarrow> jsnum \<Rightarrow> bool" where
  "js_gt NaN y = False"
| "js_gt x NaN = False"
| "js_gt NegInf y = False"
| "js_gt x NegInf = True"
| "js_gt x PosInf = False"
| "js_gt PosInf y = True"
| "js_gt (Num a) (Num b) = (b < a)"

definition BOT_ATTACK_BIAS :: real where "BOT_ATTACK_BIAS = 1.3"

text \<open>\<open>selectBestTarget(fromCity, candidates)\<close>, cities by position in \<open>GameState.cities\<close>.\<close>

definition target_score :: "MapUtils \<Rightarrow> game \<Rightarrow> nat \<Rightarrow> nat \<Rightarrow> jsnum" where
  "target_score mu g ci ti =
     (let c = cities g ! ci; t = cities g ! ti;
          d = greatCircleDistance mu (lat c) (lon c) (lat t) (lon t);
          productionValue = population t * max 0 (c_hp t / 100)
      in js_div (productionValue * BOT_ATTACK_BIAS) (d + 1))"

definition selectBestTarget :: "MapUtils \<Rightarrow> game \<Rightarrow> nat \<Rightarrow> nat list \<Rightarrow> nat option" where
  "selectBestTarget mu g ci candidates =
     fst (fold (\<lambda>ti (bestTarget, bestScore).
                  if js_gt (target_score mu g ci ti) bestScore
                  then (Some ti, target_score mu g ci ti) else (bestTarget, bestScore))
               candidates (None, NegInf))"

text \<open>\<open>findBestBomberTarget(fromCity)\<close>; \<open>this.teamName\<close> is the bot's team.\<close>

definition findBestBomberTarget :: "MapUtils \<Rightarrow> nat \<Rightarrow> game \<Rightarrow> nat option" where
  "findBestBomberTarget mu ci g =
     (let c = cities g ! ci;
          bs = getBombersAtCity g (c_id c)
      in if bs = [] then None
         else
           let maxR = maxRange g bs;
               near = (\<lambda>ti. greatCircleDistance mu (lat c) (lon c)
                               (lat (cities g ! ti)) (lon (cities g ! ti)) \<le> maxR);
               enemyCities = filter (\<lambda>ti. c_owner (cities g ! ti) \<noteq> Some (bot_teamName g)
                                          \<and> c_owner (cities g ! ti) \<noteq> None) [0..<length (cities g)];
               targetsInRange = filter near enemyCities
           in if targetsInRange = []
              then let neutralTargets =
                         filter near (filter (\<lambda>ti. c_owner (cities g ! ti) = None) [0..<length (cities g)])
                   in if neutralTargets = [] then None
                      else let placeholders = filter (\<lambda>ti. isPlaceholder (cities g ! ti)) neutralTargets
                           in if placeholders \<noteq> [] then selectBestTarget mu g ci placeholders
                              else selectBestTarget mu g ci neutralTargets
              else selectBestTarget mu g ci targetsInRange)"

text \<open>\<open>setBomberTargets()\<close>: the body of the loop over the bot's cities, and the loop.\<close>

definition bomber_target_step :: "MapUtils \<Rightarrow> nat \<Rightarrow> game \<Rightarrow> game" where
  "bomber_target_step mu ci g =
     (if \<not> complete_airbase (cities g ! ci) then g
      else case findBestBomberTarget mu ci g of
             None \<Rightarrow> g
           | Some ti \<Rightarrow>
               upd_city ci (\<lambda>c. c\<lparr>c_airbase := map_option (\<lambda>ab. ab\<lparr>escortAllocation := 0.7\<rparr>) (c_airbase c)\<rparr>)
                 (snd (setBomberOrders mu (c_id (cities g ! ci)) (c_id (cities g ! ti)) g)))"

definition setBomberTargets :: "MapUtils \<Rightarrow> game \<Rightarrow> game" where
  "setBomberTargets mu g = fold (bomber_target_step mu) (getTeamCities g (bot_teamName g)) g"

section \<open>Save and load\<close>

text \<open>
  The payload that \<open>JSON.parse\<close> returns, with typed fields. \<open>loadGame\<close> never reads its
  \<open>activeRaids\<close> entry. The faults that the payload type
  can express are a missing (or non-iterable) \<open>cities\<close>, \<open>customTemplates\<close> or \<open>aircraft\<close>
  array, and a key of \<open>teams\<close> that is not a team (\<open>None\<close>). The per-city
  \<open>queuedProduction\<close> is carried through by the program and read by nothing in the engine;
  it is not modelled.
\<close>

record teamData =
  td_color :: string
  td_productionAccumulated :: real
  td_deliveryPointCityId :: "ident option"
  td_isBot :: bool

record cityData =
  cd_id :: ident
  cd_owner :: "team_name option"
  cd_hp :: real
  cd_hasAirbase :: bool
  cd_airbase :: "airbase option"

record aircraftData =
  ad_id :: ident
  ad_type :: ac_type
  ad_templateId :: ident
  ad_locationCityId :: ident
  ad_status :: ac_status
  ad_hp :: real
  ad_owner :: "team_name option"

record raidData =
  rd_id :: ident
  rd_fromCityId :: ident
  rd_toCityId :: ident
  rd_team :: "team_name option"
  rd_bomberIds :: "ident list"
  rd_escortIds :: "ident list"
  rd_distance :: real
  rd_progress :: real
  rd_startTime :: real
  rd_status :: raid_status
  rd_hasEngagedDefenders :: bool

record saveData =
  sd_rngState :: int
  sd_tickCount :: nat
  sd_elapsedSeconds :: real
  sd_speedMultiplier :: real
  sd_teams :: "(team_name option \<times> teamData) list"
  sd_cities :: "cityData list option"
  sd_customTemplates :: "template list option"
  sd_aircraft :: "aircraftData list option"
  sd_activeRaids :: "raidData list"

text \<open>\<open>s.includes(sub)\<close> on strings.\<close>

fun starts_with :: "string \<Rightarrow> string \<Rightarrow> bool" where
  "starts_with [] s = True"
| "starts_with (p # ps) [] = False"
| "starts_with (p # ps) (c # cs) = (p = c \<and> starts_with ps cs)"

fun js_includes :: "string \<Rightarrow> string \<Rightarrow> bool" where
  "js_includes sub [] = (sub = [])"
| "js_includes sub (c # cs) = (starts_with sub (c # cs) \<or> js_includes sub cs)"

text \<open>
  The payload that \<open>saveGame()\<close> serialises (its \<open>version\<close> and \<open>timestamp\<close> fields are
  read by nothing and left out).
\<close>

definition saveGame :: "game \<Rightarrow> saveData" where
  "saveGame g =
     \<lparr>sd_rngState = getState (rng g), sd_tickCount = tickCount g,
      sd_elapsedSeconds = elapsedSeconds g, sd_speedMultiplier = speedMultiplier g,
      sd_teams = map (\<lambda>tn. (Some tn,
                    \<lparr>td_color = color (teams g tn),
                     td_productionAccumulated = productionAccumulated (teams g tn),
                     td_deliveryPointCityId =
                       map_option (\<lambda>d. c_id (cities g ! d)) (deliveryPointCity (teams g tn)),
                     td_isBot = isBot (teams g tn)\<rparr>)) all_teams,
      sd_cities = Some (map (\<lambda>c. \<lparr>cd_id = c_id c, cd_owner = c_owner c, cd_hp = c_hp c,
                                     cd_hasAirbase = hasAirbase c, cd_airbase = c_airbase c\<rparr>) (cities g)),
      sd_customTemplates = Some (filter (\<lambda>t. \<not> js_includes ''default'' (t_id t)) (templates g)),
      sd_aircraft = Some (map (\<lambda>a. \<lparr>ad_id = a_id (ac_store g ! a), ad_type = a_type (ac_store g ! a),
                                       ad_templateId = templateId (ac_store g ! a),
                                       ad_locationCityId = locationCityId (ac_store g ! a),
                                       ad_status = a_status (ac_store g ! a),
                                       ad_hp = a_hp (ac_store g ! a),
                                       ad_owner = a_owner (ac_store g ! a)\<rparr>) (aircraft g)),
      sd_activeRaids = map (\<lambda>r. \<lparr>rd_id = r_id r, rd_fromCityId = fromCityId r, rd_toCityId = toCityId r,
                                    rd_team = r_team r,
                                    rd_bomberIds = map (\<lambda>b. a_id (ac_store g ! b)) (bombers r),
                                    rd_escortIds = map (\<lambda>e. a_id (ac_store g ! e)) (escorts r),
                                    rd_distance = r_distance r, rd_progress = progress r,
                                    rd_startTime = startTime r, rd_status = r_status r,
                                    rd_hasEngagedDefenders = hasEngagedDefenders r\<rparr>) (activeRaids g)\<rparr>"

text \<open>What \<open>localStorage.getItem\<close> holds: nothing, text that \<open>JSON.parse\<close> rejects, or a payload.\<close>

datatype stored = NoSave | Unparseable | Parsed saveData

definition restore_team :: "team_name option \<times> teamData \<Rightarrow> game \<Rightarrow> game" where
  "restore_team kv g =
     (case fst kv of
        None \<Rightarrow> g
      | Some tn \<Rightarrow> upd_team tn (\<lambda>t. t\<lparr>color := td_color (snd kv),
                                         productionAccumulated := td_productionAccumulated (snd kv),
                                         isBot := td_isBot (snd kv)\<rparr>) g)"

definition restore_city :: "cityData \<Rightarrow> game \<Rightarrow> game" where
  "restore_city cd g =
     (case getCity g (cd_id cd) of
        None \<Rightarrow> g
      | Some i \<Rightarrow> upd_city i (\<lambda>c. c\<lparr>c_owner := cd_owner cd, c_hp := cd_hp cd,
                                      hasAirbase := cd_hasAirbase cd, c_airbase := cd_airbase cd\<rparr>) g)"

definition rebuild_city_lists :: "game \<Rightarrow> game" where
  "rebuild_city_lists g =
     fold (\<lambda>tn s. upd_team tn (\<lambda>t. t\<lparr>tm_cities := getTeamCities s tn\<rparr>) s) all_teams g"

text \<open>
  Restoring one team's delivery point; \<open>GameState.teams[teamName]\<close> is dereferenced without
  a check, so a key that is not a team throws.
\<close>

definition restore_delivery :: "team_name option \<times> teamData \<Rightarrow> game \<Rightarrow> game + game" where
  "restore_delivery kv g =
     (case td_deliveryPointCityId (snd kv) of
        None \<Rightarrow> Inr g
      | Some cid \<Rightarrow>
          if cid = [] then Inr g
          else (case fst kv of
                  None \<Rightarrow> Inl g
                | Some tn \<Rightarrow> Inr (upd_team tn (\<lambda>t. t\<lparr>deliveryPointCity := getCity g cid\<rparr>) g)))"

definition restore_template :: "template \<Rightarrow> game \<Rightarrow> game" where
  "restore_template td g =
     (if find (\<lambda>t. t_id t = t_id td) (templates g) = None
      then g\<lparr>templates := templates g @ [td]\<rparr> else g)"

text \<open>The aircraft object that the load builds from one saved entry; \<open>homeCityId\<close> is not set.\<close>

definition aircraft_of :: "aircraftData \<Rightarrow> aircraft" where
  "aircraft_of ad =
     \<lparr>a_id = ad_id ad, a_type = ad_type ad, templateId = ad_templateId ad,
      locationCityId = ad_locationCityId ad, homeCityId = None,
      a_status = ad_status ad, a_hp = ad_hp ad, a_owner = ad_owner ad\<rparr>"

definition restore_aircraft :: "aircraftData \<Rightarrow> game \<Rightarrow> game" where
  "restore_aircraft ad g =
     (let addr = length (ac_store g);
          g1 = g\<lparr>ac_store := ac_store g @ [aircraft_of ad], aircraft := aircraft g @ [addr]\<rparr>
      in case ad_owner ad of
           None \<Rightarrow> g1
         | Some tn \<Rightarrow> upd_team tn (\<lambda>t. t\<lparr>tm_aircraft := tm_aircraft t @ [addr]\<rparr>) g1)"

text \<open>
  \<open>loadGame()\<close>: the returned boolean and the live state afterwards. Every statement of the
  \<open>try\<close> block acts on the live state; the \<open>catch\<close> returns \<open>false\<close> and restores nothing.
\<close>

definition loadGame :: "stored \<Rightarrow> game \<Rightarrow> bool \<times> game" where
  "loadGame st g =
     (case st of
        NoSave \<Rightarrow> (False, g)
      | Unparseable \<Rightarrow> (False, g)
      | Parsed d \<Rightarrow>
         (let g1 = g\<lparr>rng := setState (sd_rngState d) (rng g), tickCount := sd_tickCount d,
                     elapsedSeconds := sd_elapsedSeconds d, speedMultiplier := sd_speedMultiplier d\<rparr>;
              g2 = fold restore_team (sd_teams d) g1
          in (case sd_cities d of
               None \<Rightarrow> (False, g2)
             | Some cds \<Rightarrow>
                (let g3 = rebuild_city_lists (fold restore_city cds g2)
                 in (case fold_r restore_delivery (sd_teams d) g3 of
                       Inl e \<Rightarrow> (False, e)
                     | Inr g4 \<Rightarrow>
                        (case sd_customTemplates d of
                           None \<Rightarrow> (False, g4)
                         | Some tds \<Rightarrow>
                            (let g5 = fold restore_template tds g4;
                                 g6 = fold (\<lambda>tn s. upd_team tn (\<lambda>t. t\<lparr>tm_aircraft := []\<rparr>) s) all_teams
                                        (g5\<lparr>aircraft := []\<rparr>)
                             in (case sd_aircraft d of
                                   None \<Rightarrow> (False, g6)
                                 | Some ads \<Rightarrow>
                                     (True, (fold restore_aircraft ads g6)\<lparr>activeRaids := []\<rparr>)))))))))"

section \<open>Game setup, external commands and runs\<close>

text \<open>\<open>assignCountries(allocation)\<close> and \<open>setInitialDeliveryPoints()\<close>\<close>

definition assign_city :: "(string \<rightharpoonup> team_name) \<Rightarrow> nat \<Rightarrow> game \<Rightarrow> game" where
  "assign_city allocn i g =
     (case allocn (country (cities g ! i)) of
        None \<Rightarrow> upd_city i (\<lambda>c. c\<lparr>c_owner := None\<rparr>) g
      | Some tn \<Rightarrow> upd_team tn (\<lambda>t. t\<lparr>tm_cities := tm_cities t @ [i]\<rparr>)
                    (upd_city i (\<lambda>c. c\<lparr>c_owner := Some tn\<rparr>) g))"

text \<open>\<open>team.cities.reduce((max, city) => city.population > max.population ? city : max)\<close>\<close>

fun largest_city :: "game \<Rightarrow> nat \<Rightarrow> nat list \<Rightarrow> nat" where
  "largest_city g m [] = m"
| "largest_city g m (i # is) =
     largest_city g (if population (cities g ! m) < population (cities g ! i) then i else m) is"

definition initial_delivery :: "team_name \<Rightarrow> game \<Rightarrow> game" where
  "initial_delivery tn g =
     (case tm_cities (teams g tn) of
        [] \<Rightarrow> g
      | i # is \<Rightarrow>
          let l = largest_city g i is
          in upd_team tn (\<lambda>t. t\<lparr>deliveryPointCity := Some l\<rparr>)
               (upd_city l (\<lambda>c. c\<lparr>hasAirbase := True,
                    c_airbase := Some \<lparr>ab_owner = tn, buildProgressM = AIRBASE_COST_M, complete = True,
                                       deliveryPoint = True, ab_orders = None,
                                       escortAllocation = 0.5\<rparr>\<rparr>) g))"

definition setInitialDeliveryPoints :: "game \<Rightarrow> game" where
  "setInitialDeliveryPoints g = fold initial_delivery all_teams g"

definition assignCountries :: "(string \<rightharpoonup> team_name) \<Rightarrow> game \<Rightarrow> game" where
  "assignCountries allocn g =
     setInitialDeliveryPoints
       (fold (assign_city allocn) [0..<length (cities g)]
          (upd_team Blue (\<lambda>t. t\<lparr>tm_cities := []\<rparr>) (upd_team Red (\<lambda>t. t\<lparr>tm_cities := []\<rparr>) g)))"

text \<open>The commands that the user interface and the bot issue between ticks.\<close>

datatype command =
    AssignCountries "string \<rightharpoonup> team_name"
  | BuildAirbase ident team_name
  | SetDeliveryPoint ident team_name
  | SetBomberOrders ident ident
  | ClearBomberOrders ident
  | TryProduceAircraft team_name ident
  | StartDesign team_name specs
  | TogglePause
  | SetSpeed real

fun exec :: "MapUtils \<Rightarrow> command \<Rightarrow> game \<Rightarrow> game" where
  "exec mu (AssignCountries allocn) g = assignCountries allocn g"
| "exec mu (BuildAirbase cid tn) g = snd (buildAirbase cid tn g)"
| "exec mu (SetDeliveryPoint cid tn) g = snd (setDeliveryPoint cid tn g)"
| "exec mu (SetBomberOrders cid targetId) g = snd (setBomberOrders mu cid targetId g)"
| "exec mu (ClearBomberOrders cid) g = snd (clearBomberOrders cid g)"
| "exec mu (TryProduceAircraft tn tid) g = snd (tryProduceAircraft tn tid g)"
| "exec mu (StartDesign tn sp) g = snd (startDesign tn sp g)"
| "exec mu TogglePause g = togglePause g"
| "exec mu (SetSpeed m) g = setSpeed m g"

text \<open>
  The live state after a call that may have thrown: the timer that calls \<open>tick\<close> does not
  catch, and the next call finds the state as the throw left it.
\<close>

definition settle :: "game + game \<Rightarrow> game" where
  "settle r = (case r of Inl e \<Rightarrow> e | Inr g \<Rightarrow> g)"

text \<open>
  \<open>n\<close> calls of \<open>tick\<close>; \<open>cmds k\<close> are the commands issued after \<open>k\<close> calls, before the
  next one.
\<close>

fun run :: "MapUtils \<Rightarrow> (game \<Rightarrow> game + game) \<Rightarrow> (nat \<Rightarrow> command list) \<Rightarrow> nat \<Rightarrow> game \<Rightarrow> game" where
  "run mu makeDecisions cmds 0 g = g"
| "run mu makeDecisions cmds (Suc n) g =
     settle (tick mu makeDecisions (fold (exec mu) (cmds n) (run mu makeDecisions cmds n g)))"

text \<open>The module state as the scripts define it, before \<open>initialize\<close> has run.\<close>

definition team0 :: "string \<Rightarrow> string \<Rightarrow> bool \<Rightarrow> team" where
  "team0 n col b =
     \<lparr>tm_name = n, color = col, tm_cities = [], tm_aircraft = [], tm_templates = [],
      productionAccumulated = 0, productionPerMinute = 0, deliveryPointCity = None, isBot = b,
      templateProduction = [], fighterAllocation = 50, bomberAllocation = 50,
      fighterProgress = 0, bomberProgress = 0\<rparr>"

definition GameState0 :: game where
  "GameState0 =
     \<lparr>seed = 0, rng = new_RNG 0, countries = Map.empty, cities = [],
      teams = (\<lambda>tn. case tn of Red \<Rightarrow> team0 ''Red'' ''#cc0000'' False
                              | Blue \<Rightarrow> team0 ''Blue'' ''#0066cc'' True),
      ac_store = [], aircraft = [], aircraftIdCounter = 0, templates = [], templateIdCounter = 0,
      activeRaids = [], raidIdCounter = 0, tickCount = 0, elapsedSeconds = 0, isPaused = False,
      speedMultiplier = 1, lastDispatchTimes = Map.empty, bot_teamName = Blue,
      bot_lastDecisionTime = 0\<rparr>"

section \<open>Worked scenarios\<close>

text \<open>
  Concrete worlds on which the theorems below are instantiated. \<open>flat_geo\<close> stands in for
  the geographic utility: a distance on flat coordinates and a range test that accepts
  every path.
\<close>

definition flat_geo :: MapUtils where
  "flat_geo = \<lparr>greatCircleDistance = (\<lambda>lat1 lon1 lat2 lon2. \<bar>lat1 - lat2\<bar> + \<bar>lon1 - lon2\<bar>),
               isPathWithinRange = (\<lambda>a b c d e f r. True)\<rparr>"

definition ex_city :: "ident \<Rightarrow> string \<Rightarrow> real \<Rightarrow> team_name option \<Rightarrow> airbase option \<Rightarrow> city" where
  "ex_city i ctry x ow ab =
     \<lparr>c_id = i, c_name = i, lat = 0, lon = x, population = 1000000, country = ctry,
      isPlaceholder = False, c_owner = ow, c_hp = 100,
      hasAirbase = (case ab of None \<Rightarrow> False | Some a \<Rightarrow> complete a), c_airbase = ab\<rparr>"

definition ex_airbase :: "team_name \<Rightarrow> bool \<Rightarrow> orders option \<Rightarrow> airbase" where
  "ex_airbase tn fin od =
     \<lparr>ab_owner = tn, buildProgressM = (if fin then 50 else 10), complete = fin,
      deliveryPoint = False, ab_orders = od, escortAllocation = 0.5\<rparr>"

definition ex_plane :: "ident \<Rightarrow> ac_type \<Rightarrow> ident \<Rightarrow> ident \<Rightarrow> ac_status \<Rightarrow> team_name \<Rightarrow> aircraft" where
  "ex_plane i ty tid cid st tn =
     \<lparr>a_id = i, a_type = ty, templateId = tid, locationCityId = cid, homeCityId = Some cid,
      a_status = st, a_hp = 1, a_owner = Some tn\<rparr>"

text \<open>
  Red's completed airbase at \<open>city-0\<close> has orders against Blue's \<open>city-1\<close>, twenty seconds
  have elapsed, and there is no aircraft anywhere.
\<close>

definition world_no_bombers :: game where
  "world_no_bombers =
     GameState0\<lparr>cities := [ex_city ''city-0'' ''A'' 0 (Some Red)
                              (Some (ex_airbase Red True (Some \<lparr>targetCityId = ''city-1'', o_distance = 5\<rparr>))),
                            ex_city ''city-1'' ''B'' 5 (Some Blue) None],
                 tickCount := 200, elapsedSeconds := 20\<rparr>"



text \<open>
  Blue's \<open>city-0\<close> has an airbase under construction and one idle Blue fighter on the
  ground; Red's \<open>city-1\<close> has a completed airbase with orders against \<open>city-0\<close>.
\<close>

definition world_capture :: game where
  "world_capture =
     upd_team Red (\<lambda>t. t\<lparr>tm_cities := [1]\<rparr>)
       (upd_team Blue (\<lambda>t. t\<lparr>tm_cities := [0], tm_aircraft := [0]\<rparr>)
          (GameState0\<lparr>cities := [ex_city ''city-0'' ''B'' 0 (Some Blue) (Some (ex_airbase Blue False None)),
                                  ex_city ''city-1'' ''A'' 5 (Some Red)
                                    (Some (ex_airbase Red True (Some \<lparr>targetCityId = ''city-0'', o_distance = 5\<rparr>)))],
                       templates := [default_fighter ''tmpl-0'', default_bomber ''tmpl-1''],
                       templateIdCounter := 2,
                       ac_store := [ex_plane ''plane-0'' fighter ''tmpl-0'' ''city-0'' idle Blue],
                       aircraft := [0], aircraftIdCounter := 1\<rparr>))"

text \<open>
  Red owns \<open>city-0\<close> (6000 inhabitants, 6 M per minute), where an airbase is under
  construction with 10 M of 50 M paid; the two default templates share Red's production
  half and half.
\<close>

definition world_building :: game where
  "world_building =
     upd_team Red (\<lambda>t. t\<lparr>tm_cities := [0],
                         tm_templates := [default_fighter ''tmpl-0'', default_bomber ''tmpl-1''],
                         templateProduction := [(''tmpl-0'', \<lparr>allocation = 50, tp_progress = 0\<rparr>),
                                                (''tmpl-1'', \<lparr>allocation = 50, tp_progress = 0\<rparr>)]\<rparr>)
       (GameState0\<lparr>cities := [(ex_city ''city-0'' ''A'' 0 (Some Red) (Some (ex_airbase Red False None)))
                                 \<lparr>population := 6000\<rparr>],
                    templates := [default_fighter ''tmpl-0'', default_bomber ''tmpl-1''],
                    templateIdCounter := 2\<rparr>)"

text \<open>
  \<open>world_building\<close> after the production step of one tick, and after the airbase step of the
  same tick.
\<close>

definition world_building_produced :: game where
  "world_building_produced =
     upd_team Red (\<lambda>t. t\<lparr>productionPerMinute := 6,
        templateProduction := [(''tmpl-0'', \<lparr>allocation = 50, tp_progress = 1 / 2\<rparr>),
                               (''tmpl-1'', \<lparr>allocation = 50, tp_progress = 1 / 6\<rparr>)],
        fighterProgress := 1 / 2, bomberProgress := 1 / 6\<rparr>)
       (world_building\<lparr>tickCount := 1, elapsedSeconds := 1 / 10\<rparr>)"

definition world_building_ticked :: game where
  "world_building_ticked =
     upd_team Red (\<lambda>t. t\<lparr>productionAccumulated := - (1 / 100)\<rparr>)
       (upd_city 0 (\<lambda>c. c\<lparr>c_airbase :=
                             Some ((ex_airbase Red False None)\<lparr>buildProgressM := 10 + 1 / 100\<rparr>)\<rparr>)
          world_building_produced)"

text \<open>A parsed save payload that lacks its \<open>cities\<close> array.\<close>

definition payload_without_cities :: saveData where
  "payload_without_cities =
     \<lparr>sd_rngState = 7, sd_tickCount = 99, sd_elapsedSeconds = 99 / 10, sd_speedMultiplier = 2,
      sd_teams = [(Some Red, \<lparr>td_color = ''#112233'', td_productionAccumulated = 12,
                              td_deliveryPointCityId = None, td_isBot = True\<rparr>)],
      sd_cities = None, sd_customTemplates = Some [], sd_aircraft = Some [],
      sd_activeRaids = []\<rparr>"

text \<open>
  Red's completed airbase at \<open>city-0\<close> holds an idle bomber and two idle fighters, the second
  of a longer-ranged design, and has orders against Blue's \<open>city-1\<close>, which lies 10000 km
  away, twenty times the range of any of the aircraft.
\<close>

definition world_ready :: game where
  "world_ready =
     upd_team Red (\<lambda>t. t\<lparr>tm_cities := [0], tm_aircraft := [0, 1, 2]\<rparr>)
       (upd_team Blue (\<lambda>t. t\<lparr>tm_cities := [1]\<rparr>)
          (GameState0\<lparr>cities := [ex_city ''city-0'' ''A'' 0 (Some Red)
                                    (Some (ex_airbase Red True (Some \<lparr>targetCityId = ''city-1'', o_distance = 10000\<rparr>))),
                                  ex_city ''city-1'' ''B'' 10000 (Some Blue) None],
                       templates := [default_fighter ''tmpl-0'', default_bomber ''tmpl-1'',
                                     (default_fighter ''tmpl-2'')\<lparr>rangePoints := 80\<rparr>],
                       templateIdCounter := 3,
                       ac_store := [ex_plane ''plane-0'' bomber ''tmpl-1'' ''city-0'' idle Red,
                                    ex_plane ''plane-1'' fighter ''tmpl-0'' ''city-0'' idle Red,
                                    ex_plane ''plane-2'' fighter ''tmpl-2'' ''city-0'' idle Red],
                       aircraft := [0, 1, 2], aircraftIdCounter := 3,
                       tickCount := 200, elapsedSeconds := 20\<rparr>))"

text \<open>The state right after the airbase of \<open>world_ready\<close> has dispatched its raid.\<close>

definition world_in_flight :: game where
  "world_in_flight = settle (dispatchRaid flat_geo 0 world_ready)"

text \<open>
  The raid of \<open>world_ready\<close> after \<open>k\<close> ticks in the air: the distance of 10000 km at 500 km per
  minute takes 12000 ticks, and the defenders are looked for from half way on.
\<close>

definition flight_raid :: "nat \<Rightarrow> raid" where
  "flight_raid k =
     \<lparr>r_id = ''raid-0'', fromCityId = ''city-0'', toCityId = ''city-1'', r_team = Some Red,
      bombers = [0], escorts = [2], r_distance = 10000, progress = real k / 12000, speed = 500,
      durationMinutes = 20, startTime = 201 / 10, r_status = enroute,
      hasEngagedDefenders = (6000 \<le> k)\<rparr>"

text \<open>
  \<open>world_ready\<close> \<open>k\<close> ticks later, with the raid in the air; \<open>L\<close> is the time of the last dispatch
  attempt at \<open>city-0\<close> and \<open>B\<close> the time of the bot's last decision.
\<close>

definition world_cruising :: "nat \<Rightarrow> real \<Rightarrow> real \<Rightarrow> game" where
  "world_cruising k L B =
     upd_team Blue (\<lambda>t. t\<lparr>productionPerMinute := 1000\<rparr>)
       (upd_team Red (\<lambda>t. t\<lparr>productionPerMinute := 1000\<rparr>)
          (world_ready\<lparr>tickCount := 200 + k, elapsedSeconds := real (200 + k) / 10,
                       raidIdCounter := 1,
                       ac_store := [ex_plane ''plane-0'' bomber ''tmpl-1'' ''city-0'' onRaid Red,
                                    ex_plane ''plane-1'' fighter ''tmpl-0'' ''city-0'' idle Red,
                                    ex_plane ''plane-2'' fighter ''tmpl-2'' ''city-0'' onRaid Red],
                       activeRaids := [flight_raid k],
                       lastDispatchTimes := [''city-0'' \<mapsto> L],
                       bot_lastDecisionTime := B\<rparr>))"

text \<open>
  The same world after the tick in which the raid arrives: the bomber has hit \<open>city-1\<close> for 4
  hit points with the first draw of the generator, and bomber and escort are back at
  \<open>city-0\<close>.
\<close>

definition world_landed :: "real \<Rightarrow> real \<Rightarrow> game" where
  "world_landed L B =
     upd_city 1 (\<lambda>c. c\<lparr>c_hp := 96\<rparr>)
       (upd_team Blue (\<lambda>t. t\<lparr>productionPerMinute := 1000\<rparr>)
          (upd_team Red (\<lambda>t. t\<lparr>productionPerMinute := 1000\<rparr>)
             (world_ready\<lparr>tickCount := 12200, elapsedSeconds := 1220,
                          raidIdCounter := 1,
                          rng := \<lparr>rng_seed = 0, rng_state = 2 * 0x6D2B79F5\<rparr>,
                          lastDispatchTimes := [''city-0'' \<mapsto> L],
                          bot_lastDecisionTime := B\<rparr>)))"

section \<open>State predicates\<close>

text \<open>Every city's hit points lie between \<open>HP_MIN\<close> and \<open>HP_MAX\<close>.\<close>

definition hp_ok :: "game \<Rightarrow> bool" where
  "hp_ok g = list_all (\<lambda>c. HP_MIN \<le> c_hp c \<and> c_hp c \<le> HP_MAX) (cities g)"

text \<open>The hit points recorded in a save payload's city entries lie within the bounds.\<close>

definition payload_hp_ok :: "stored \<Rightarrow> bool" where
  "payload_hp_ok st =
     (case st of
        Parsed d \<Rightarrow> (case sd_cities d of
                       None \<Rightarrow> True
                     | Some cds \<Rightarrow> list_all (\<lambda>cd. HP_MIN \<le> cd_hp cd \<and> cd_hp cd \<le> HP_MAX) cds)
      | _ \<Rightarrow> True)"

text \<open>
  The payloads on which \<open>loadGame\<close> hits a fault after parsing: an array that the load
  iterates is missing, or a \<open>teams\<close> key that is not a team carries a delivery point.
\<close>

definition faulty :: "saveData \<Rightarrow> bool" where
  "faulty d =
     (sd_cities d = None \<or> sd_customTemplates d = None \<or> sd_aircraft d = None
      \<or> list_ex (\<lambda>kv. fst kv = None \<and>
                     (case td_deliveryPointCityId (snd kv) of None \<Rightarrow> False | Some cid \<Rightarrow> cid \<noteq> []))
           (sd_teams d))"

text \<open>The part of the live state that \<open>loadGame\<close> writes first.\<close>

definition clock_of :: "game \<Rightarrow> int \<times> nat \<times> real \<times> real" where
  "clock_of g = (rng_state (rng g), tickCount g, elapsedSeconds g, speedMultiplier g)"

text \<open>
  Conservation of aircraft on raids: every aircraft in \<open>GameState.aircraft\<close> whose status is
  \<open>onRaid\<close> is in the bomber or escort list of exactly one active raid.
\<close>

definition raids_holding :: "game \<Rightarrow> nat \<Rightarrow> nat" where
  "raids_holding g a =
     length (filter (\<lambda>r. a \<in> set (bombers r) \<or> a \<in> set (escorts r)) (activeRaids g))"

definition conservation :: "game \<Rightarrow> bool" where
  "conservation g =
     list_all (\<lambda>a. raids_holding g a = 1)
       (filter (\<lambda>a. a_status (ac_store g ! a) = onRaid) (aircraft g))"

text \<open>A raid without the flag that records whether the defenders have engaged it.\<close>

definition flight :: "raid \<Rightarrow> raid" where
  "flight r = r\<lparr>hasEngagedDefenders := False\<rparr>"

text \<open>
  The first \<open>n\<close> calls of \<open>tick\<close> in a run all find the game unpaused and complete without an
  uncaught exception.
\<close>

fun ticking :: "MapUtils \<Rightarrow> (game \<Rightarrow> game + game) \<Rightarrow> (nat \<Rightarrow> command list) \<Rightarrow> nat \<Rightarrow> game \<Rightarrow> bool" where
  "ticking mu makeDecisions cmds 0 g = True"
| "ticking mu makeDecisions cmds (Suc n) g =
     (ticking mu makeDecisions cmds n g
      \<and> \<not> isPaused (fold (exec mu) (cmds n) (run mu makeDecisions cmds n g))
      \<and> \<not> isl (tick mu makeDecisions (fold (exec mu) (cmds n) (run mu makeDecisions cmds n g))))"

section \<open>Basic facts about the state helpers\<close>

lemma settle_simps [simp]: "settle (Inr g) = g" "settle (Inl g) = g"
  by (simp_all add: settle_def)

lemma bind_r_simps [simp]: "bind_r (Inr g) f = f g" "bind_r (Inl g) f = Inl g"
  by (simp_all add: bind_r_def)

lemma upd_team_fields [simp]:
  "cities (upd_team tn f g) = cities g"
  "ac_store (upd_team tn f g) = ac_store g"
  "aircraft (upd_team tn f g) = aircraft g"
  "activeRaids (upd_team tn f g) = activeRaids g"
  "templates (upd_team tn f g) = templates g"
  "countries (upd_team tn f g) = countries g"
  "rng (upd_team tn f g) = rng g"
  "tickCount (upd_team tn f g) = tickCount g"
  "elapsedSeconds (upd_team tn f g) = elapsedSeconds g"
  "speedMultiplier (upd_team tn f g) = speedMultiplier g"
  "lastDispatchTimes (upd_team tn f g) = lastDispatchTimes g"
  "teams (upd_team tn f g) = (teams g)(tn := f (teams g tn))"
  by (simp_all add: upd_team_def)

lemma upd_city_fields [simp]:
  "cities (upd_city i f g) = (cities g)[i := f (cities g ! i)]"
  "ac_store (upd_city i f g) = ac_store g"
  "aircraft (upd_city i f g) = aircraft g"
  "activeRaids (upd_city i f g) = activeRaids g"
  "templates (upd_city i f g) = templates g"
  "countries (upd_city i f g) = countries g"
  "rng (upd_city i f g) = rng g"
  "tickCount (upd_city i f g) = tickCount g"
  "elapsedSeconds (upd_city i f g) = elapsedSeconds g"
  "speedMultiplier (upd_city i f g) = speedMultiplier g"
  "lastDispatchTimes (upd_city i f g) = lastDispatchTimes g"
  "teams (upd_city i f g) = teams g"
  by (simp_all add: upd_city_def)

lemma upd_aircraft_fields [simp]:
  "cities (upd_aircraft a f g) = cities g"
  "ac_store (upd_aircraft a f g) = (ac_store g)[a := f (ac_store g ! a)]"
  "aircraft (upd_aircraft a f g) = aircraft g"
  "activeRaids (upd_aircraft a f g) = activeRaids g"
  "templates (upd_aircraft a f g) = templates g"
  "countries (upd_aircraft a f g) = countries g"
  "rng (upd_aircraft a f g) = rng g"
  "tickCount (upd_aircraft a f g) = tickCount g"
  "elapsedSeconds (upd_aircraft a f g) = elapsedSeconds g"
  "speedMultiplier (upd_aircraft a f g) = speedMultiplier g"
  "lastDispatchTimes (upd_aircraft a f g) = lastDispatchTimes g"
  "teams (upd_aircraft a f g) = teams g"
  by (simp_all add: upd_aircraft_def)

lemma upd_raid_fields [simp]:
  "cities (upd_raid k f g) = cities g"
  "ac_store (upd_raid k f g) = ac_store g"
  "aircraft (upd_raid k f g) = aircraft g"
  "activeRaids (upd_raid k f g) = (activeRaids g)[k := f (activeRaids g ! k)]"
  "templates (upd_raid k f g) = templates g"
  "countries (upd_raid k f g) = countries g"
  "rng (upd_raid k f g) = rng g"
  "tickCount (upd_raid k f g) = tickCount g"
  "elapsedSeconds (upd_raid k f g) = elapsedSeconds g"
  "speedMultiplier (upd_raid k f g) = speedMultiplier g"
  "lastDispatchTimes (upd_raid k f g) = lastDispatchTimes g"
  "teams (upd_raid k f g) = teams g"
  by (simp_all add: upd_raid_def)

lemma destroy_fields [simp]:
  "cities (destroy a g) = cities g"
  "aircraft (destroy a g) = aircraft g"
  "activeRaids (destroy a g) = activeRaids g"
  "templates (destroy a g) = templates g"
  "countries (destroy a g) = countries g"
  "rng (destroy a g) = rng g"
  "tickCount (destroy a g) = tickCount g"
  "elapsedSeconds (destroy a g) = elapsedSeconds g"
  "speedMultiplier (destroy a g) = speedMultiplier g"
  "lastDispatchTimes (destroy a g) = lastDispatchTimes g"
  "teams (destroy a g) = teams g"
  "length (ac_store (destroy a g)) = length (ac_store g)"
  by (simp_all add: destroy_def)

lemma fold_destroy_fields [simp]:
  "cities (fold destroy as g) = cities g"
  "aircraft (fold destroy as g) = aircraft g"
  "activeRaids (fold destroy as g) = activeRaids g"
  "templates (fold destroy as g) = templates g"
  "countries (fold destroy as g) = countries g"
  "rng (fold destroy as g) = rng g"
  "tickCount (fold destroy as g) = tickCount g"
  "elapsedSeconds (fold destroy as g) = elapsedSeconds g"
  "speedMultiplier (fold destroy as g) = speedMultiplier g"
  "lastDispatchTimes (fold destroy as g) = lastDispatchTimes g"
  "teams (fold destroy as g) = teams g"
  "length (ac_store (fold destroy as g)) = length (ac_store g)"
  by (induction as arbitrary: g) simp_all

lemma set_status_fields [simp]:
  "cities (set_status st a g) = cities g"
  "aircraft (set_status st a g) = aircraft g"
  "activeRaids (set_status st a g) = activeRaids g"
  "templates (set_status st a g) = templates g"
  "countries (set_status st a g) = countries g"
  "rng (set_status st a g) = rng g"
  "tickCount (set_status st a g) = tickCount g"
  "elapsedSeconds (set_status st a g) = elapsedSeconds g"
  "speedMultiplier (set_status st a g) = speedMultiplier g"
  "lastDispatchTimes (set_status st a g) = lastDispatchTimes g"
  "teams (set_status st a g) = teams g"
  "length (ac_store (set_status st a g)) = length (ac_store g)"
  by (simp_all add: set_status_def)

lemma fold_set_status_fields [simp]:
  "cities (fold (set_status st) as g) = cities g"
  "aircraft (fold (set_status st) as g) = aircraft g"
  "activeRaids (fold (set_status st) as g) = activeRaids g"
  "templates (fold (set_status st) as g) = templates g"
  "countries (fold (set_status st) as g) = countries g"
  "rng (fold (set_status st) as g) = rng g"
  "tickCount (fold (set_status st) as g) = tickCount g"
  "elapsedSeconds (fold (set_status st) as g) = elapsedSeconds g"
  "speedMultiplier (fold (set_status st) as g) = speedMultiplier g"
  "lastDispatchTimes (fold (set_status st) as g) = lastDispatchTimes g"
  "teams (fold (set_status st) as g) = teams g"
  "length (ac_store (fold (set_status st) as g)) = length (ac_store g)"
  by (induction as arbitrary: g) simp_all

lemma clearTargeting_fields [simp]:
  "ac_store (clearTargetingForCity cid g) = ac_store g"
  "aircraft (clearTargetingForCity cid g) = aircraft g"
  "activeRaids (clearTargetingForCity cid g) = activeRaids g"
  "templates (clearTargetingForCity cid g) = templates g"
  "countries (clearTargetingForCity cid g) = countries g"
  "rng (clearTargetingForCity cid g) = rng g"
  "teams (clearTargetingForCity cid g) = teams g"
  "length (cities (clearTargetingForCity cid g)) = length (cities g)"
  by (simp_all add: clearTargetingForCity_def)

lemma clearTargeting_nth:
  "i < length (cities g) \<Longrightarrow>
   cities (clearTargetingForCity cid g) ! i =
     (if hasAirbase (cities g ! i) \<and> targets cid (cities g ! i)
      then (cities g ! i)\<lparr>c_airbase := map_option (\<lambda>ab. ab\<lparr>ab_orders := None\<rparr>) (c_airbase (cities g ! i))\<rparr>
      else cities g ! i)"
  by (simp add: clearTargetingForCity_def)

section \<open>Properties of the random number generator\<close>

lemma dbl_round_exact: "x < 2 ^ 53 \<Longrightarrow> dbl_round x = x"
  by (simp add: dbl_round_def)

lemma rng_next_state_exact:
  "rng_state r + 0x6D2B79F5 < 2 ^ 53 \<Longrightarrow> rng_state (snd (rng_next r)) = rng_state r + 0x6D2B79F5"
  by (simp add: rng_next_def Let_def dbl_round_exact)

text \<open>While the state stays below \<open>2 ^ 53\<close> it is the seed plus a multiple of the increment.\<close>

lemma draws_state_exact:
  "rng_state r + int n * 0x6D2B79F5 < 2 ^ 53 \<Longrightarrow>
   rng_state (snd (draws n r)) = rng_state r + int n * 0x6D2B79F5"
proof (induction n arbitrary: r)
  case 0
  then show ?case by simp
next
  case (Suc n)
  obtain x r' where nx: "rng_next r = (x, r')" by (cases "rng_next r")
  have lt: "rng_state r + 0x6D2B79F5 < 2 ^ 53" using Suc.prems by (simp add: algebra_simps)
  have st: "rng_state r' = rng_state r + 0x6D2B79F5"
    using rng_next_state_exact [OF lt] nx by simp
  have "rng_state r' + int n * 0x6D2B79F5 < 2 ^ 53" using Suc.prems st by (simp add: algebra_simps)
  from Suc.IH [OF this] show ?case using nx st
    by (simp add: split_beta algebra_simps)
qed

lemma word32_mod: "(word_of_int (x mod 2 ^ 32 + y) :: 32 word) = word_of_int (x + y)"
  by (simp add: word_of_int_eq_iff take_bit_eq_mod mod_add_left_eq)

text \<open>Two generators whose states agree modulo \<open>2 ^ 32\<close> draw the same values, as long as
  neither state leaves the exact range.\<close>

lemma draws_congruent:
  "rng_state r1 + int n * 0x6D2B79F5 < 2 ^ 53 \<Longrightarrow> rng_state r2 + int n * 0x6D2B79F5 < 2 ^ 53 \<Longrightarrow>
   (word_of_int (rng_state r1) :: 32 word) = word_of_int (rng_state r2) \<Longrightarrow>
   fst (draws n r1) = fst (draws n r2)"
proof (induction n arbitrary: r1 r2)
  case 0
  then show ?case by simp
next
  case (Suc n)
  obtain x1 r1' where n1: "rng_next r1 = (x1, r1')" by (cases "rng_next r1")
  obtain x2 r2' where n2: "rng_next r2 = (x2, r2')" by (cases "rng_next r2")
  have lt1: "rng_state r1 + 0x6D2B79F5 < 2 ^ 53" using Suc.prems(1) by (simp add: algebra_simps)
  have lt2: "rng_state r2 + 0x6D2B79F5 < 2 ^ 53" using Suc.prems(2) by (simp add: algebra_simps)
  have s1: "rng_state r1' = rng_state r1 + 0x6D2B79F5" using rng_next_state_exact [OF lt1] n1 by simp
  have s2: "rng_state r2' = rng_state r2 + 0x6D2B79F5" using rng_next_state_exact [OF lt2] n2 by simp
  have w: "(word_of_int (rng_state r1') :: 32 word) = word_of_int (rng_state r2')"
    using Suc.prems(3) by (simp add: s1 s2)
  have x: "x1 = x2"
    using n1 n2 w lt1 lt2 s1 s2 by (simp add: rng_next_def Let_def dbl_round_exact)
  have b1: "rng_state r1' + int n * 0x6D2B79F5 < 2 ^ 53" using Suc.prems(1) s1 by (simp add: algebra_simps)
  have b2: "rng_state r2' + int n * 0x6D2B79F5 < 2 ^ 53" using Suc.prems(2) s2 by (simp add: algebra_simps)
  from Suc.IH [OF b1 b2 w] show ?case using n1 n2 x by (simp add: split_beta)
qed

text \<open>
  Reading and restoring the state does not perturb the next \<open>n\<close> draws, provided the state
  stays in the range where doubles hold integers exactly.
\<close>

lemma roundtrip_exact:
  assumes "0 \<le> rng_state r" and "rng_state r + int n * 0x6D2B79F5 < 2 ^ 53"
  shows "fst (draws n (setState (getState r) r)) = fst (draws n r)"
proof -
  have le: "rng_state r mod 2 ^ 32 \<le> rng_state r"
    using assms(1) by (simp add: zmod_le_nonneg_dividend)
  have "(word_of_int (rng_state r mod 2 ^ 32) :: 32 word) = word_of_int (rng_state r)"
    using word32_mod [of "rng_state r" 0] by simp
  then show ?thesis
    using assms le by (intro draws_congruent) (simp_all add: setState_def getState_def to_uint32_def)
qed

lemma state_after_4917758_draws:
  "rng_state (snd (draws 4917758 (new_RNG 0))) = 9007197429407254"
  using draws_state_exact [of "new_RNG 0" 4917758] by (simp add: new_RNG_def to_uint32_def)

lemma next_differs_at_boundary:
  "rng_state r = 9007197429407254 \<Longrightarrow>
   fst (rng_next (setState (getState r) r)) \<noteq> fst (rng_next r)"
  by (simp add: rng_next_def setState_def getState_def to_uint32_def dbl_round_def mix32_def)

text \<open>
  Claim C9 (round trip of \<open>getState\<close>/\<open>setState\<close>). The generator seeded with 0 has, after
  4917758 draws, the state 9007197429407254, still below \<open>2 ^ 53\<close>. The next draw of the
  unmodified generator adds the increment as a double and rounds the odd sum 9007199260973067
  to 9007199260973068; the generator restored with \<open>setState(getState())\<close> continues from the
  state modulo \<open>2 ^ 32\<close> without rounding. The two draws differ, so at this reachable state
  the round trip perturbs the stream.
\<close>

theorem C9_roundtrip_differs_after_2_53:
  "fst (draws 1 (setState (getState (snd (draws 4917758 (new_RNG 0))))
                          (snd (draws 4917758 (new_RNG 0)))))
   \<noteq> fst (draws 1 (snd (draws 4917758 (new_RNG 0))))"
  using next_differs_at_boundary [OF state_after_4917758_draws]
  by (simp add: split_beta)

section \<open>Raid dispatch\<close>

text \<open>
  Claim C8, as amended. An airbase with active orders whose dispatch interval has elapsed but
  which has no idle bomber creates no raid and changes no aircraft; the only effect of the
  dispatch attempt is that the airbase's entry in \<open>lastDispatchTimes\<close> is set to the current
  \<open>elapsedSeconds\<close>, so the next attempt comes a full interval later.
\<close>

theorem C8_no_bombers_only_resets_timer:
  assumes "complete_airbase (cities g ! ci)"
    and "c_airbase (cities g ! ci) = Some ab" and "ab_orders ab = Some od"
    and "RAID_DISPATCH_INTERVAL_S \<le> elapsedSeconds g -
           (case lastDispatchTimes g (c_id (cities g ! ci)) of None \<Rightarrow> 0 | Some t \<Rightarrow> t)"
    and "filter (is_idle g) (getBombersAtCity g (c_id (cities g ! ci))) = []"
  shows "dispatch_step mu ci g =
           Inr (g\<lparr>lastDispatchTimes := (lastDispatchTimes g)(c_id (cities g ! ci) \<mapsto> elapsedSeconds g)\<rparr>)"
proof -
  have "dispatchRaid mu ci g = Inr g"
    using assms(2,3,5) by (simp add: dispatchRaid_def Let_def split: option.splits)
  then show ?thesis
    using assms(1-4) by (simp add: dispatch_step_def Let_def bind_r_def)
qed

theorem C8_witness:
  "complete_airbase (cities world_no_bombers ! 0)
   \<and> RAID_DISPATCH_INTERVAL_S \<le> elapsedSeconds world_no_bombers -
        (case lastDispatchTimes world_no_bombers (c_id (cities world_no_bombers ! 0)) of
           None \<Rightarrow> 0 | Some t \<Rightarrow> t)
   \<and> filter (is_idle world_no_bombers)
        (getBombersAtCity world_no_bombers (c_id (cities world_no_bombers ! 0))) = []
   \<and> dispatch_step flat_geo 0 world_no_bombers =
        Inr (world_no_bombers\<lparr>lastDispatchTimes := [''city-0'' \<mapsto> 20]\<rparr>)"
  using C8_no_bombers_only_resets_timer [of world_no_bombers 0
      "ex_airbase Red True (Some \<lparr>targetCityId = ''city-1'', o_distance = 5\<rparr>)"
      "\<lparr>targetCityId = ''city-1'', o_distance = 5\<rparr>" flat_geo]
  by (simp add: world_no_bombers_def GameState0_def ex_city_def ex_airbase_def complete_airbase_def
      RAID_DISPATCH_INTERVAL_S_def getBombersAtCity_def getAircraftAtCity_def)

text \<open>
  The claim as stated fails: in the scenario, the whole dispatch pass finds the timer of
  \<open>city-0\<close> unset and leaves it set to the current time, although nothing was dispatched.
\<close>

theorem C8_counterexample:
  "filter (is_idle world_no_bombers) (getBombersAtCity world_no_bombers ''city-0'') = []
   \<and> lastDispatchTimes world_no_bombers ''city-0'' = None
   \<and> activeRaids (settle (processDispatchSchedules flat_geo world_no_bombers)) = []
   \<and> lastDispatchTimes (settle (processDispatchSchedules flat_geo world_no_bombers)) ''city-0'' = Some 20"
  by (simp add: world_no_bombers_def GameState0_def ex_city_def ex_airbase_def complete_airbase_def
      RAID_DISPATCH_INTERVAL_S_def getBombersAtCity_def getAircraftAtCity_def getCity_def
      processDispatchSchedules_def dispatch_step_def dispatchRaid_def bind_r_def settle_def Let_def
      upt_rec [of 0] upt_rec [of 1] upt_rec [of "Suc 0"] upt_rec [of 2])

section \<open>Hit-point bounds\<close>

lemma hp_ok_cities: "cities g' = cities g \<Longrightarrow> hp_ok g' = hp_ok g"
  by (simp add: hp_ok_def)

lemma hp_ok_upd_team [simp]: "hp_ok (upd_team tn f g) = hp_ok g"
  by (simp add: hp_ok_def)

lemma hp_ok_upd_aircraft [simp]: "hp_ok (upd_aircraft a f g) = hp_ok g"
  by (simp add: hp_ok_def)

lemma hp_ok_fold_destroy [simp]: "hp_ok (fold destroy as g) = hp_ok g"
  by (simp add: hp_ok_def)

lemma hp_ok_nth:
  "hp_ok g \<Longrightarrow> i < length (cities g) \<Longrightarrow>
   HP_MIN \<le> c_hp (cities g ! i) \<and> c_hp (cities g ! i) \<le> HP_MAX"
  by (simp add: hp_ok_def list_all_length)

lemma hp_ok_upd_city:
  assumes "hp_ok g"
    and "i < length (cities g) \<Longrightarrow> HP_MIN \<le> c_hp (f (cities g ! i)) \<and> c_hp (f (cities g ! i)) \<le> HP_MAX"
  shows "hp_ok (upd_city i f g)"
proof -
  have "HP_MIN \<le> c_hp ((cities g)[i := f (cities g ! i)] ! n)
        \<and> c_hp ((cities g)[i := f (cities g ! i)] ! n) \<le> HP_MAX" if "n < length (cities g)" for n
  proof (cases "n = i")
    case True
    then show ?thesis using assms(2) that by simp
  next
    case False
    then show ?thesis using assms(1) that by (simp add: hp_ok_def list_all_length)
  qed
  then show ?thesis by (simp add: hp_ok_def list_all_length)
qed

text \<open>An update of a city that leaves its hit points alone keeps the bound.\<close>

lemma hp_ok_upd_city_same:
  assumes "hp_ok g" and "\<And>c. c_hp (f c) = c_hp c"
  shows "hp_ok (upd_city i f g)"
  using assms by (intro hp_ok_upd_city) (simp_all add: hp_ok_nth)

lemma hp_ok_clearTargeting [simp]: "hp_ok (clearTargetingForCity cid g) = hp_ok g"
  by (auto simp: hp_ok_def clearTargetingForCity_def list_all_length)

lemma hp_ok_captureCity: "hp_ok g \<Longrightarrow> hp_ok (settle (captureCity ci newOwner g))"
proof -
  assume ok: "hp_ok g"
  define g1 where "g1 = (case c_owner (cities g ! ci) of
                  None \<Rightarrow> g
                | Some old \<Rightarrow>
                    upd_team old (\<lambda>t. t\<lparr>tm_cities :=
                        filter (\<lambda>j. c_id (cities g ! j) \<noteq> c_id (cities g ! ci)) (tm_cities t)\<rparr>) g)"
  define g2 where "g2 = upd_city ci (\<lambda>c. c\<lparr>c_owner := newOwner\<rparr>) g1"
  have ok1: "hp_ok g1" using ok by (simp add: g1_def split: option.splits)
  have ok2: "hp_ok g2" unfolding g2_def using ok1 by (rule hp_ok_upd_city_same) simp
  show ?thesis
  proof (cases newOwner)
    case None
    then show ?thesis using ok2 by (simp add: captureCity_def Let_def g1_def g2_def)
  next
    case (Some new)
    define g5 where "g5 = clearTargetingForCity (c_id (cities g ! ci))
      (upd_city ci (\<lambda>c. c\<lparr>c_hp := 0\<rparr>) (upd_team new (\<lambda>t. t\<lparr>tm_cities := tm_cities t @ [ci]\<rparr>) g2))"
    have "hp_ok (upd_city ci (\<lambda>c. c\<lparr>c_hp := 0\<rparr>) (upd_team new (\<lambda>t. t\<lparr>tm_cities := tm_cities t @ [ci]\<rparr>) g2))"
      using ok2 by (intro hp_ok_upd_city) (simp_all add: HP_MIN_def HP_MAX_def)
    then have ok5: "hp_ok g5" by (simp add: g5_def)
    have ok6: "hp_ok (upd_city ci (\<lambda>c. c\<lparr>hasAirbase := False, c_airbase := None\<rparr>) g5)"
      using ok5 by (rule hp_ok_upd_city_same) simp
    show ?thesis
      using Some ok5 ok6 by (simp add: captureCity_def Let_def g1_def g2_def g5_def)
  qed
qed

lemma hp_ok_join_step: "hp_ok g \<Longrightarrow> hp_ok (join_step e j g)"
proof -
  assume ok: "hp_ok g"
  have "hp_ok (upd_city j (\<lambda>c. c\<lparr>c_owner := Some e\<rparr>) g)"
    using ok by (rule hp_ok_upd_city_same) simp
  then have "hp_ok (upd_city j (\<lambda>c. c\<lparr>c_hp := 100\<rparr>)
                 (upd_team e (\<lambda>t. t\<lparr>tm_cities := tm_cities t @ [j]\<rparr>)
                    (upd_city j (\<lambda>c. c\<lparr>c_owner := Some e\<rparr>) g)))"
    by (intro hp_ok_upd_city) (simp_all add: HP_MIN_def HP_MAX_def)
  then show ?thesis using ok by (simp add: join_step_def)
qed

lemma hp_ok_neutral_fold: "hp_ok g \<Longrightarrow> hp_ok (fold (join_step e) ms g)"
  by (induction ms arbitrary: g) (simp_all add: hp_ok_join_step)

lemma hp_ok_neutral: "hp_ok g \<Longrightarrow> hp_ok (neutralCountryJoinsEnemy ci att g)"
  by (simp add: neutralCountryJoinsEnemy_def Let_def hp_ok_neutral_fold split: option.splits)

lemma hp_ok_applyCityDamage: "hp_ok g \<Longrightarrow> hp_ok (settle (applyCityDamage ci d att g))"
proof -
  assume ok: "hp_ok g"
  have 1: "hp_ok (upd_city ci (\<lambda>c. c\<lparr>c_hp := max HP_MIN (min HP_MAX (c_hp c - d))\<rparr>) g)"
    using ok by (intro hp_ok_upd_city) (simp_all add: HP_MIN_def HP_MAX_def)
  show ?thesis
    using ok 1 by (simp add: applyCityDamage_def Let_def hp_ok_neutral hp_ok_captureCity)
qed

lemma hp_ok_recovery: "hp_ok g \<Longrightarrow> 0 \<le> deltaMs \<Longrightarrow> hp_ok (updateHPRecovery deltaMs g)"
  by (auto simp: hp_ok_def updateHPRecovery_def Let_def list_all_iff HP_RECOVERY_PER_TICK_def TICK_MS_def
        HP_MIN_def HP_MAX_def)

section \<open>The hit-point bound along a run\<close>

lemma fold_r_inv:
  assumes "\<And>x s. P s \<Longrightarrow> P (settle (f x s))" and "P g"
  shows "P (settle (fold_r f xs g))"
  using assms(2)
proof (induction xs arbitrary: g)
  case Nil
  then show ?case by simp
next
  case (Cons x xs)
  show ?case
  proof (cases "f x g")
    case (Inl e)
    then show ?thesis using assms(1) [OF Cons.prems, of x] by simp
  next
    case (Inr s)
    then have "P s" using assms(1) [OF Cons.prems, of x] by simp
    then show ?thesis using Inr Cons.IH by simp
  qed
qed

lemma fold_inv:
  assumes "\<And>x s. P s \<Longrightarrow> P (f x s)" and "P g"
  shows "P (fold f xs g)"
  using assms(2) by (induction xs arbitrary: g) (simp_all add: assms(1))

lemma cities_updateTime [simp]: "cities (updateTime g) = cities g"
  by (simp add: updateTime_def)

lemma cities_createAircraft [simp]: "cities (snd (createAircraft tid cid tn g)) = cities g"
  by (simp add: createAircraft_def Let_def split: option.splits)

lemma cities_build_units [simp]: "cities (snd (build_units tid tn p g)) = cities g"
proof (induction tid tn p g rule: build_units.induct)
  case (1 tid tn p g)
  show ?case
  proof (cases "100 \<le> p")
    case True
    then show ?thesis
      using "1.IH" by (subst build_units.simps) (simp split: option.splits)
  next
    case False
    then show ?thesis by (subst build_units.simps) simp
  qed
qed

lemma cities_alloc_step [simp]: "cities (alloc_step tn ptt ta tid g) = cities g"
  by (simp add: alloc_step_def Let_def split_beta split: option.splits)

lemma cities_update_legacy [simp]: "cities (update_legacy tn g) = cities g"
  by (simp add: update_legacy_def Let_def split: option.splits)

lemma cities_fold_alloc_step [simp]: "cities (fold (alloc_step tn ptt ta) ks g) = cities g"
  by (induction ks arbitrary: g) simp_all

lemma cities_processAllocationProduction [simp]:
  "cities (processAllocationProduction tn ptt g) = cities g"
  by (simp add: processAllocationProduction_def Let_def)

lemma cities_updateProduction [simp]: "cities (updateProduction d g) = cities g"
  unfolding updateProduction_def
  by (rule fold_inv [where P = "\<lambda>s. cities s = cities g"]) (simp_all add: Let_def)


lemma hp_ok_build_step: "hp_ok g \<Longrightarrow> hp_ok (build_step d tn g)"
  by (auto simp: build_step_def Let_def intro!: hp_ok_upd_city_same split: option.splits)

lemma hp_ok_processAirbaseBuilds: "hp_ok g \<Longrightarrow> hp_ok (processAirbaseBuilds d g)"
  unfolding processAirbaseBuilds_def by (rule fold_inv) (simp_all add: hp_ok_build_step)

lemma cities_dispatchRaid [simp]: "cities (settle (dispatchRaid mu ci g)) = cities g"
  by (simp add: dispatchRaid_def Let_def split: option.splits)

lemma cities_dispatch_step [simp]: "cities (settle (dispatch_step mu ci g)) = cities g"
proof (cases "dispatchRaid mu ci g")
  case (Inl e)
  then show ?thesis using cities_dispatchRaid [of mu ci g] by (simp add: dispatch_step_def Let_def)
next
  case (Inr s)
  then show ?thesis using cities_dispatchRaid [of mu ci g] by (simp add: dispatch_step_def Let_def)
qed

lemma cities_processDispatchSchedules [simp]:
  "cities (settle (processDispatchSchedules mu g)) = cities g"
  unfolding processDispatchSchedules_def
  by (rule fold_r_inv [where P = "\<lambda>s. cities s = cities g"]) simp_all

lemma cities_moveAircraft [simp]: "cities (moveAircraft d g) = cities g"
  by (simp add: moveAircraft_def)

lemma cities_roll_losses [simp]: "cities (roll_losses n d as g) = cities g"
  by (induction as arbitrary: g) (simp_all add: split_beta Let_def)

lemma cities_resolveFighterVsFighter [simp]: "cities (resolveFighterVsFighter as ds g) = cities g"
  by (simp add: resolveFighterVsFighter_def Let_def)

lemma cities_intercept_rolls [simp]: "cities (intercept_rolls dof bs g) = cities g"
  by (induction bs arbitrary: g) (simp_all add: split_beta Let_def split: option.splits)

lemma cities_resolveDefenderEngagement [simp]:
  "cities (settle (resolveDefenderEngagement mu r g)) = cities g"
  by (simp add: resolveDefenderEngagement_def Let_def split: option.splits)

lemma cities_encounter_step [simp]: "cities (settle (encounter_step mu k g)) = cities g"
proof (cases "resolveDefenderEngagement mu (activeRaids g ! k) g")
  case (Inl e)
  then show ?thesis
    using cities_resolveDefenderEngagement [of mu "activeRaids g ! k" g]
    by (simp add: encounter_step_def Let_def)
next
  case (Inr s)
  then show ?thesis
    using cities_resolveDefenderEngagement [of mu "activeRaids g ! k" g]
    by (simp add: encounter_step_def Let_def)
qed

lemma cities_resolveInAirEncounters [simp]:
  "cities (settle (resolveInAirEncounters mu g)) = cities g"
  unfolding resolveInAirEncounters_def
  by (rule fold_r_inv [where P = "\<lambda>s. cities s = cities g"]) simp_all

lemma cities_bomber_rolls [simp]: "cities (snd (bomber_rolls cd bs tot g)) = cities g"
  by (induction bs arbitrary: tot g) (simp_all add: split_beta Let_def split: option.splits)

lemma hp_ok_resolveRaidAttack: "hp_ok g \<Longrightarrow> hp_ok (settle (resolveRaidAttack r g))"
proof -
  assume ok: "hp_ok g"
  have "hp_ok (snd (resolveBomberAttack bs cd g))" for bs cd
    using ok by (simp add: resolveBomberAttack_def hp_ok_def)
  then show ?thesis
    using ok by (simp add: resolveRaidAttack_def Let_def split_beta hp_ok_applyCityDamage split: option.splits)
qed

lemma hp_ok_arrivals_loop:
  "hp_ok g \<Longrightarrow> (case arrivals_loop ks cr g of Inl e \<Rightarrow> hp_ok e | Inr (c, s) \<Rightarrow> hp_ok s)"
proof (induction ks arbitrary: cr g)
  case Nil
  then show ?case by simp
next
  case (Cons k ks)
  let ?g1 = "upd_raid k (\<lambda>x. x\<lparr>r_status := attacking\<rparr>) g"
  have ok1: "hp_ok ?g1" using Cons.prems by (simp add: hp_ok_def)
  show ?case
  proof (cases "resolveRaidAttack (activeRaids ?g1 ! k) ?g1")
    case (Inl e)
    then have "hp_ok e" using hp_ok_resolveRaidAttack [OF ok1, of "activeRaids ?g1 ! k"] by simp
    then show ?thesis using Inl Cons by (simp add: Let_def)
  next
    case (Inr s)
    then have "hp_ok s" using hp_ok_resolveRaidAttack [OF ok1, of "activeRaids ?g1 ! k"] by simp
    then show ?thesis using Inr Cons by (simp add: Let_def)
  qed
qed

lemma cities_return_home [simp]: "cities (return_home k g) = cities g"
proof -
  have "cities (fold (\<lambda>a s. if alive s a
                         then upd_aircraft a (\<lambda>x. x\<lparr>a_status := idle,
                                                     locationCityId := c_id (cities s ! fi)\<rparr>) s
                         else s) as s0) = cities s0" for as fi s0
    by (induction as arbitrary: s0) simp_all
  then show ?thesis by (simp add: return_home_def Let_def split: option.splits)
qed

lemma hp_ok_resolveArrivals: "hp_ok g \<Longrightarrow> hp_ok (settle (resolveArrivals g))"
proof -
  assume ok: "hp_ok g"
  have f: "cities (fold return_home cr s) = cities s" for cr s
    by (induction cr arbitrary: s) simp_all
  show ?thesis
    using hp_ok_arrivals_loop [OF ok, of "[0..<length (activeRaids g)]" "[]"]
    by (auto simp: resolveArrivals_def Let_def hp_ok_def f split: sum.splits)
qed


lemma hp_ok_bot_update:
  assumes "\<And>s. hp_ok s \<Longrightarrow> hp_ok (settle (mk s))" and "hp_ok g"
  shows "hp_ok (settle (bot_update mk g))"
proof (cases "mk g")
  case (Inl e)
  then show ?thesis using assms(1) [OF assms(2)] assms(2) by (simp add: bot_update_def)
next
  case (Inr s)
  then show ?thesis using assms(1) [OF assms(2)] assms(2) by (simp add: bot_update_def hp_ok_def)
qed

lemma settle_bind_r:
  assumes "P (settle m)" and "\<And>s. P s \<Longrightarrow> P (settle (f s))"
  shows "P (settle (bind_r m f))"
  using assms by (cases m) simp_all

lemma hp_ok_tick:
  assumes "\<And>s. hp_ok s \<Longrightarrow> hp_ok (settle (mk s))" and "hp_ok g"
  shows "hp_ok (settle (tick mu mk g))"
proof (cases "isPaused g")
  case True
  then show ?thesis using assms(2) by (simp add: tick_def)
next
  case False
  define g4 where "g4 = updateHPRecovery TICK_MS (processAirbaseBuilds TICK_MS (updateProduction TICK_MS (updateTime g)))"
  have "hp_ok (updateProduction TICK_MS (updateTime g))"
    using assms(2) by (simp add: hp_ok_def)
  then have ok4: "hp_ok g4"
    unfolding g4_def by (intro hp_ok_recovery hp_ok_processAirbaseBuilds) (simp_all add: TICK_MS_def)
  have bots: "hp_ok (settle (fold_r (\<lambda>tn s. if isBot (teams s tn) then bot_update mk s else Inr s) all_teams s))"
    if "hp_ok s" for s
    by (rule fold_r_inv [where P = hp_ok]) (auto simp: that intro: hp_ok_bot_update assms(1))
  have "hp_ok (settle (bind_r (processDispatchSchedules mu g4) (\<lambda>g5.
           bind_r (resolveInAirEncounters mu (moveAircraft TICK_MS g5)) (\<lambda>g6.
           bind_r (resolveArrivals g6) (\<lambda>g7.
           fold_r (\<lambda>tn s. if isBot (teams s tn) then bot_update mk s else Inr s) all_teams g7)))))"
  proof (rule settle_bind_r [where P = hp_ok])
    show "hp_ok (settle (processDispatchSchedules mu g4))" using ok4 by (simp add: hp_ok_def)
  next
    fix g5 assume ok5: "hp_ok g5"
    show "hp_ok (settle (bind_r (resolveInAirEncounters mu (moveAircraft TICK_MS g5)) (\<lambda>g6.
           bind_r (resolveArrivals g6) (\<lambda>g7.
           fold_r (\<lambda>tn s. if isBot (teams s tn) then bot_update mk s else Inr s) all_teams g7))))"
    proof (rule settle_bind_r [where P = hp_ok])
      show "hp_ok (settle (resolveInAirEncounters mu (moveAircraft TICK_MS g5)))"
        using ok5 by (simp add: hp_ok_def)
    next
      fix g6 assume ok6: "hp_ok g6"
      show "hp_ok (settle (bind_r (resolveArrivals g6) (\<lambda>g7.
           fold_r (\<lambda>tn s. if isBot (teams s tn) then bot_update mk s else Inr s) all_teams g7)))"
        by (rule settle_bind_r [where P = hp_ok]) (simp_all add: ok6 hp_ok_resolveArrivals bots)
    qed
  qed
  then show ?thesis using False by (simp add: tick_def Let_def g4_def)
qed

lemma hp_ok_assignCountries: "hp_ok g \<Longrightarrow> hp_ok (assignCountries allocn g)"
proof -
  assume ok: "hp_ok g"
  have a: "hp_ok (assign_city allocn i s)" if "hp_ok s" for i s
    using that by (auto simp: assign_city_def intro!: hp_ok_upd_city_same split: option.splits)
  have b: "hp_ok (initial_delivery tn s)" if "hp_ok s" for tn s
    using that by (auto simp: initial_delivery_def Let_def intro!: hp_ok_upd_city_same split: list.splits)
  have "hp_ok (fold (assign_city allocn) js s)" if "hp_ok s" for js s
    by (rule fold_inv) (simp_all add: a that)
  moreover have "hp_ok (fold initial_delivery ts s)" if "hp_ok s" for ts s
    by (rule fold_inv) (simp_all add: b that)
  ultimately show ?thesis using ok by (simp add: assignCountries_def setInitialDeliveryPoints_def)
qed

lemma cities_createTemplate [simp]: "cities (createTemplate tn sp g) = cities g"
  by (simp add: createTemplate_def Let_def)

lemma hp_ok_exec: "hp_ok g \<Longrightarrow> hp_ok (exec mu c g)"
proof (cases c)
  case (AssignCountries a)
  then show "hp_ok g \<Longrightarrow> hp_ok (exec mu c g)" by (simp add: hp_ok_assignCountries)
next
  case (BuildAirbase cid tn)
  then show "hp_ok g \<Longrightarrow> hp_ok (exec mu c g)"
    by (auto simp: buildAirbase_def Let_def intro!: hp_ok_upd_city_same split: option.splits)
next
  case (SetDeliveryPoint cid tn)
  then show "hp_ok g \<Longrightarrow> hp_ok (exec mu c g)"
    by (auto simp: setDeliveryPoint_def Let_def intro!: hp_ok_upd_city_same split: option.splits)
next
  case (SetBomberOrders cid tid)
  then show "hp_ok g \<Longrightarrow> hp_ok (exec mu c g)"
    by (auto simp: setBomberOrders_def Let_def intro!: hp_ok_upd_city_same split: option.splits)
next
  case (ClearBomberOrders cid)
  then show "hp_ok g \<Longrightarrow> hp_ok (exec mu c g)"
    by (auto simp: clearBomberOrders_def Let_def intro!: hp_ok_upd_city_same split: option.splits)
next
  case (TryProduceAircraft tn tid)
  then show "hp_ok g \<Longrightarrow> hp_ok (exec mu c g)"
    by (auto simp: tryProduceAircraft_def Let_def hp_ok_def split: option.splits)
next
  case (StartDesign tn sp)
  then show "hp_ok g \<Longrightarrow> hp_ok (exec mu c g)"
    by (auto simp: startDesign_def Let_def hp_ok_def)
next
  case TogglePause
  then show "hp_ok g \<Longrightarrow> hp_ok (exec mu c g)" by (simp add: togglePause_def hp_ok_def)
next
  case (SetSpeed m)
  then show "hp_ok g \<Longrightarrow> hp_ok (exec mu c g)" by (simp add: setSpeed_def hp_ok_def)
qed

lemma hp_ok_run:
  assumes "\<And>s. hp_ok s \<Longrightarrow> hp_ok (settle (mk s))" and "hp_ok g"
  shows "hp_ok (run mu mk cmds n g)"
proof (induction n)
  case 0
  then show ?case using assms(2) by simp
next
  case (Suc n)
  have "hp_ok (fold (exec mu) (cmds n) (run mu mk cmds n g))"
    by (rule fold_inv) (simp_all add: hp_ok_exec Suc.IH)
  then show ?case by (simp add: hp_ok_tick assms(1))
qed

lemma cities_createDefaultTemplates [simp]: "cities (createDefaultTemplates g) = cities g"
  by (simp add: createDefaultTemplates_def Let_def)

lemma hp_ok_initialize:
  "hp_ok (initialize sd data g) = list_all (\<lambda>c. HP_MIN \<le> c_hp c \<and> c_hp c \<le> HP_MAX) (snd data)"
  by (simp add: initialize_def hp_ok_def)


section \<open>The hit-point bound across a load\<close>

lemma hp_ok_restore_city:
  "hp_ok g \<Longrightarrow> HP_MIN \<le> cd_hp cd \<and> cd_hp cd \<le> HP_MAX \<Longrightarrow> hp_ok (restore_city cd g)"
  by (auto simp: restore_city_def intro!: hp_ok_upd_city split: option.splits)

lemma hp_ok_fold_restore_city:
  "hp_ok g \<Longrightarrow> list_all (\<lambda>cd. HP_MIN \<le> cd_hp cd \<and> cd_hp cd \<le> HP_MAX) cds \<Longrightarrow>
   hp_ok (fold restore_city cds g)"
  by (induction cds arbitrary: g) (simp_all add: hp_ok_restore_city)

lemma cities_fold_restore_team [simp]: "cities (fold restore_team kvs g) = cities g"
  by (induction kvs arbitrary: g) (simp_all add: restore_team_def split: option.splits)

lemma cities_rebuild_city_lists [simp]: "cities (rebuild_city_lists g) = cities g"
  unfolding rebuild_city_lists_def
  by (rule fold_inv [where P = "\<lambda>s. cities s = cities g"]) simp_all

lemma cities_restore_delivery [simp]: "cities (settle (restore_delivery kv g)) = cities g"
  by (simp add: restore_delivery_def split: option.splits)

lemma cities_fold_restore_delivery [simp]: "cities (settle (fold_r restore_delivery kvs g)) = cities g"
  by (rule fold_r_inv [where P = "\<lambda>s. cities s = cities g"]) simp_all

lemma cities_fold_restore_template [simp]: "cities (fold restore_template tds g) = cities g"
  by (induction tds arbitrary: g) (simp_all add: restore_template_def)

lemma cities_fold_restore_aircraft [simp]: "cities (fold restore_aircraft ads g) = cities g"
  by (induction ads arbitrary: g) (simp_all add: restore_aircraft_def Let_def split: option.splits)

lemma cities_fold_clear_team_aircraft [simp]:
  "cities (fold (\<lambda>tn s. upd_team tn (\<lambda>t. t\<lparr>tm_aircraft := []\<rparr>) s) ts g) = cities g"
  by (induction ts arbitrary: g) simp_all

lemma hp_ok_loadGame:
  assumes "hp_ok g" and "payload_hp_ok st"
  shows "hp_ok (snd (loadGame st g))"
proof (cases st)
  case NoSave
  then show ?thesis using assms(1) by (simp add: loadGame_def)
next
  case Unparseable
  then show ?thesis using assms(1) by (simp add: loadGame_def)
next
  case (Parsed d)
  define g2 where "g2 = fold restore_team (sd_teams d)
     (g\<lparr>rng := setState (sd_rngState d) (rng g), tickCount := sd_tickCount d,
        elapsedSeconds := sd_elapsedSeconds d, speedMultiplier := sd_speedMultiplier d\<rparr>)"
  have ok2: "hp_ok g2" using assms(1) by (simp add: g2_def hp_ok_def)
  show ?thesis
  proof (cases "sd_cities d")
    case None
    then show ?thesis using Parsed ok2 by (simp add: loadGame_def Let_def g2_def)
  next
    case (Some cds)
    define g3 where "g3 = rebuild_city_lists (fold restore_city cds g2)"
    have "hp_ok (fold restore_city cds g2)"
      using ok2 assms(2) Parsed Some by (intro hp_ok_fold_restore_city) (simp_all add: payload_hp_ok_def)
    then have ok3: "hp_ok g3" by (simp add: g3_def hp_ok_def)
    show ?thesis
    proof (cases "fold_r restore_delivery (sd_teams d) g3")
      case (Inl e)
      then have "cities e = cities g3"
        using cities_fold_restore_delivery [of "sd_teams d" g3] by simp
      then show ?thesis
        using Parsed Some ok3 Inl
        by (simp add: loadGame_def Let_def g2_def [symmetric] g3_def [symmetric] hp_ok_def)
    next
      case (Inr g4)
      then have "cities g4 = cities g3"
        using cities_fold_restore_delivery [of "sd_teams d" g3] by simp
      then show ?thesis
        using Parsed Some ok3 Inr
        by (simp add: loadGame_def Let_def g2_def [symmetric] g3_def [symmetric] hp_ok_def
                 split: option.splits)
    qed
  qed
qed


text \<open>
  Claim C2 (HP bounds). If every city's hit points lie in \<open>[-100, 100]\<close>, they still do
  after each operation that writes hit points: \<open>applyCityDamage\<close> (whether it completes or
  throws), \<open>updateHPRecovery\<close> for an elapsed time \<open>deltaMs \<ge> 0\<close>, \<open>captureCity\<close> and
  \<open>neutralCountryJoinsEnemy\<close>. Consequently the bound holds in every state reached by any
  number of ticks with any commands in between, for every bot policy that itself keeps the
  bound, and after loading a save whose recorded hit points are within the bound.
\<close>

theorem C2_hp_bounds:
  assumes "hp_ok g" and "0 \<le> deltaMs"
  shows "hp_ok (settle (applyCityDamage ci damage attackerTeam g))
       \<and> hp_ok (updateHPRecovery deltaMs g)
       \<and> hp_ok (settle (captureCity ci newOwner g))
       \<and> hp_ok (neutralCountryJoinsEnemy ci attackerTeam g)
       \<and> ((\<forall>s. hp_ok s \<longrightarrow> hp_ok (settle (makeDecisions s)))
              \<longrightarrow> hp_ok (run mu makeDecisions cmds n g))
       \<and> (payload_hp_ok st \<longrightarrow> hp_ok (snd (loadGame st g)))"
  using assms
  by (simp add: hp_ok_applyCityDamage hp_ok_recovery hp_ok_captureCity hp_ok_neutral hp_ok_run
      hp_ok_loadGame)

theorem C2_witness:
  "hp_ok world_no_bombers \<and> (0::real) \<le> 100
   \<and> hp_ok (settle (applyCityDamage 1 250 (Some Red) world_no_bombers))
   \<and> hp_ok (updateHPRecovery 100 world_no_bombers)
   \<and> hp_ok (settle (captureCity 1 (Some Red) world_no_bombers))
   \<and> hp_ok (neutralCountryJoinsEnemy 1 (Some Red) world_no_bombers)
   \<and> hp_ok (run flat_geo Inr (\<lambda>k. [SetBomberOrders ''city-0'' ''city-1'']) 600 world_no_bombers)
   \<and> hp_ok (snd (loadGame NoSave world_no_bombers))"
  using C2_hp_bounds [where g = world_no_bombers and deltaMs = 100 and ci = 1 and damage = 250
      and attackerTeam = "Some Red" and newOwner = "Some Red" and makeDecisions = Inr
      and mu = flat_geo and cmds = "\<lambda>k. [SetBomberOrders ''city-0'' ''city-1'']" and n = 600
      and st = NoSave]
  by (simp add: world_no_bombers_def GameState0_def ex_city_def hp_ok_def HP_MIN_def HP_MAX_def
      payload_hp_ok_def)

section \<open>Attacks on neutral cities\<close>






section \<open>City capture\<close>

lemma fold_destroy_nth:
  "a < length (ac_store g) \<Longrightarrow>
   ac_store (fold destroy as g) ! a =
     (if a \<in> set as then (ac_store g ! a)\<lparr>a_hp := 0, a_status := destroyed\<rparr> else ac_store g ! a)"
proof (induction as arbitrary: g)
  case Nil
  then show ?case by simp
next
  case (Cons b bs)
  have l: "a < length (ac_store (destroy b g))" using Cons.prems by simp
  have d: "ac_store (destroy b g) ! a =
             (if a = b then (ac_store g ! a)\<lparr>a_hp := 0, a_status := destroyed\<rparr> else ac_store g ! a)"
    using Cons.prems by (simp add: destroy_def nth_list_update)
  show ?case using Cons.IH [OF l] d by auto
qed

lemma captureCity_Some:
  assumes ci: "ci < length (cities g)" and own: "c_owner (cities g ! ci) = Some old"
  shows "\<exists>g'. captureCity ci (Some new) g = Inr g'
     \<and> length (cities g') = length (cities g)
     \<and> ci \<in> set (tm_cities (teams g' new))
     \<and> (old \<noteq> new \<longrightarrow> ci \<notin> set (tm_cities (teams g' old)))
     \<and> c_owner (cities g' ! ci) = Some new \<and> c_hp (cities g' ! ci) = 0
     \<and> (\<forall>c\<in>set (cities g'). hasAirbase c \<longrightarrow> \<not> targets (c_id (cities g ! ci)) c)
     \<and> ((\<forall>c\<in>set (cities g). targets (c_id (cities g ! ci)) c \<longrightarrow> hasAirbase c)
          \<longrightarrow> (\<forall>c\<in>set (cities g'). \<not> targets (c_id (cities g ! ci)) c))
     \<and> (hasAirbase (cities g ! ci) \<longrightarrow>
            \<not> hasAirbase (cities g' ! ci) \<and> c_airbase (cities g' ! ci) = None
          \<and> (\<forall>a\<in>set (getAircraftAtCity g (c_id (cities g ! ci))). a < length (ac_store g) \<longrightarrow>
                a_hp (ac_store g' ! a) = 0 \<and> a_status (ac_store g' ! a) = destroyed))
     \<and> (\<not> hasAirbase (cities g ! ci) \<longrightarrow>
            c_airbase (cities g' ! ci) = c_airbase (cities g ! ci) \<and> ac_store g' = ac_store g)"
proof -
  let ?cid = "c_id (cities g ! ci)"
  define g1 where "g1 = upd_team old (\<lambda>t. t\<lparr>tm_cities :=
                        filter (\<lambda>j. c_id (cities g ! j) \<noteq> ?cid) (tm_cities t)\<rparr>) g"
  define g4 where "g4 = upd_city ci (\<lambda>c. c\<lparr>c_hp := 0\<rparr>)
     (upd_team new (\<lambda>t. t\<lparr>tm_cities := tm_cities t @ [ci]\<rparr>) (upd_city ci (\<lambda>c. c\<lparr>c_owner := Some new\<rparr>) g1))"
  define g5 where "g5 = clearTargetingForCity ?cid g4"
  define g6 where "g6 = upd_city ci (\<lambda>c. c\<lparr>hasAirbase := False, c_airbase := None\<rparr>) g5"
  define g' where "g' = (if hasAirbase (cities g5 ! ci) then fold destroy (getAircraftAtCity g6 ?cid) g6 else g5)"
  have res: "captureCity ci (Some new) g = Inr g'"
    using own by (simp add: captureCity_def Let_def g1_def g4_def g5_def g6_def g'_def)
  have c4: "cities g4 = (cities g)[ci := (cities g ! ci)\<lparr>c_owner := Some new, c_hp := 0\<rparr>]"
    using ci by (simp add: g4_def g1_def)
  have len4: "length (cities g4) = length (cities g)" by (simp add: c4)
  have n4: "cities g4 ! j = (if j = ci then (cities g ! ci)\<lparr>c_owner := Some new, c_hp := 0\<rparr> else cities g ! j)"
    if "j < length (cities g)" for j using that by (simp add: c4 nth_list_update)
  have tg4: "targets ?cid (cities g4 ! j) = targets ?cid (cities g ! j)"
            "hasAirbase (cities g4 ! j) = hasAirbase (cities g ! j)"
            "c_airbase (cities g4 ! j) = c_airbase (cities g ! j)"
    if "j < length (cities g)" for j using that by (simp_all add: n4 targets_def)
  have n5: "cities g5 ! j = (if hasAirbase (cities g ! j) \<and> targets ?cid (cities g ! j)
              then (cities g4 ! j)\<lparr>c_airbase := map_option (\<lambda>ab. ab\<lparr>ab_orders := None\<rparr>) (c_airbase (cities g ! j))\<rparr>
              else cities g4 ! j)"
    if "j < length (cities g)" for j
    using that by (simp add: g5_def clearTargeting_nth len4 tg4)
  have len5: "length (cities g5) = length (cities g)" by (simp add: g5_def len4)
  have ha5: "hasAirbase (cities g5 ! ci) = hasAirbase (cities g ! ci)"
    using ci by (simp add: n5 n4)
  have nt5: "hasAirbase (cities g5 ! j) \<longrightarrow> \<not> targets ?cid (cities g5 ! j)"
    if "j < length (cities g)" for j
    using that by (auto simp: n5 tg4 targets_def split: option.splits)
  have nt5': "\<not> targets ?cid (cities g5 ! j)"
    if "j < length (cities g)" "targets ?cid (cities g ! j) \<longrightarrow> hasAirbase (cities g ! j)" for j
    using that by (auto simp: n5 tg4 targets_def split: option.splits)
  have len': "length (cities g') = length (cities g)"
    by (simp add: g'_def g6_def len5)
  have n': "cities g' ! j = (if j = ci \<and> hasAirbase (cities g ! ci)
                then (cities g5 ! ci)\<lparr>hasAirbase := False, c_airbase := None\<rparr> else cities g5 ! j)"
    if "j < length (cities g)" for j
    using that by (simp add: g'_def g6_def ha5 len5 nth_list_update)
  have teams': "teams g' = teams g4"
    by (simp add: g'_def g6_def g5_def)
  have t_new: "ci \<in> set (tm_cities (teams g' new))"
    by (simp add: teams' g4_def)
  have t_old: "old \<noteq> new \<longrightarrow> ci \<notin> set (tm_cities (teams g' old))"
    by (simp add: teams' g4_def g1_def)
  have own1: "c_owner (cities g' ! ci) = Some new" and own2: "c_hp (cities g' ! ci) = 0"
    using ci by (simp_all add: n' n5 n4)
  have clr: "\<forall>c\<in>set (cities g'). hasAirbase c \<longrightarrow> \<not> targets ?cid c"
  proof
    fix c assume "c \<in> set (cities g')"
    then obtain j where j: "j < length (cities g)" "c = cities g' ! j"
      using len' by (auto simp: in_set_conv_nth)
    show "hasAirbase c \<longrightarrow> \<not> targets ?cid c"
      using nt5 [OF j(1)] j by (auto simp: n' targets_def)
  qed
  have clr': "(\<forall>c\<in>set (cities g). targets ?cid c \<longrightarrow> hasAirbase c)
          \<longrightarrow> (\<forall>c\<in>set (cities g'). \<not> targets ?cid c)"
  proof (intro impI ballI)
    fix c assume inv: "\<forall>c\<in>set (cities g). targets ?cid c \<longrightarrow> hasAirbase c" and "c \<in> set (cities g')"
    then obtain j where j: "j < length (cities g)" "c = cities g' ! j"
      using len' by (auto simp: in_set_conv_nth)
    have "targets ?cid (cities g ! j) \<longrightarrow> hasAirbase (cities g ! j)" using inv j(1) by simp
    from nt5' [OF j(1) this] show "\<not> targets ?cid c"
      using j by (auto simp: n' targets_def)
  qed
  have ab: "hasAirbase (cities g ! ci) \<longrightarrow>
            \<not> hasAirbase (cities g' ! ci) \<and> c_airbase (cities g' ! ci) = None
          \<and> (\<forall>a\<in>set (getAircraftAtCity g ?cid). a < length (ac_store g) \<longrightarrow>
                a_hp (ac_store g' ! a) = 0 \<and> a_status (ac_store g' ! a) = destroyed)"
  proof
    assume h: "hasAirbase (cities g ! ci)"
    have s6: "ac_store g6 = ac_store g" "aircraft g6 = aircraft g"
      by (simp_all add: g6_def g5_def g4_def g1_def)
    then have ga: "getAircraftAtCity g6 ?cid = getAircraftAtCity g ?cid"
      by (simp add: getAircraftAtCity_def)
    have "a_hp (ac_store g' ! a) = 0 \<and> a_status (ac_store g' ! a) = destroyed"
      if "a \<in> set (getAircraftAtCity g ?cid)" "a < length (ac_store g)" for a
      using that h ha5 by (simp add: g'_def ga fold_destroy_nth s6)
    then show "\<not> hasAirbase (cities g' ! ci) \<and> c_airbase (cities g' ! ci) = None
          \<and> (\<forall>a\<in>set (getAircraftAtCity g ?cid). a < length (ac_store g) \<longrightarrow>
                a_hp (ac_store g' ! a) = 0 \<and> a_status (ac_store g' ! a) = destroyed)"
      using h ci by (simp add: n')
  qed
  have nab: "\<not> hasAirbase (cities g ! ci) \<longrightarrow>
            c_airbase (cities g' ! ci) = c_airbase (cities g ! ci) \<and> ac_store g' = ac_store g"
  proof
    assume h: "\<not> hasAirbase (cities g ! ci)"
    have "ac_store g5 = ac_store g" by (simp add: g5_def g4_def g1_def)
    then have 1: "ac_store g' = ac_store g" using h ha5 by (simp add: g'_def)
    have 2: "c_airbase (cities g' ! ci) = c_airbase (cities g ! ci)"
      using ci h by (simp add: n' n5 n4)
    show "c_airbase (cities g' ! ci) = c_airbase (cities g ! ci) \<and> ac_store g' = ac_store g"
      using 1 2 by simp
  qed
  show ?thesis
    by (intro exI [of _ g'] conjI; fact)
qed


text \<open>
  Claim C3, as amended. When \<open>applyCityDamage\<close> drives the hit points of an owned city to
  \<open>HP_MIN\<close> or below, the same call completes the capture: the city is in the attacker's
  city list, it is absent from the previous owner's list whenever the previous owner is not
  the attacker, its owner is the attacker and its hit points are 0; no city flagged
  \<open>hasAirbase\<close> keeps orders against it (none at all does, if orders only ever sit on
  flagged cities); and if the city itself was flagged \<open>hasAirbase\<close>, the flag is cleared,
  the airbase is \<open>null\<close> and every idle live aircraft located there is destroyed. If it
  was not flagged (no airbase, or one still under construction), its \<open>airbase\<close> field and
  all aircraft are left as they were.
\<close>

theorem C3_capture_transition:
  assumes "ci < length (cities g)" and "c_owner (cities g ! ci) = Some old"
    and "c_hp (cities g ! ci) - damage \<le> HP_MIN"
  shows "\<exists>g'. applyCityDamage ci damage (Some new) g = Inr g'
     \<and> ci \<in> set (tm_cities (teams g' new))
     \<and> (old \<noteq> new \<longrightarrow> ci \<notin> set (tm_cities (teams g' old)))
     \<and> c_owner (cities g' ! ci) = Some new \<and> c_hp (cities g' ! ci) = 0
     \<and> (\<forall>c\<in>set (cities g'). hasAirbase c \<longrightarrow> \<not> targets (c_id (cities g ! ci)) c)
     \<and> ((\<forall>c\<in>set (cities g). targets (c_id (cities g ! ci)) c \<longrightarrow> hasAirbase c)
          \<longrightarrow> (\<forall>c\<in>set (cities g'). \<not> targets (c_id (cities g ! ci)) c))
     \<and> (hasAirbase (cities g ! ci) \<longrightarrow>
            \<not> hasAirbase (cities g' ! ci) \<and> c_airbase (cities g' ! ci) = None
          \<and> (\<forall>a\<in>set (getAircraftAtCity g (c_id (cities g ! ci))). a < length (ac_store g) \<longrightarrow>
                a_hp (ac_store g' ! a) = 0 \<and> a_status (ac_store g' ! a) = destroyed))
     \<and> (\<not> hasAirbase (cities g ! ci) \<longrightarrow>
            c_airbase (cities g' ! ci) = c_airbase (cities g ! ci) \<and> ac_store g' = ac_store g)"
proof -
  define g1 where "g1 = upd_city ci (\<lambda>c. c\<lparr>c_hp := max HP_MIN (min HP_MAX (c_hp c - damage))\<rparr>) g"
  have hp1: "c_hp (cities g1 ! ci) \<le> HP_MIN"
    using assms(1,3) by (simp add: g1_def HP_MIN_def HP_MAX_def)
  have res: "applyCityDamage ci damage (Some new) g = captureCity ci (Some new) g1"
    using assms(2) hp1 by (simp add: applyCityDamage_def Let_def g1_def [symmetric])
  have len1: "length (cities g1) = length (cities g)" by (simp add: g1_def)
  have n1: "cities g1 ! j = (if j = ci then (cities g ! ci)\<lparr>c_hp := max HP_MIN (min HP_MAX (c_hp (cities g ! ci) - damage))\<rparr>
                             else cities g ! j)" if "j < length (cities g)" for j
    using that by (simp add: g1_def nth_list_update)
  have same: "c_id (cities g1 ! j) = c_id (cities g ! j)" "hasAirbase (cities g1 ! j) = hasAirbase (cities g ! j)"
       "c_airbase (cities g1 ! j) = c_airbase (cities g ! j)" "c_owner (cities g1 ! j) = c_owner (cities g ! j)"
       "targets x (cities g1 ! j) = targets x (cities g ! j)"
    if "j < length (cities g)" for j x
    using that by (simp_all add: n1 targets_def)
  have st1: "ac_store g1 = ac_store g" "aircraft g1 = aircraft g" by (simp_all add: g1_def)
  then have ga: "getAircraftAtCity g1 x = getAircraftAtCity g x" for x
    by (simp add: getAircraftAtCity_def)
  have inv1: "\<forall>c\<in>set (cities g1). targets (c_id (cities g ! ci)) c \<longrightarrow> hasAirbase c"
    if "\<forall>c\<in>set (cities g). targets (c_id (cities g ! ci)) c \<longrightarrow> hasAirbase c"
  proof
    fix c assume "c \<in> set (cities g1)"
    then obtain j where j: "j < length (cities g)" "c = cities g1 ! j"
      using len1 by (auto simp: in_set_conv_nth)
    have "cities g ! j \<in> set (cities g)" using j(1) by simp
    then show "targets (c_id (cities g ! ci)) c \<longrightarrow> hasAirbase c"
      using that j by (simp add: same)
  qed
  have ci1: "ci < length (cities g1)" using assms(1) len1 by simp
  have own1: "c_owner (cities g1 ! ci) = Some old" using assms(1,2) by (simp add: same)
  from captureCity_Some [OF ci1 own1, of new] obtain g' where
    g': "captureCity ci (Some new) g1 = Inr g'"
        "ci \<in> set (tm_cities (teams g' new))"
        "old \<noteq> new \<longrightarrow> ci \<notin> set (tm_cities (teams g' old))"
        "c_owner (cities g' ! ci) = Some new" "c_hp (cities g' ! ci) = 0"
        "\<forall>c\<in>set (cities g'). hasAirbase c \<longrightarrow> \<not> targets (c_id (cities g1 ! ci)) c"
        "(\<forall>c\<in>set (cities g1). targets (c_id (cities g1 ! ci)) c \<longrightarrow> hasAirbase c)
          \<longrightarrow> (\<forall>c\<in>set (cities g'). \<not> targets (c_id (cities g1 ! ci)) c)"
        "hasAirbase (cities g1 ! ci) \<longrightarrow>
            \<not> hasAirbase (cities g' ! ci) \<and> c_airbase (cities g' ! ci) = None
          \<and> (\<forall>a\<in>set (getAircraftAtCity g1 (c_id (cities g1 ! ci))). a < length (ac_store g1) \<longrightarrow>
                a_hp (ac_store g' ! a) = 0 \<and> a_status (ac_store g' ! a) = destroyed)"
        "\<not> hasAirbase (cities g1 ! ci) \<longrightarrow>
            c_airbase (cities g' ! ci) = c_airbase (cities g1 ! ci) \<and> ac_store g' = ac_store g1"
    by blast
  note s = same [OF assms(1)]
  have 1: "applyCityDamage ci damage (Some new) g = Inr g'" using res g'(1) by simp
  have 6: "\<forall>c\<in>set (cities g'). hasAirbase c \<longrightarrow> \<not> targets (c_id (cities g ! ci)) c"
    using g'(6) by (simp add: s)
  have 7: "(\<forall>c\<in>set (cities g). targets (c_id (cities g ! ci)) c \<longrightarrow> hasAirbase c)
          \<longrightarrow> (\<forall>c\<in>set (cities g'). \<not> targets (c_id (cities g ! ci)) c)"
    using g'(7) inv1 by (simp add: s)
  have 8: "hasAirbase (cities g ! ci) \<longrightarrow>
            \<not> hasAirbase (cities g' ! ci) \<and> c_airbase (cities g' ! ci) = None
          \<and> (\<forall>a\<in>set (getAircraftAtCity g (c_id (cities g ! ci))). a < length (ac_store g) \<longrightarrow>
                a_hp (ac_store g' ! a) = 0 \<and> a_status (ac_store g' ! a) = destroyed)"
    using g'(8) by (simp add: s ga st1)
  have 9: "\<not> hasAirbase (cities g ! ci) \<longrightarrow>
            c_airbase (cities g' ! ci) = c_airbase (cities g ! ci) \<and> ac_store g' = ac_store g"
    using g'(9) by (simp add: s st1)
  note 2 = g'(2) and 3 = g'(3) and 4 = g'(4) and 5 = g'(5)
  show ?thesis
    by (intro exI [of _ g'] conjI; fact)
qed

theorem C3_witness:
  "1 < length (cities world_capture) \<and> c_owner (cities world_capture ! 1) = Some Red
   \<and> c_hp (cities world_capture ! 1) - 250 \<le> HP_MIN
   \<and> hasAirbase (cities world_capture ! 1)
   \<and> (\<exists>g'. applyCityDamage 1 250 (Some Blue) world_capture = Inr g'
         \<and> 1 \<in> set (tm_cities (teams g' Blue)) \<and> 1 \<notin> set (tm_cities (teams g' Red))
         \<and> c_owner (cities g' ! 1) = Some Blue \<and> c_hp (cities g' ! 1) = 0
         \<and> \<not> hasAirbase (cities g' ! 1) \<and> c_airbase (cities g' ! 1) = None)"
proof -
  have h1: "1 < length (cities world_capture)" by (simp add: world_capture_def GameState0_def)
  have h2: "c_owner (cities world_capture ! 1) = Some Red"
    by (simp add: world_capture_def GameState0_def ex_city_def)
  have h3: "c_hp (cities world_capture ! 1) - 250 \<le> HP_MIN"
    by (simp add: world_capture_def GameState0_def ex_city_def HP_MIN_def)
  have h4: "hasAirbase (cities world_capture ! 1)"
    by (simp add: world_capture_def GameState0_def ex_city_def ex_airbase_def)
  from C3_capture_transition [OF h1 h2 h3, of Blue] h4 obtain g' where
    "applyCityDamage 1 250 (Some Blue) world_capture = Inr g'"
    "1 \<in> set (tm_cities (teams g' Blue))" "1 \<notin> set (tm_cities (teams g' Red))"
    "c_owner (cities g' ! 1) = Some Blue" "c_hp (cities g' ! 1) = 0"
    "\<not> hasAirbase (cities g' ! 1)" "c_airbase (cities g' ! 1) = None"
    by auto
  then have "\<exists>g'. applyCityDamage 1 250 (Some Blue) world_capture = Inr g'
         \<and> 1 \<in> set (tm_cities (teams g' Blue)) \<and> 1 \<notin> set (tm_cities (teams g' Red))
         \<and> c_owner (cities g' ! 1) = Some Blue \<and> c_hp (cities g' ! 1) = 0
         \<and> \<not> hasAirbase (cities g' ! 1) \<and> c_airbase (cities g' ! 1) = None"
    by (intro exI [of _ g'] conjI)
  with h1 h2 h3 h4 show ?thesis by (intro conjI)
qed

text \<open>
  The claim as stated fails in two ways. When Red's raid captures Blue's \<open>city-0\<close>, whose
  airbase is still under construction, the airbase object survives the capture and the idle
  Blue fighter on the ground is not destroyed. When Red's bombers drive Red's own \<open>city-1\<close>
  to \<open>HP_MIN\<close>, the city is captured from Red by Red and remains in the old owner's list.
\<close>

theorem C3_counterexample:
  "c_owner (cities world_capture ! 0) = Some Blue
   \<and> c_hp (cities world_capture ! 0) - 250 \<le> HP_MIN
   \<and> getAircraftAtCity world_capture ''city-0'' = [0]
   \<and> c_owner (cities (settle (applyCityDamage 0 250 (Some Red) world_capture)) ! 0) = Some Red
   \<and> c_airbase (cities (settle (applyCityDamage 0 250 (Some Red) world_capture)) ! 0) \<noteq> None
   \<and> a_status (ac_store (settle (applyCityDamage 0 250 (Some Red) world_capture)) ! 0) = idle
   \<and> a_hp (ac_store (settle (applyCityDamage 0 250 (Some Red) world_capture)) ! 0) = 1
   \<and> c_owner (cities world_capture ! 1) = Some Red
   \<and> c_hp (cities world_capture ! 1) - 250 \<le> HP_MIN
   \<and> 1 \<in> set (tm_cities (teams (settle (applyCityDamage 1 250 (Some Red) world_capture)) Red))"
  by (simp add: world_capture_def GameState0_def ex_city_def ex_airbase_def ex_plane_def
      applyCityDamage_def captureCity_def clearTargetingForCity_def targets_def
      getAircraftAtCity_def HP_MIN_def HP_MAX_def Let_def team0_def)

section \<open>Production and airbase construction\<close>

text \<open>\<open>find\<close> on an increasing list returns the least element that satisfies the predicate.\<close>

lemma find_sorted_least:
  assumes "sorted_wrt (<) xs" and "find P xs = Some i" and "k \<in> set xs" and "k < (i::nat)"
  shows "\<not> P k"
  using assms
proof (induction xs)
  case Nil
  then show ?case by simp
next
  case (Cons x xs)
  show ?case
  proof (cases "P x")
    case True
    then have "i = x" using Cons.prems(2) by simp
    then show ?thesis using Cons.prems(1,3,4) by auto
  next
    case False
    then show ?thesis using Cons by auto
  qed
qed

lemma getTeamCities_sorted: "sorted_wrt (<) (getTeamCities g tn)"
  by (simp add: getTeamCities_def sorted_wrt_filter)

lemma getTeamCities_member:
  "i \<in> set (getTeamCities g tn) \<longleftrightarrow> i < length (cities g) \<and> c_owner (cities g ! i) = Some tn"
  by (auto simp: getTeamCities_def)

lemma build_step_first:
  assumes "find (\<lambda>i. incomplete_airbase (cities g ! i)) (getTeamCities g tn) = Some i"
  shows "\<exists>ab. c_airbase (cities g ! i) = Some ab \<and> \<not> complete ab
       \<and> i < length (cities g) \<and> c_owner (cities g ! i) = Some tn
       \<and> (\<forall>k\<in>set (getTeamCities g tn). k < i \<longrightarrow> \<not> incomplete_airbase (cities g ! k))
       \<and> c_airbase (cities (build_step deltaMs tn g) ! i) =
            Some (ab\<lparr>buildProgressM := buildProgressM ab +
                        min (productionPerMinute (teams g tn) * (deltaMs / 60000))
                            (AIRBASE_COST_M - buildProgressM ab),
                     complete := (AIRBASE_COST_M \<le> buildProgressM ab +
                        min (productionPerMinute (teams g tn) * (deltaMs / 60000))
                            (AIRBASE_COST_M - buildProgressM ab))\<rparr>)
       \<and> productionAccumulated (teams (build_step deltaMs tn g) tn) =
            productionAccumulated (teams g tn) -
              min (productionPerMinute (teams g tn) * (deltaMs / 60000))
                  (AIRBASE_COST_M - buildProgressM ab)
       \<and> (\<forall>j. j \<noteq> i \<longrightarrow> cities (build_step deltaMs tn g) ! j = cities g ! j)
       \<and> (\<forall>t. t \<noteq> tn \<longrightarrow> teams (build_step deltaMs tn g) t = teams g t)"
proof -
  have mem: "i \<in> set (getTeamCities g tn)" and inc: "incomplete_airbase (cities g ! i)"
    using assms by (auto simp: find_Some_iff)
  from inc obtain ab where ab: "c_airbase (cities g ! i) = Some ab" "\<not> complete ab"
    by (auto simp: incomplete_airbase_def split: option.splits)
  have i: "i < length (cities g)" "c_owner (cities g ! i) = Some tn"
    using mem by (simp_all add: getTeamCities_member)
  have first: "\<forall>k\<in>set (getTeamCities g tn). k < i \<longrightarrow> \<not> incomplete_airbase (cities g ! k)"
    using find_sorted_least [OF getTeamCities_sorted assms] by blast
  show ?thesis
    using ab i first assms by (intro exI [of _ ab]) (simp add: build_step_def Let_def)
qed


lemma world_building_produced_eq:
  "updateProduction TICK_MS (updateTime world_building) = world_building_produced"
  by (simp add: world_building_produced_def world_building_def GameState0_def team0_def ex_city_def
      ex_airbase_def updateTime_def updateProduction_def all_teams_def getTeamProduction_def
      getTeamCities_def getCityProduction_def processAllocationProduction_def alloc_step_def
      build_units.simps update_legacy_def getTemplate_def upd_team_def default_fighter_def
      default_bomber_def POP_SCALE_def TICK_MS_def Let_def fun_eq_iff)

lemma world_building_built_eq:
  "processAirbaseBuilds TICK_MS world_building_produced = world_building_ticked"
  by (simp add: world_building_ticked_def world_building_produced_def world_building_def
      GameState0_def team0_def ex_city_def ex_airbase_def processAirbaseBuilds_def build_step_def
      incomplete_airbase_def all_teams_def getTeamCities_def upd_team_def upd_city_def TICK_MS_def
      AIRBASE_COST_M_def Let_def fun_eq_iff)

lemma world_building_rest_of_tick:
  "updateHPRecovery TICK_MS world_building_ticked = world_building_ticked"
  "processDispatchSchedules flat_geo world_building_ticked = Inr world_building_ticked"
  "moveAircraft TICK_MS world_building_ticked = world_building_ticked"
  "resolveInAirEncounters flat_geo world_building_ticked = Inr world_building_ticked"
  "resolveArrivals world_building_ticked = Inr world_building_ticked"
  "fold_r (\<lambda>tn s. if isBot (teams s tn) then bot_update Inr s else Inr s) all_teams
      world_building_ticked = Inr world_building_ticked"
  by (simp_all add: world_building_ticked_def world_building_produced_def world_building_def
      GameState0_def team0_def ex_city_def ex_airbase_def updateHPRecovery_def
      processDispatchSchedules_def dispatch_step_def complete_airbase_def moveAircraft_def
      resolveInAirEncounters_def resolveArrivals_def all_teams_def bot_update_def upd_team_def
      upd_city_def HP_MAX_def Let_def)

lemma world_building_tick: "tick flat_geo Inr world_building = Inr world_building_ticked"
proof -
  have "\<not> isPaused world_building"
    by (simp add: world_building_def GameState0_def upd_team_def)
  then show ?thesis
    by (simp add: tick_def world_building_produced_eq world_building_built_eq
        world_building_rest_of_tick Let_def)
qed

text \<open>
  Claim C6 (while a team has an airbase under construction, its production of the tick goes
  to that build only and the allocation split across templates is not applied). In
  \<open>world_building\<close> Red owns one city, with an airbase under construction at 10 of 50, produces
  6 per minute and holds no capital. One \<open>tick\<close> completes and gives the production of the tick,
  1/100, to the templates by their allocation shares (the progress of the fighter template goes
  from 0 to 1/2 percent, of the bomber template from 0 to 1/6 percent) and the same 1/100 to the
  airbase, whose progress goes to 10 + 1/100; the capital, which no step credits, ends at
  - 1/100.
\<close>

theorem C6_tick_production_spent_on_templates_and_airbase:
  "find (\<lambda>i. incomplete_airbase (cities world_building ! i)) (getTeamCities world_building Red) = Some 0
   \<and> map (\<lambda>p. tp_progress (snd p)) (templateProduction (teams world_building Red)) = [0, 0]
   \<and> map_option buildProgressM (c_airbase (cities world_building ! 0)) = Some 10
   \<and> productionAccumulated (teams world_building Red) = 0
   \<and> tick flat_geo Inr world_building = Inr world_building_ticked
   \<and> productionPerMinute (teams world_building_ticked Red) * (TICK_MS / 60000) = 1 / 100
   \<and> map (\<lambda>p. tp_progress (snd p)) (templateProduction (teams world_building_ticked Red))
       = [1 / 2, 1 / 6]
   \<and> map_option buildProgressM (c_airbase (cities world_building_ticked ! 0)) = Some (10 + 1 / 100)
   \<and> productionAccumulated (teams world_building_ticked Red) = - (1 / 100)"
proof -
  have "find (\<lambda>i. incomplete_airbase (cities world_building ! i)) (getTeamCities world_building Red) = Some 0
   \<and> map (\<lambda>p. tp_progress (snd p)) (templateProduction (teams world_building Red)) = [0, 0]
   \<and> map_option buildProgressM (c_airbase (cities world_building ! 0)) = Some 10
   \<and> productionAccumulated (teams world_building Red) = 0"
    by (simp add: world_building_def GameState0_def ex_city_def ex_airbase_def incomplete_airbase_def
        getTeamCities_def team0_def upd_team_def)
  moreover have "productionPerMinute (teams world_building_ticked Red) * (TICK_MS / 60000) = 1 / 100
   \<and> map (\<lambda>p. tp_progress (snd p)) (templateProduction (teams world_building_ticked Red))
       = [1 / 2, 1 / 6]
   \<and> map_option buildProgressM (c_airbase (cities world_building_ticked ! 0)) = Some (10 + 1 / 100)
   \<and> productionAccumulated (teams world_building_ticked Red) = - (1 / 100)"
    by (simp add: world_building_ticked_def world_building_produced_def world_building_def
        GameState0_def ex_city_def ex_airbase_def team0_def upd_team_def upd_city_def TICK_MS_def)
  ultimately show ?thesis using world_building_tick by simp
qed


section \<open>Loading a saved game\<close>

lemma clock_of_cong:
  "rng g' = rng g \<Longrightarrow> tickCount g' = tickCount g \<Longrightarrow> elapsedSeconds g' = elapsedSeconds g \<Longrightarrow>
   speedMultiplier g' = speedMultiplier g \<Longrightarrow> clock_of g' = clock_of g"
  by (simp add: clock_of_def)

lemma clock_of_upd_team [simp]: "clock_of (upd_team tn f g) = clock_of g"
  by (simp add: clock_of_def)

lemma clock_of_upd_city [simp]: "clock_of (upd_city i f g) = clock_of g"
  by (simp add: clock_of_def)

lemma clock_of_fold_restore_team [simp]: "clock_of (fold restore_team kvs g) = clock_of g"
  by (induction kvs arbitrary: g) (simp_all add: restore_team_def split: option.splits)

lemma clock_of_fold_restore_city [simp]: "clock_of (fold restore_city cds g) = clock_of g"
  by (induction cds arbitrary: g) (simp_all add: restore_city_def split: option.splits)

lemma clock_of_rebuild_city_lists [simp]: "clock_of (rebuild_city_lists g) = clock_of g"
  by (simp add: rebuild_city_lists_def all_teams_def)

lemma clock_of_restore_delivery [simp]: "clock_of (settle (restore_delivery kv g)) = clock_of g"
  by (simp add: restore_delivery_def split: option.splits)

lemma clock_of_fold_restore_delivery [simp]:
  "clock_of (settle (fold_r restore_delivery kvs g)) = clock_of g"
  by (rule fold_r_inv [where P = "\<lambda>s. clock_of s = clock_of g"]) simp_all

lemma clock_of_fold_restore_template [simp]: "clock_of (fold restore_template tds g) = clock_of g"
  by (induction tds arbitrary: g) (simp_all add: restore_template_def clock_of_def)

lemma clock_of_fold_restore_aircraft [simp]: "clock_of (fold restore_aircraft ads g) = clock_of g"
proof (induction ads arbitrary: g)
  case Nil
  then show ?case by simp
next
  case (Cons a ads)
  have "clock_of (restore_aircraft a g) = clock_of g"
    by (simp add: restore_aircraft_def Let_def split: option.splits) (simp add: clock_of_def)
  then show ?case using Cons.IH by simp
qed

lemma restore_delivery_fails:
  "isl (restore_delivery kv g) \<longleftrightarrow>
     fst kv = None \<and> (case td_deliveryPointCityId (snd kv) of None \<Rightarrow> False | Some cid \<Rightarrow> cid \<noteq> [])"
  by (simp add: restore_delivery_def split: option.splits)

lemma fold_r_fails:
  assumes "\<And>x s. isl (f x s) = P x"
  shows "isl (fold_r f xs g) = list_ex P xs"
proof (induction xs arbitrary: g)
  case Nil
  then show ?case by simp
next
  case (Cons x xs)
  show ?case
  proof (cases "f x g")
    case (Inl e)
    then have "P x" using assms [of x g] by simp
    then show ?thesis using Inl by simp
  next
    case (Inr s)
    then have "\<not> P x" using assms [of x g] by simp
    then show ?thesis using Inr Cons.IH [of s] by simp
  qed
qed

lemma fold_r_restore_delivery_fails:
  "isl (fold_r restore_delivery kvs g) \<longleftrightarrow>
     list_ex (\<lambda>kv. fst kv = None \<and>
                (case td_deliveryPointCityId (snd kv) of None \<Rightarrow> False | Some cid \<Rightarrow> cid \<noteq> [])) kvs"
  by (rule fold_r_fails) (rule restore_delivery_fails)

lemma loadGame_Parsed:
  "(fst (loadGame (Parsed d) g) = False \<longleftrightarrow> faulty d)
   \<and> clock_of (snd (loadGame (Parsed d) g)) =
       (to_uint32 (sd_rngState d), sd_tickCount d, sd_elapsedSeconds d, sd_speedMultiplier d)"
proof -
  define g1 where "g1 = g\<lparr>rng := setState (sd_rngState d) (rng g), tickCount := sd_tickCount d,
                     elapsedSeconds := sd_elapsedSeconds d, speedMultiplier := sd_speedMultiplier d\<rparr>"
  define g2 where "g2 = fold restore_team (sd_teams d) g1"
  have c1: "clock_of g1 = (to_uint32 (sd_rngState d), sd_tickCount d, sd_elapsedSeconds d, sd_speedMultiplier d)"
    by (simp add: g1_def clock_of_def setState_def)
  have c2: "clock_of g2 = clock_of g1" by (simp add: g2_def)
  show ?thesis
  proof (cases "sd_cities d")
    case None
    then show ?thesis
      using c1 c2 by (simp add: loadGame_def Let_def g1_def [symmetric] g2_def [symmetric] faulty_def)
  next
    case (Some cds)
    define g3 where "g3 = rebuild_city_lists (fold restore_city cds g2)"
    have c3: "clock_of g3 = clock_of g1" using c2 by (simp add: g3_def)
    show ?thesis
    proof (cases "fold_r restore_delivery (sd_teams d) g3")
      case (Inl e)
      then have "clock_of e = clock_of g3"
        using clock_of_fold_restore_delivery [of "sd_teams d" g3] by simp
      moreover have "isl (fold_r restore_delivery (sd_teams d) g3)" using Inl by simp
      ultimately show ?thesis
        using Some Inl c1 c3 fold_r_restore_delivery_fails [of "sd_teams d" g3]
        by (simp add: loadGame_def Let_def g1_def [symmetric] g2_def [symmetric] g3_def [symmetric] faulty_def)
    next
      case (Inr g4)
      then have c4: "clock_of g4 = clock_of g3"
        using clock_of_fold_restore_delivery [of "sd_teams d" g3] by simp
      have nf: "\<not> list_ex (\<lambda>kv. fst kv = None \<and>
                (case td_deliveryPointCityId (snd kv) of None \<Rightarrow> False | Some cid \<Rightarrow> cid \<noteq> [])) (sd_teams d)"
        using Inr fold_r_restore_delivery_fails [of "sd_teams d" g3] by simp
      have c6: "clock_of (fold (\<lambda>tn s. upd_team tn (\<lambda>t. t\<lparr>tm_aircraft := []\<rparr>) s) all_teams
                                        ((fold restore_template tds g4)\<lparr>aircraft := []\<rparr>)) = clock_of g4" for tds
      proof -
        have "clock_of ((fold restore_template tds g4)\<lparr>aircraft := []\<rparr>) = clock_of g4"
          using clock_of_fold_restore_template [of tds g4] by (simp add: clock_of_def)
        then show ?thesis by (simp add: all_teams_def)
      qed
      have c7: "clock_of ((fold restore_aircraft ads s)\<lparr>activeRaids := []\<rparr>) = clock_of s" for ads s
        using clock_of_fold_restore_aircraft [of ads s] by (simp add: clock_of_def)
      show ?thesis
        using Some Inr c1 c3 c4 nf c6 c7
        by (simp add: loadGame_def Let_def g1_def [symmetric] g2_def [symmetric] g3_def [symmetric] faulty_def
                 split: option.splits)
    qed
  qed
qed


text \<open>
  Claim C7, as amended. A load with nothing stored, or with stored text that does not parse,
  returns \<open>false\<close> and leaves the live state exactly as it was. A load of a parsed payload
  returns \<open>false\<close> exactly when the payload is faulty (an array that the load iterates is
  missing, or a team key that is not a team carries a delivery point); such a load is not
  rolled back: the generator state, tick count, elapsed seconds and speed multiplier of the
  payload stay written in the live state.
\<close>

theorem C7_failed_load_keeps_partial_writes:
  "loadGame NoSave g = (False, g) \<and> loadGame Unparseable g = (False, g)
   \<and> (faulty d \<longrightarrow>
         fst (loadGame (Parsed d) g) = False
       \<and> clock_of (snd (loadGame (Parsed d) g)) =
           (to_uint32 (sd_rngState d), sd_tickCount d, sd_elapsedSeconds d, sd_speedMultiplier d))
   \<and> (\<not> faulty d \<longrightarrow> fst (loadGame (Parsed d) g) = True)"
proof -
  have "loadGame NoSave g = (False, g)" and "loadGame Unparseable g = (False, g)"
    by (simp_all add: loadGame_def)
  then show ?thesis using loadGame_Parsed [of d g] by auto
qed

theorem C7_witness:
  "faulty payload_without_cities
   \<and> fst (loadGame (Parsed payload_without_cities) world_no_bombers) = False
   \<and> clock_of (snd (loadGame (Parsed payload_without_cities) world_no_bombers)) = (7, 99, 99 / 10, 2)"
  using C7_failed_load_keeps_partial_writes [of world_no_bombers payload_without_cities]
  by (simp add: faulty_def payload_without_cities_def to_uint32_def)

text \<open>
  The claim as stated fails: the load of a payload without \<open>cities\<close> reports failure, and
  the live state has changed (tick count 99 instead of 200, Red's capital 12 instead of 0).
\<close>

theorem C7_counterexample:
  "fst (loadGame (Parsed payload_without_cities) world_no_bombers) = False
   \<and> snd (loadGame (Parsed payload_without_cities) world_no_bombers) \<noteq> world_no_bombers
   \<and> tickCount world_no_bombers = 200
   \<and> tickCount (snd (loadGame (Parsed payload_without_cities) world_no_bombers)) = 99
   \<and> productionAccumulated (teams world_no_bombers Red) = 0
   \<and> productionAccumulated (teams (snd (loadGame (Parsed payload_without_cities) world_no_bombers)) Red) = 12"
proof -
  have t: "tickCount world_no_bombers = 200"
          "productionAccumulated (teams world_no_bombers Red) = 0"
    by (simp_all add: world_no_bombers_def GameState0_def team0_def)
  have l: "fst (loadGame (Parsed payload_without_cities) world_no_bombers) = False"
          "tickCount (snd (loadGame (Parsed payload_without_cities) world_no_bombers)) = 99"
          "productionAccumulated (teams (snd (loadGame (Parsed payload_without_cities) world_no_bombers)) Red) = 12"
    by (simp_all add: loadGame_def payload_without_cities_def restore_team_def Let_def)
  have "snd (loadGame (Parsed payload_without_cities) world_no_bombers) \<noteq> world_no_bombers"
    using t(1) l(2) by auto
  then show ?thesis using t l by simp
qed

section \<open>The life of a raid\<close>













section \<open>Aircraft on raids\<close>

text \<open>
  \<open>saveGame\<close> writes the bomber and escort ids of every active raid, and \<open>loadGame\<close> restores every
  aircraft with the status it was saved with, but it ends with \<open>GameState.activeRaids = []\<close> and
  never reads the saved raids.
\<close>

lemma restore_aircraft_store:
  "ac_store (restore_aircraft ad s) = ac_store s @ [aircraft_of ad]"
  "aircraft (restore_aircraft ad s) = aircraft s @ [length (ac_store s)]"
  "activeRaids (restore_aircraft ad s) = activeRaids s"
  by (simp_all add: restore_aircraft_def Let_def split: option.splits)

lemma fold_restore_aircraft_store:
  "ac_store (fold restore_aircraft ads s) = ac_store s @ map aircraft_of ads
   \<and> aircraft (fold restore_aircraft ads s) =
       aircraft s @ map (\<lambda>i. length (ac_store s) + i) [0..<length ads]"
proof (induction ads arbitrary: s)
  case Nil
  then show ?case by simp
next
  case (Cons ad ads)
  have "map (\<lambda>i. length (ac_store s) + i) [0..<Suc (length ads)]
          = length (ac_store s) # map (\<lambda>i. Suc (length (ac_store s)) + i) [0..<length ads]"
    by (simp add: upt_conv_Cons map_Suc_upt [symmetric] del: upt_Suc)
  then show ?case
    using Cons.IH [of "restore_aircraft ad s"] by (simp add: restore_aircraft_store)
qed

lemma store_kept [simp]:
  "ac_store (fold restore_team kvs g) = ac_store g"
  "ac_store (fold restore_city cds g) = ac_store g"
  "ac_store (rebuild_city_lists g) = ac_store g"
  "ac_store (fold restore_template tds g) = ac_store g"
  "ac_store (fold (\<lambda>tn s. upd_team tn (\<lambda>t. t\<lparr>tm_aircraft := []\<rparr>) s) ts g) = ac_store g"
  "aircraft (fold (\<lambda>tn s. upd_team tn (\<lambda>t. t\<lparr>tm_aircraft := []\<rparr>) s) ts g) = aircraft g"
proof -
  show "ac_store (fold restore_team kvs g) = ac_store g"
    by (induction kvs arbitrary: g) (simp_all add: restore_team_def split: option.splits)
  show "ac_store (fold restore_city cds g) = ac_store g"
    by (induction cds arbitrary: g) (simp_all add: restore_city_def split: option.splits)
  show "ac_store (rebuild_city_lists g) = ac_store g"
    by (simp add: rebuild_city_lists_def all_teams_def)
  show "ac_store (fold restore_template tds g) = ac_store g"
    by (induction tds arbitrary: g) (simp_all add: restore_template_def)
  show "ac_store (fold (\<lambda>tn s. upd_team tn (\<lambda>t. t\<lparr>tm_aircraft := []\<rparr>) s) ts g) = ac_store g"
    by (induction ts arbitrary: g) simp_all
  show "aircraft (fold (\<lambda>tn s. upd_team tn (\<lambda>t. t\<lparr>tm_aircraft := []\<rparr>) s) ts g) = aircraft g"
    by (induction ts arbitrary: g) simp_all
qed

lemma store_kept_delivery:
  fixes g :: game
  shows "ac_store (settle (fold_r restore_delivery kvs g)) = ac_store g"
proof (rule fold_r_inv [where P = "\<lambda>s. ac_store s = ac_store g"])
  show "ac_store g = ac_store g" by simp
next
  fix x and s :: game assume "ac_store s = ac_store g"
  then show "ac_store (settle (restore_delivery x s)) = ac_store g"
    by (simp add: restore_delivery_def split: option.splits)
qed

text \<open>A load that does not hit a fault ends with the loaded aircraft as new objects and no raid.\<close>

lemma loadGame_success:
  assumes "\<not> faulty d"
  shows "\<exists>ads. sd_aircraft d = Some ads
       \<and> activeRaids (snd (loadGame (Parsed d) g)) = []
       \<and> ac_store (snd (loadGame (Parsed d) g)) = ac_store g @ map aircraft_of ads
       \<and> aircraft (snd (loadGame (Parsed d) g)) = map (\<lambda>i. length (ac_store g) + i) [0..<length ads]"
proof -
  from assms obtain cds tds ads where
    p: "sd_cities d = Some cds" "sd_customTemplates d = Some tds" "sd_aircraft d = Some ads"
    by (auto simp: faulty_def)
  define g3 where "g3 = rebuild_city_lists (fold restore_city cds (fold restore_team (sd_teams d)
     (g\<lparr>rng := setState (sd_rngState d) (rng g), tickCount := sd_tickCount d,
        elapsedSeconds := sd_elapsedSeconds d, speedMultiplier := sd_speedMultiplier d\<rparr>)))"
  have s3: "ac_store g3 = ac_store g" by (simp add: g3_def)
  have "\<not> isl (fold_r restore_delivery (sd_teams d) g3)"
    using assms fold_r_restore_delivery_fails [of "sd_teams d" g3] by (simp add: faulty_def)
  then obtain g4 where g4: "fold_r restore_delivery (sd_teams d) g3 = Inr g4"
    by (cases "fold_r restore_delivery (sd_teams d) g3") simp_all
  have s4: "ac_store g4 = ac_store g"
    using store_kept_delivery [of "sd_teams d" g3] g4 s3 by simp
  define g6 where "g6 = fold (\<lambda>tn s. upd_team tn (\<lambda>t. t\<lparr>tm_aircraft := []\<rparr>) s) all_teams
                                        ((fold restore_template tds g4)\<lparr>aircraft := []\<rparr>)"
  have s6: "ac_store g6 = ac_store g" "aircraft g6 = []"
    using s4 by (simp_all add: g6_def)
  have res: "snd (loadGame (Parsed d) g) = (fold restore_aircraft ads g6)\<lparr>activeRaids := []\<rparr>"
    using p g4 by (simp add: loadGame_def Let_def g3_def [symmetric] g6_def [symmetric])
  show ?thesis
    using p(3) fold_restore_aircraft_store [of ads g6] s6 by (simp add: res)
qed

lemma saveGame_not_faulty: "\<not> faulty (saveGame g)"
  by (simp add: faulty_def saveGame_def all_teams_def)

text \<open>
  Saving and loading a state in which some aircraft is on a raid gives a state in which the
  loaded aircraft is still \<open>onRaid\<close> while no raid is active.
\<close>

lemma reload_breaks_conservation:
  assumes "list_ex (\<lambda>a. a_status (ac_store g ! a) = onRaid) (aircraft g)"
  shows "fst (loadGame (Parsed (saveGame g)) g) = True
       \<and> activeRaids (snd (loadGame (Parsed (saveGame g)) g)) = []
       \<and> \<not> conservation (snd (loadGame (Parsed (saveGame g)) g))"
proof -
  let ?g' = "snd (loadGame (Parsed (saveGame g)) g)"
  let ?n = "length (ac_store g)"
  define ads where "ads = map (\<lambda>a. \<lparr>ad_id = a_id (ac_store g ! a), ad_type = a_type (ac_store g ! a),
                                       ad_templateId = templateId (ac_store g ! a),
                                       ad_locationCityId = locationCityId (ac_store g ! a),
                                       ad_status = a_status (ac_store g ! a),
                                       ad_hp = a_hp (ac_store g ! a),
                                       ad_owner = a_owner (ac_store g ! a)\<rparr>) (aircraft g)"
  have sa: "sd_aircraft (saveGame g) = Some ads" by (simp add: saveGame_def ads_def)
  from loadGame_success [OF saveGame_not_faulty, of g g] sa
  have r: "activeRaids ?g' = []" "ac_store ?g' = ac_store g @ map aircraft_of ads"
          "aircraft ?g' = map (\<lambda>i. ?n + i) [0..<length ads]"
    by auto
  have t: "fst (loadGame (Parsed (saveGame g)) g) = True"
    using loadGame_Parsed [of "saveGame g" g] saveGame_not_faulty [of g] by auto
  from assms obtain i where i: "i < length (aircraft g)" "a_status (ac_store g ! (aircraft g ! i)) = onRaid"
    by (auto simp: list_ex_iff in_set_conv_nth)
  have li: "i < length ads" using i(1) by (simp add: ads_def)
  have st: "a_status (ac_store ?g' ! (?n + i)) = onRaid"
    using i li by (simp add: r(2) nth_append ads_def aircraft_of_def)
  have mem: "?n + i \<in> set (aircraft ?g')"
    using li by (simp add: r(3))
  have "raids_holding ?g' (?n + i) = 0" by (simp add: raids_holding_def r(1))
  then have "\<not> conservation ?g'"
    using st mem by (auto simp: conservation_def list_all_iff)
  then show ?thesis using t r(1) by simp
qed


lemma world_in_flight_eq:
  "world_in_flight =
     world_ready\<lparr>raidIdCounter := 1,
        ac_store := [ex_plane ''plane-0'' bomber ''tmpl-1'' ''city-0'' onRaid Red,
                     ex_plane ''plane-1'' fighter ''tmpl-0'' ''city-0'' idle Red,
                     ex_plane ''plane-2'' fighter ''tmpl-2'' ''city-0'' onRaid Red],
        activeRaids := [\<lparr>r_id = ''raid-0'', fromCityId = ''city-0'', toCityId = ''city-1'',
                         r_team = Some Red, bombers = [0], escorts = [2], r_distance = 10000,
                         progress = 0, speed = 500, durationMinutes = 20, startTime = 20,
                         r_status = enroute, hasEngagedDefenders = False\<rparr>]\<rparr>"
  by (simp add: world_in_flight_def world_ready_def GameState0_def ex_city_def ex_airbase_def ex_plane_def
      dispatchRaid_def getCity_def getBombersAtCity_def getFightersAtCity_def getAircraftAtCity_def
      is_idle_def range_of_def getTemplate_def default_fighter_def default_bomber_def
      slice0_def sort_key_def set_status_def upd_aircraft_def upd_team_def flat_geo_def dec.simps Let_def)



lemma in_flight_aircraft:
  "aircraft world_in_flight = [0, 1, 2]"
  "map (\<lambda>a. a_status (ac_store world_in_flight ! a)) [0, 1, 2] = [onRaid, idle, onRaid]"
  "length (ac_store world_in_flight) = 3"
  unfolding world_in_flight_eq
  by (simp_all add: world_ready_def GameState0_def ex_plane_def)

text \<open>
  Claim C5 (every aircraft with status \<open>onRaid\<close> is a member of exactly one active raid's bomber or
  escort list, also after \<open>loadGame\<close> restores a save that contained in-flight raids).
  In \<open>world_in_flight\<close>, the state right after \<open>dispatchRaid\<close> sent bomber \<open>plane-0\<close> and escort
  \<open>plane-2\<close> on \<open>raid-0\<close>, the property holds. Saving that state and loading the save succeeds and
  gives a state with no active raid in which the loaded bomber and escort still have status
  \<open>onRaid\<close>: they are members of no raid, and the property does not hold.
\<close>

theorem C5_reload_leaves_aircraft_on_no_raid:
  "conservation world_in_flight
   \<and> fst (loadGame (Parsed (saveGame world_in_flight)) world_in_flight) = True
   \<and> activeRaids (snd (loadGame (Parsed (saveGame world_in_flight)) world_in_flight)) = []
   \<and> aircraft (snd (loadGame (Parsed (saveGame world_in_flight)) world_in_flight)) = [3, 4, 5]
   \<and> map (\<lambda>a. a_status (ac_store (snd (loadGame (Parsed (saveGame world_in_flight)) world_in_flight)) ! a))
         [3, 4, 5] = [onRaid, idle, onRaid]
   \<and> \<not> conservation (snd (loadGame (Parsed (saveGame world_in_flight)) world_in_flight))"
proof -
  let ?g' = "snd (loadGame (Parsed (saveGame world_in_flight)) world_in_flight)"
  have c: "conservation world_in_flight"
    unfolding world_in_flight_eq
    by (simp add: conservation_def raids_holding_def world_ready_def GameState0_def ex_plane_def)
  have "list_ex (\<lambda>a. a_status (ac_store world_in_flight ! a) = onRaid) (aircraft world_in_flight)"
    using in_flight_aircraft by simp
  from reload_breaks_conservation [OF this]
  have b: "fst (loadGame (Parsed (saveGame world_in_flight)) world_in_flight) = True"
          "activeRaids ?g' = []" "\<not> conservation ?g'"
    by simp_all
  obtain ads where ads: "sd_aircraft (saveGame world_in_flight) = Some ads"
      "ac_store ?g' = ac_store world_in_flight @ map aircraft_of ads"
      "aircraft ?g' = map (\<lambda>i. length (ac_store world_in_flight) + i) [0..<length ads]"
    using loadGame_success [OF saveGame_not_faulty, of world_in_flight world_in_flight] by auto
  have sts: "map ad_status ads = [onRaid, idle, onRaid]"
    using ads(1) in_flight_aircraft by (simp add: saveGame_def) auto
  then have len: "length ads = 3"
    using length_map [of ad_status ads] by simp
  have a: "aircraft ?g' = [3, 4, 5]"
    by (simp add: ads(3) len in_flight_aircraft(3) upt_conv_Cons)
  have "map (\<lambda>a. a_status (ac_store ?g' ! a)) [3, 4, 5] = map ad_status ads"
    using len by (simp add: ads(2) nth_append in_flight_aircraft(3) aircraft_of_def list_eq_iff_nth_eq
                            less_Suc_eq numeral_3_eq_3 nth_Cons')
  then show ?thesis using a b c sts by simp
qed

section \<open>What a tick does to the list of raids\<close>

lemma raids_updateTime [simp]: "activeRaids (updateTime g) = activeRaids g"
  by (simp add: updateTime_def)

lemma raids_createAircraft [simp]: "activeRaids (snd (createAircraft tid cid tn g)) = activeRaids g"
  by (simp add: createAircraft_def Let_def split: option.splits)

lemma raids_build_units [simp]: "activeRaids (snd (build_units tid tn p g)) = activeRaids g"
proof (induction tid tn p g rule: build_units.induct)
  case (1 tid tn p g)
  show ?case
  proof (cases "100 \<le> p")
    case True
    then show ?thesis
      using "1.IH" by (subst build_units.simps) (simp split: option.splits)
  next
    case False
    then show ?thesis by (subst build_units.simps) simp
  qed
qed

lemma raids_alloc_step [simp]: "activeRaids (alloc_step tn ptt ta tid g) = activeRaids g"
  by (simp add: alloc_step_def Let_def split_beta split: option.splits)

lemma raids_update_legacy [simp]: "activeRaids (update_legacy tn g) = activeRaids g"
  by (simp add: update_legacy_def Let_def split: option.splits)

lemma raids_fold_alloc_step [simp]: "activeRaids (fold (alloc_step tn ptt ta) ks g) = activeRaids g"
  by (induction ks arbitrary: g) simp_all

lemma raids_processAllocationProduction [simp]:
  "activeRaids (processAllocationProduction tn ptt g) = activeRaids g"
  by (simp add: processAllocationProduction_def Let_def)

lemma raids_updateProduction [simp]: "activeRaids (updateProduction d g) = activeRaids g"
  unfolding updateProduction_def
  by (rule fold_inv [where P = "\<lambda>s. activeRaids s = activeRaids g"]) (simp_all add: Let_def)

lemma raids_build_step [simp]: "activeRaids (build_step d tn g) = activeRaids g"
  by (simp add: build_step_def Let_def split: option.splits)

lemma raids_processAirbaseBuilds [simp]: "activeRaids (processAirbaseBuilds d g) = activeRaids g"
  unfolding processAirbaseBuilds_def
  by (rule fold_inv [where P = "\<lambda>s. activeRaids s = activeRaids g"]) simp_all

lemma raids_updateHPRecovery [simp]: "activeRaids (updateHPRecovery d g) = activeRaids g"
  by (simp add: updateHPRecovery_def Let_def)

lemma raids_roll_losses [simp]: "activeRaids (roll_losses n d as g) = activeRaids g"
  by (induction as arbitrary: g) (simp_all add: split_beta Let_def)

lemma raids_resolveFighterVsFighter [simp]:
  "activeRaids (resolveFighterVsFighter as ds g) = activeRaids g"
  by (simp add: resolveFighterVsFighter_def Let_def)

lemma raids_intercept_rolls [simp]: "activeRaids (intercept_rolls dof bs g) = activeRaids g"
  by (induction bs arbitrary: g) (simp_all add: split_beta Let_def split: option.splits)

lemma raids_resolveDefenderEngagement [simp]:
  "activeRaids (settle (resolveDefenderEngagement mu r g)) = activeRaids g"
  by (simp add: resolveDefenderEngagement_def Let_def split: option.splits)

lemma raids_bomber_rolls [simp]: "activeRaids (snd (bomber_rolls cd bs tot g)) = activeRaids g"
  by (induction bs arbitrary: tot g) (simp_all add: split_beta Let_def split: option.splits)

lemma raids_resolveBomberAttack [simp]:
  "activeRaids (snd (resolveBomberAttack bs cd g)) = activeRaids g"
  by (simp add: resolveBomberAttack_def)

lemma raids_join_fold [simp]: "activeRaids (fold (join_step e) ms g) = activeRaids g"
  by (induction ms arbitrary: g) (simp_all add: join_step_def)

lemma raids_neutral [simp]: "activeRaids (neutralCountryJoinsEnemy ci att g) = activeRaids g"
  by (simp add: neutralCountryJoinsEnemy_def Let_def split: option.splits)

lemma raids_captureCity [simp]: "activeRaids (settle (captureCity ci newOwner g)) = activeRaids g"
  by (simp add: captureCity_def Let_def split: option.splits)

lemma raids_applyCityDamage [simp]:
  "activeRaids (settle (applyCityDamage ci d att g)) = activeRaids g"
  by (simp add: applyCityDamage_def Let_def)

lemma raids_resolveRaidAttack [simp]: "activeRaids (settle (resolveRaidAttack r g)) = activeRaids g"
  by (simp add: resolveRaidAttack_def Let_def split_beta split: option.splits)

lemma raids_dispatchRaid:
  "\<exists>news. activeRaids (settle (dispatchRaid mu ci g)) = activeRaids g @ news
         \<and> list_all (\<lambda>r. r_status r = enroute) news"
proof (cases "activeRaids (settle (dispatchRaid mu ci g)) = activeRaids g")
  case True
  then show ?thesis by (intro exI [of _ "[]"]) simp
next
  case False
  then show ?thesis
    by (auto simp: dispatchRaid_def Let_def split: option.splits if_splits)
qed

lemma raids_dispatch_step:
  "\<exists>news. activeRaids (settle (dispatch_step mu ci g)) = activeRaids g @ news
         \<and> list_all (\<lambda>r. r_status r = enroute) news"
proof (cases "dispatchRaid mu ci g")
  case (Inl e)
  then show ?thesis
    using raids_dispatchRaid [of mu ci g]
    by (cases "activeRaids (settle (dispatch_step mu ci g)) = activeRaids g")
       (auto simp: dispatch_step_def Let_def intro: exI [of _ "[]"] split: if_splits)
next
  case (Inr s)
  then show ?thesis
    using raids_dispatchRaid [of mu ci g]
    by (cases "activeRaids (settle (dispatch_step mu ci g)) = activeRaids g")
       (auto simp: dispatch_step_def Let_def intro: exI [of _ "[]"] split: if_splits)
qed

lemma raids_processDispatchSchedules:
  "\<exists>news. activeRaids (settle (processDispatchSchedules mu g)) = activeRaids g @ news
         \<and> list_all (\<lambda>r. r_status r = enroute) news"
  unfolding processDispatchSchedules_def
proof (rule fold_r_inv [where P = "\<lambda>s. \<exists>news. activeRaids s = activeRaids g @ news
         \<and> list_all (\<lambda>r. r_status r = enroute) news"])
  show "\<exists>news. activeRaids g = activeRaids g @ news \<and> list_all (\<lambda>r. r_status r = enroute) news"
    by (intro exI [of _ "[]"]) simp
next
  fix x and s :: game
  assume "\<exists>news. activeRaids s = activeRaids g @ news \<and> list_all (\<lambda>r. r_status r = enroute) news"
  then obtain n1 where n1: "activeRaids s = activeRaids g @ n1" "list_all (\<lambda>r. r_status r = enroute) n1"
    by blast
  from raids_dispatch_step [of mu x s] obtain n2 where
    n2: "activeRaids (settle (dispatch_step mu x s)) = activeRaids s @ n2"
        "list_all (\<lambda>r. r_status r = enroute) n2"
    by blast
  show "\<exists>news. activeRaids (settle (dispatch_step mu x s)) = activeRaids g @ news
         \<and> list_all (\<lambda>r. r_status r = enroute) news"
    using n1 n2 by (intro exI [of _ "n1 @ n2"]) simp
qed

lemma raids_moveAircraft [simp]: "activeRaids (moveAircraft d g) = map (advance d) (activeRaids g)"
  by (simp add: moveAircraft_def)

lemma flight_fields [simp]:
  "progress (flight r) = progress r" "r_status (flight r) = r_status r"
  "flight (r\<lparr>hasEngagedDefenders := b\<rparr>) = flight r"
  "flight (flight r) = flight r"
  by (simp_all add: flight_def)

lemma nth_upd: "xs[k := y] ! i = (if i = k \<and> k < length xs then y else xs ! i)"
  by (cases "k < length xs") (auto simp: nth_list_update list_update_beyond)

lemma map_flight_update:
  "flight y = flight (xs ! k) \<Longrightarrow> map flight (xs[k := y]) = map flight xs"
  by (auto simp: list_eq_iff_nth_eq nth_upd)

lemma raids_encounter_step:
  "map flight (activeRaids (settle (encounter_step mu k g))) = map flight (activeRaids g)"
proof (cases "resolveDefenderEngagement mu (activeRaids g ! k) g")
  case (Inl e)
  then show ?thesis
    using raids_resolveDefenderEngagement [of mu "activeRaids g ! k" g]
    by (simp add: encounter_step_def Let_def)
next
  case (Inr s)
  then have "activeRaids s = activeRaids g"
    using raids_resolveDefenderEngagement [of mu "activeRaids g ! k" g] by simp
  then show ?thesis
    using Inr by (simp add: encounter_step_def Let_def map_flight_update)
qed

lemma raids_resolveInAirEncounters:
  "map flight (activeRaids (settle (resolveInAirEncounters mu g))) = map flight (activeRaids g)"
  unfolding resolveInAirEncounters_def
  by (rule fold_r_inv [where P = "\<lambda>s. map flight (activeRaids s) = map flight (activeRaids g)"])
     (simp_all add: raids_encounter_step)

text \<open>The first loop of \<open>resolveArrivals\<close> marks the arrived raids and collects their positions.\<close>

lemma arrivals_loop_raids:
  assumes "arrivals_loop ks cr s = Inr (cr', s')" and "distinct ks"
    and "\<forall>k\<in>set ks. k < length (activeRaids s) \<and> r_status (activeRaids s ! k) = enroute"
  shows "cr' = cr @ filter (\<lambda>k. 1 \<le> progress (activeRaids s ! k)) ks
       \<and> length (activeRaids s') = length (activeRaids s)
       \<and> (\<forall>i<length (activeRaids s). activeRaids s' ! i =
             (if i \<in> set ks \<and> 1 \<le> progress (activeRaids s ! i)
              then (activeRaids s ! i)\<lparr>r_status := attacking\<rparr> else activeRaids s ! i))"
  using assms
proof (induction ks arbitrary: cr s)
  case Nil
  then show ?case by simp
next
  case (Cons k ks)
  let ?r = "activeRaids s ! k"
  have k: "k < length (activeRaids s)" "r_status ?r = enroute" "k \<notin> set ks" "distinct ks"
    using Cons.prems(2,3) by simp_all
  show ?case
  proof (cases "1 \<le> progress ?r")
    case False
    then have l: "arrivals_loop ks cr s = Inr (cr', s')"
      using Cons.prems(1) k(2) by (simp add: Let_def)
    have "\<forall>j\<in>set ks. j < length (activeRaids s) \<and> r_status (activeRaids s ! j) = enroute"
      using Cons.prems(3) by simp
    from Cons.IH [OF l k(4) this] show ?thesis using False by auto
  next
    case True
    let ?g1 = "upd_raid k (\<lambda>x. x\<lparr>r_status := attacking\<rparr>) s"
    obtain g2 where g2: "resolveRaidAttack (activeRaids ?g1 ! k) ?g1 = Inr g2"
      and l: "arrivals_loop ks (cr @ [k]) g2 = Inr (cr', s')"
      using Cons.prems(1) k(2) True
      by (cases "resolveRaidAttack (activeRaids ?g1 ! k) ?g1") (simp_all add: Let_def)
    have r2: "activeRaids g2 = (activeRaids s)[k := ?r\<lparr>r_status := attacking\<rparr>]"
    proof -
      have "activeRaids (settle (resolveRaidAttack (activeRaids ?g1 ! k) ?g1)) = activeRaids ?g1"
        by (rule raids_resolveRaidAttack)
      then show ?thesis unfolding g2 by simp
    qed
    have p: "\<forall>j\<in>set ks. j < length (activeRaids g2) \<and> r_status (activeRaids g2 ! j) = enroute"
      using Cons.prems(3) k(3) by (auto simp: r2 nth_upd)
    from Cons.IH [OF l k(4) p]
    have ih: "cr' = (cr @ [k]) @ filter (\<lambda>j. 1 \<le> progress (activeRaids g2 ! j)) ks"
      "length (activeRaids s') = length (activeRaids g2)"
      "\<forall>i<length (activeRaids g2). activeRaids s' ! i =
             (if i \<in> set ks \<and> 1 \<le> progress (activeRaids g2 ! i)
              then (activeRaids g2 ! i)\<lparr>r_status := attacking\<rparr> else activeRaids g2 ! i)"
      by simp_all
    have f: "filter (\<lambda>j. 1 \<le> progress (activeRaids g2 ! j)) ks
           = filter (\<lambda>j. 1 \<le> progress (activeRaids s ! j)) ks"
      using k(3) by (intro filter_cong) (auto simp: r2 nth_upd)
    have 1: "cr' = cr @ filter (\<lambda>j. 1 \<le> progress (activeRaids s ! j)) (k # ks)"
      using ih(1) f True by simp
    have 2: "length (activeRaids s') = length (activeRaids s)" using ih(2) by (simp add: r2)
    have 3: "\<forall>i<length (activeRaids s). activeRaids s' ! i =
             (if i \<in> set (k # ks) \<and> 1 \<le> progress (activeRaids s ! i)
              then (activeRaids s ! i)\<lparr>r_status := attacking\<rparr> else activeRaids s ! i)"
    proof (intro allI impI)
      fix i assume i: "i < length (activeRaids s)"
      then have "i < length (activeRaids g2)" by (simp add: r2)
      then have e: "activeRaids s' ! i =
             (if i \<in> set ks \<and> 1 \<le> progress (activeRaids g2 ! i)
              then (activeRaids g2 ! i)\<lparr>r_status := attacking\<rparr> else activeRaids g2 ! i)"
        using ih(3) by blast
      show "activeRaids s' ! i =
             (if i \<in> set (k # ks) \<and> 1 \<le> progress (activeRaids s ! i)
              then (activeRaids s ! i)\<lparr>r_status := attacking\<rparr> else activeRaids s ! i)"
      proof (cases "i = k")
        case True
        then show ?thesis using e k(1,3) \<open>1 \<le> progress ?r\<close> by (simp add: r2)
      next
        case False
        then show ?thesis using e i by (simp add: r2)
      qed
    qed
    show ?thesis using 1 2 3 by blast
  qed
qed

lemma raids_return_home [simp]:
  "activeRaids (return_home k g) = (activeRaids g)[k := (activeRaids g ! k)\<lparr>r_status := completed\<rparr>]"
proof -
  have a: "activeRaids (fold (\<lambda>a s. if alive s a then upd_aircraft a (f s) s else s) as s0) = activeRaids s0"
    for f :: "game \<Rightarrow> aircraft \<Rightarrow> aircraft" and as s0
    by (induction as arbitrary: s0) simp_all
  show ?thesis
    by (simp add: return_home_def Let_def a split: option.splits)
qed

lemma raids_fold_return_home:
  "length (activeRaids (fold return_home ks g)) = length (activeRaids g)
   \<and> (\<forall>i<length (activeRaids g). activeRaids (fold return_home ks g) ! i =
        (if i \<in> set ks then (activeRaids g ! i)\<lparr>r_status := completed\<rparr> else activeRaids g ! i))"
proof (induction ks arbitrary: g)
  case Nil
  then show ?case by simp
next
  case (Cons k ks)
  show ?case
    using Cons.IH [of "return_home k g"] by (auto simp: nth_upd)
qed

text \<open>
  When all raids are \<open>enroute\<close>, a completed \<open>resolveArrivals\<close> removes exactly the raids whose
  progress has reached 1.
\<close>

lemma raids_resolveArrivals:
  assumes "resolveArrivals g = Inr g'" and "list_all (\<lambda>r. r_status r = enroute) (activeRaids g)"
  shows "activeRaids g' = filter (\<lambda>r. progress r < 1) (activeRaids g)"
proof -
  let ?n = "length (activeRaids g)"
  obtain cr g1 where l: "arrivals_loop [0..<?n] [] g = Inr (cr, g1)"
    using assms(1) by (auto simp: resolveArrivals_def split: sum.splits)
  have en: "\<forall>k\<in>set [0..<?n]. k < ?n \<and> r_status (activeRaids g ! k) = enroute"
    using assms(2) by (simp add: list_all_length)
  from arrivals_loop_raids [OF l _ en]
  have cr: "cr = filter (\<lambda>k. 1 \<le> progress (activeRaids g ! k)) [0..<?n]"
    and len1: "length (activeRaids g1) = ?n"
    and nth1: "\<forall>i<?n. activeRaids g1 ! i =
             (if 1 \<le> progress (activeRaids g ! i)
              then (activeRaids g ! i)\<lparr>r_status := attacking\<rparr> else activeRaids g ! i)"
    by simp_all
  let ?g2 = "fold return_home cr g1"
  have g': "g' = ?g2\<lparr>activeRaids := filter (\<lambda>r. r_status r \<noteq> completed) (activeRaids ?g2)\<rparr>"
    using assms(1) l by (simp add: resolveArrivals_def Let_def)
  define h where "h = (\<lambda>r :: raid. if 1 \<le> progress r then r\<lparr>r_status := completed\<rparr> else r)"
  have "activeRaids ?g2 = map h (activeRaids g)"
  proof (rule nth_equalityI)
    show "length (activeRaids ?g2) = length (map h (activeRaids g))"
      using raids_fold_return_home [of cr g1] len1 by simp
  next
    fix i assume "i < length (activeRaids ?g2)"
    then have i: "i < ?n" using raids_fold_return_home [of cr g1] len1 by simp
    have "activeRaids ?g2 ! i =
        (if i \<in> set cr then (activeRaids g1 ! i)\<lparr>r_status := completed\<rparr> else activeRaids g1 ! i)"
      using raids_fold_return_home [of cr g1] i len1 by simp
    then show "activeRaids ?g2 ! i = map h (activeRaids g) ! i"
      using i nth1 by (simp add: cr h_def)
  qed
  moreover have "filter (\<lambda>r. r_status r \<noteq> completed) (map h xs) = filter (\<lambda>r. progress r < 1) xs"
    if "list_all (\<lambda>r. r_status r = enroute) xs" for xs :: "raid list"
    using that by (induction xs) (auto simp: h_def)
  ultimately show ?thesis using g' assms(2) by simp
qed

lemma fold_r_Inr_inv:
  assumes "fold_r f xs g = Inr g'" and "\<And>x s s'. f x s = Inr s' \<Longrightarrow> P s \<Longrightarrow> P s'" and "P g"
  shows "P g'"
  using assms(1,3)
proof (induction xs arbitrary: g)
  case Nil
  then show ?case by simp
next
  case (Cons x xs)
  then obtain s where s: "f x g = Inr s" "fold_r f xs s = Inr g'"
    by (cases "f x g") simp_all
  from Cons.IH [OF s(2)] assms(2) [OF s(1) Cons.prems(2)] show ?case by simp
qed

lemma raids_assignCountries [simp]: "activeRaids (assignCountries allocn g) = activeRaids g"
proof -
  have a: "activeRaids (fold (assign_city allocn) js s) = activeRaids s" for js s
    by (induction js arbitrary: s) (simp_all add: assign_city_def split: option.splits)
  have b: "activeRaids (fold initial_delivery ts s) = activeRaids s" for ts s
    by (induction ts arbitrary: s) (simp_all add: initial_delivery_def Let_def split: list.splits)
  show ?thesis by (simp add: assignCountries_def setInitialDeliveryPoints_def a b)
qed

lemma raids_createTemplate [simp]: "activeRaids (createTemplate tn sp g) = activeRaids g"
  by (simp add: createTemplate_def Let_def)

lemma raids_exec [simp]: "activeRaids (exec mu c g) = activeRaids g"
proof (cases c)
  case (AssignCountries a)
  then show ?thesis by simp
next
  case (BuildAirbase cid tn)
  then show ?thesis by (simp add: buildAirbase_def Let_def split: option.splits)
next
  case (SetDeliveryPoint cid tn)
  then show ?thesis by (simp add: setDeliveryPoint_def Let_def split: option.splits)
next
  case (SetBomberOrders cid tid)
  then show ?thesis by (simp add: setBomberOrders_def Let_def split: option.splits)
next
  case (ClearBomberOrders cid)
  then show ?thesis by (simp add: clearBomberOrders_def Let_def split: option.splits)
next
  case (TryProduceAircraft tn tid)
  then show ?thesis by (simp add: tryProduceAircraft_def Let_def split: option.splits)
next
  case (StartDesign tn sp)
  then show ?thesis by (simp add: startDesign_def Let_def)
next
  case TogglePause
  then show ?thesis by (simp add: togglePause_def)
next
  case (SetSpeed m)
  then show ?thesis by (simp add: setSpeed_def)
qed

lemma raids_fold_exec [simp]: "activeRaids (fold (exec mu) cs g) = activeRaids g"
  by (induction cs arbitrary: g) simp_all

lemma advance_enroute:
  "r_status r = enroute \<Longrightarrow> r_status (advance d r) = enroute"
  by (simp add: advance_def)

lemma advance_duration [simp]: "durationMinutes (advance d r) = durationMinutes r"
  by (simp add: advance_def)

lemma advance_flight: "flight (advance d (flight r)) = flight (advance d r)"
  by (simp add: advance_def flight_def)

lemma list_all_flight:
  "map flight xs = map flight ys \<Longrightarrow>
   list_all (\<lambda>r. r_status r = enroute) xs = list_all (\<lambda>r. r_status r = enroute) ys"
proof -
  assume e: "map flight xs = map flight ys"
  have "list_all (\<lambda>r. r_status r = enroute) zs = list_all (\<lambda>r. r_status r = enroute) (map flight zs)"
    for zs by (induction zs) simp_all
  then show ?thesis using e by metis
qed

text \<open>
  One completed tick of a running game: every raid that was in the air is advanced, the raids
  whose progress has reached 1 are gone, and the raids dispatched in this tick follow.
\<close>

lemma tick_raids:
  assumes np: "\<not> isPaused g" and ok: "tick mu md g = Inr g'"
    and en: "list_all (\<lambda>r. r_status r = enroute) (activeRaids g)"
    and bot: "\<And>s s'. md s = Inr s' \<Longrightarrow> activeRaids s' = activeRaids s"
  shows "(\<exists>news. map flight (activeRaids g') =
            filter (\<lambda>r. progress r < 1) (map (\<lambda>r. flight (advance TICK_MS r)) (activeRaids g)) @ news)
       \<and> list_all (\<lambda>r. r_status r = enroute) (activeRaids g')"
proof -
  define g4 where "g4 = updateHPRecovery TICK_MS (processAirbaseBuilds TICK_MS
                          (updateProduction TICK_MS (updateTime g)))"
  have r4: "activeRaids g4 = activeRaids g" by (simp add: g4_def)
  have t: "tick mu md g = bind_r (processDispatchSchedules mu g4) (\<lambda>g5.
           bind_r (resolveInAirEncounters mu (moveAircraft TICK_MS g5)) (\<lambda>g6.
           bind_r (resolveArrivals g6) (\<lambda>g7.
           fold_r (\<lambda>tn s. if isBot (teams s tn) then bot_update md s else Inr s) all_teams g7)))"
    by (simp only: tick_def Let_def g4_def np if_False)
  obtain g5 where g5: "processDispatchSchedules mu g4 = Inr g5"
    using ok unfolding t by (cases "processDispatchSchedules mu g4") simp_all
  have ok5: "bind_r (resolveInAirEncounters mu (moveAircraft TICK_MS g5)) (\<lambda>g6.
           bind_r (resolveArrivals g6) (\<lambda>g7.
           fold_r (\<lambda>tn s. if isBot (teams s tn) then bot_update md s else Inr s) all_teams g7)) = Inr g'"
    using ok by (simp add: t g5)
  obtain g6 where g6: "resolveInAirEncounters mu (moveAircraft TICK_MS g5) = Inr g6"
    using ok5 by (cases "resolveInAirEncounters mu (moveAircraft TICK_MS g5)") simp_all
  have ok6: "bind_r (resolveArrivals g6) (\<lambda>g7.
           fold_r (\<lambda>tn s. if isBot (teams s tn) then bot_update md s else Inr s) all_teams g7) = Inr g'"
    using ok5 by (simp add: g6)
  obtain g7 where g7: "resolveArrivals g6 = Inr g7"
    using ok6 by (cases "resolveArrivals g6") simp_all
  have bots: "fold_r (\<lambda>tn s. if isBot (teams s tn) then bot_update md s else Inr s) all_teams g7 = Inr g'"
    using ok6 by (simp add: g7)
  obtain news where news: "activeRaids g5 = activeRaids g @ news"
      "list_all (\<lambda>r. r_status r = enroute) news"
    using raids_processDispatchSchedules [of mu g4] g5 r4 by auto
  let ?xs = "map (advance TICK_MS) (activeRaids g @ news)"
  have f6: "map flight (activeRaids g6) = map flight ?xs"
    using raids_resolveInAirEncounters [of mu "moveAircraft TICK_MS g5"] g6 news(1) by simp
  have "list_all (\<lambda>r. r_status r = enroute) ?xs"
    using en news(2) by (auto simp: list_all_iff advance_enroute)
  then have e6: "list_all (\<lambda>r. r_status r = enroute) (activeRaids g6)"
    using list_all_flight [OF f6] by simp
  have r7: "activeRaids g7 = filter (\<lambda>r. progress r < 1) (activeRaids g6)"
    by (rule raids_resolveArrivals [OF g7 e6])
  have step: "activeRaids s' = activeRaids s"
    if h: "(if isBot (teams s tn) then bot_update md s else Inr s) = Inr s'" for tn s s'
  proof (cases "isBot (teams s tn) \<and> 5 \<le> elapsedSeconds s - bot_lastDecisionTime s")
    case True
    then obtain u where "md s = Inr u" "s' = u\<lparr>bot_lastDecisionTime := elapsedSeconds s\<rparr>"
      using h by (cases "md s") (auto simp: bot_update_def)
    then show ?thesis using bot [of s u] by simp
  next
    case False
    then show ?thesis using h by (auto simp: bot_update_def split: if_splits)
  qed
  have r': "activeRaids g' = activeRaids g7"
  proof (rule fold_r_Inr_inv [OF bots, where P = "\<lambda>s. activeRaids s = activeRaids g7"])
    show "activeRaids g7 = activeRaids g7" by simp
  next
    fix x s s'
    assume a: "(if isBot (teams s x) then bot_update md s else Inr s) = Inr s'"
      and b: "activeRaids s = activeRaids g7"
    from step [OF a] b show "activeRaids s' = activeRaids g7" by simp
  qed
  have "map flight (activeRaids g') = filter (\<lambda>r. progress r < 1) (map flight (activeRaids g6))"
    by (simp add: r' r7 filter_map comp_def)
  also have "\<dots> = filter (\<lambda>r. progress r < 1) (map (\<lambda>r. flight (advance TICK_MS r)) (activeRaids g))
                  @ filter (\<lambda>r. progress r < 1) (map (\<lambda>r. flight (advance TICK_MS r)) news)"
    by (simp add: f6 comp_def)
  finally have 1: "\<exists>news. map flight (activeRaids g') =
            filter (\<lambda>r. progress r < 1) (map (\<lambda>r. flight (advance TICK_MS r)) (activeRaids g)) @ news"
    by blast
  have 2: "list_all (\<lambda>r. r_status r = enroute) (activeRaids g')"
    using e6 by (simp add: r' r7 list_all_iff)
  show ?thesis using 1 2 by blast
qed

lemma filter_map_filter:
  "(\<And>x. x \<in> set xs \<Longrightarrow> P (f x) \<Longrightarrow> P x) \<Longrightarrow> filter P (map f (filter P xs)) = filter P (map f xs)"
  by (induction xs) auto

lemma advance_pow_fields:
  "durationMinutes ((advance d ^^ n) r) = durationMinutes r"
  "r_status r = enroute \<Longrightarrow> r_status ((advance d ^^ n) r) = enroute"
  by (induction n) (simp_all add: advance_enroute)

lemma advance_progress_mono:
  assumes "r_status r = enroute" and "0 \<le> durationMinutes r" and "progress (advance TICK_MS r) < 1"
  shows "progress r < 1"
proof (cases "durationMinutes r = 0")
  case True
  then show ?thesis using assms(1,3) by (simp add: advance_def TICK_MS_def)
next
  case False
  then have "0 \<le> TICK_MS / 60000 / durationMinutes r" using assms(2) by (simp add: TICK_MS_def)
  then show ?thesis using assms(1,3) False by (simp add: advance_def)
qed

text \<open>
  \<open>n\<close> completed ticks of a running game, with any commands in between: the raids that were in
  the air have been advanced \<open>n\<close> times, and those whose progress has reached 1 are gone.
\<close>

lemma run_raids:
  assumes tk: "ticking mu md cmds n g"
    and en: "list_all (\<lambda>r. r_status r = enroute) (activeRaids g)"
    and pr: "list_all (\<lambda>r. progress r < 1) (activeRaids g)"
    and dur: "list_all (\<lambda>r. 0 \<le> durationMinutes r) (activeRaids g)"
    and bot: "\<And>s s'. md s = Inr s' \<Longrightarrow> activeRaids s' = activeRaids s"
  shows "(\<exists>news. map flight (activeRaids (run mu md cmds n g)) =
            filter (\<lambda>r. progress r < 1)
                   (map (\<lambda>r. flight ((advance TICK_MS ^^ n) r)) (activeRaids g)) @ news)
       \<and> list_all (\<lambda>r. r_status r = enroute) (activeRaids (run mu md cmds n g))"
  using tk
proof (induction n)
  case 0
  have "filter (\<lambda>r. progress r < 1) (map flight (activeRaids g)) = map flight (activeRaids g)"
    using pr by (simp add: list_all_iff)
  then show ?case using en by simp
next
  case (Suc n)
  let ?R = "activeRaids g"
  let ?P = "\<lambda>r. progress r < 1"
  let ?s = "fold (exec mu) (cmds n) (run mu md cmds n g)"
  have tn: "ticking mu md cmds n g" and np: "\<not> isPaused ?s" and ni: "\<not> isl (tick mu md ?s)"
    using Suc.prems by simp_all
  obtain g' where ok: "tick mu md ?s = Inr g'"
    using ni by (cases "tick mu md ?s") simp_all
  have run: "run mu md cmds (Suc n) g = g'" by (simp add: ok)
  from Suc.IH [OF tn] obtain news where
    ih: "map flight (activeRaids (run mu md cmds n g)) =
           filter ?P (map (\<lambda>r. flight ((advance TICK_MS ^^ n) r)) ?R) @ news"
    and ie: "list_all (\<lambda>r. r_status r = enroute) (activeRaids (run mu md cmds n g))"
    by blast
  have es: "list_all (\<lambda>r. r_status r = enroute) (activeRaids ?s)" using ie by simp
  from tick_raids [OF np ok es bot] obtain news1 where
    t1: "map flight (activeRaids g') =
           filter ?P (map (\<lambda>r. flight (advance TICK_MS r)) (activeRaids ?s)) @ news1"
    and t2: "list_all (\<lambda>r. r_status r = enroute) (activeRaids g')"
    by blast
  have "map (\<lambda>r. flight (advance TICK_MS r)) (activeRaids ?s)
          = map (\<lambda>r. flight (advance TICK_MS r)) (map flight (activeRaids ?s))"
    by (simp add: advance_flight)
  also have "\<dots> = map (\<lambda>r. flight (advance TICK_MS r))
                      (filter ?P (map (\<lambda>r. flight ((advance TICK_MS ^^ n) r)) ?R))
                  @ map (\<lambda>r. flight (advance TICK_MS r)) news"
    by (simp add: ih)
  finally have m: "map (\<lambda>r. flight (advance TICK_MS r)) (activeRaids ?s)
          = map (\<lambda>r. flight (advance TICK_MS r))
                      (filter ?P (map (\<lambda>r. flight ((advance TICK_MS ^^ n) r)) ?R))
                  @ map (\<lambda>r. flight (advance TICK_MS r)) news" .
  have mono: "?P x" if x: "x \<in> set (map (\<lambda>r. flight ((advance TICK_MS ^^ n) r)) ?R)"
      and p: "?P (flight (advance TICK_MS x))" for x
  proof -
    from x obtain r where r: "r \<in> set ?R" "x = flight ((advance TICK_MS ^^ n) r)" by auto
    let ?y = "(advance TICK_MS ^^ n) r"
    have y: "r_status ?y = enroute" "0 \<le> durationMinutes ?y"
      using r(1) en dur by (simp_all add: list_all_iff advance_pow_fields)
    have "progress (advance TICK_MS ?y) < 1"
      using p by (simp add: r(2) advance_flight)
    from advance_progress_mono [OF y this] show ?thesis by (simp add: r(2))
  qed
  have "filter ?P (map (\<lambda>r. flight (advance TICK_MS r))
                      (filter ?P (map (\<lambda>r. flight ((advance TICK_MS ^^ n) r)) ?R)))
        = filter ?P (map (\<lambda>r. flight (advance TICK_MS r))
                      (map (\<lambda>r. flight ((advance TICK_MS ^^ n) r)) ?R))"
    by (rule filter_map_filter) (rule mono)
  also have "\<dots> = filter ?P (map (\<lambda>r. flight ((advance TICK_MS ^^ Suc n) r)) ?R)"
    by (simp add: advance_flight comp_def)
  finally have f: "filter ?P (map (\<lambda>r. flight (advance TICK_MS r))
                      (filter ?P (map (\<lambda>r. flight ((advance TICK_MS ^^ n) r)) ?R)))
        = filter ?P (map (\<lambda>r. flight ((advance TICK_MS ^^ Suc n) r)) ?R)" .
  have "map flight (activeRaids g') =
          filter ?P (map (\<lambda>r. flight ((advance TICK_MS ^^ Suc n) r)) ?R)
          @ (filter ?P (map (\<lambda>r. flight (advance TICK_MS r)) news) @ news1)"
    unfolding t1 m by (simp add: f)
  then show ?case unfolding run using t2 by blast
qed

section \<open>Where the range of an aircraft is read\<close>

text \<open>
  The defenders of a raid: at every complete airbase of the defending team, those of the first
  \<open>floor(count * (1 - escortAllocation))\<close> fighters on the ground that have a template and whose
  range, taken from the airbase, reaches the path of the raid.
\<close>

lemma in_range_fighters_filter:
  "in_range_fighters mu g (Some fi) ti c fs =
     Some (filter (\<lambda>f. getTemplate g (templateId (ac_store g ! f)) \<noteq> None
                          \<and> isPathWithinRange mu (lat (cities g ! fi)) (lon (cities g ! fi))
                               (lat (cities g ! ti)) (lon (cities g ! ti)) (lat c) (lon c) (range_km g f))
                  fs)"
  by (induction fs) (auto simp: range_km_def split: option.splits)

lemma concat_opt_Some: "concat_opt (map Some xs) = Some (concat xs)"
  by (induction xs) simp_all

lemma getDefendingFighters_eq:
  "getDefendingFighters mu g (Some fi) ti tn =
     Some (concat (map (\<lambda>ci.
        filter (\<lambda>f. getTemplate g (templateId (ac_store g ! f)) \<noteq> None
                    \<and> isPathWithinRange mu (lat (cities g ! fi)) (lon (cities g ! fi))
                         (lat (cities g ! ti)) (lon (cities g ! ti))
                         (lat (cities g ! ci)) (lon (cities g ! ci)) (range_km g f))
          (case c_airbase (cities g ! ci) of
             None \<Rightarrow> []
           | Some ab \<Rightarrow>
               if \<not> hasAirbase (cities g ! ci) \<or> \<not> complete ab then []
               else slice0 \<lfloor>real (length (getFightersAtCity g (c_id (cities g ! ci))))
                             * (1 - escortAllocation ab)\<rfloor>
                      (getFightersAtCity g (c_id (cities g ! ci)))))
        (getTeamCities g tn)))"
proof -
  let ?F = "\<lambda>ci. filter (\<lambda>f. getTemplate g (templateId (ac_store g ! f)) \<noteq> None
                    \<and> isPathWithinRange mu (lat (cities g ! fi)) (lon (cities g ! fi))
                         (lat (cities g ! ti)) (lon (cities g ! ti))
                         (lat (cities g ! ci)) (lon (cities g ! ci)) (range_km g f))
          (case c_airbase (cities g ! ci) of
             None \<Rightarrow> []
           | Some ab \<Rightarrow>
               if \<not> hasAirbase (cities g ! ci) \<or> \<not> complete ab then []
               else slice0 \<lfloor>real (length (getFightersAtCity g (c_id (cities g ! ci))))
                             * (1 - escortAllocation ab)\<rfloor>
                      (getFightersAtCity g (c_id (cities g ! ci))))"
  have "defenders_at mu g (Some fi) ti ci = Some (?F ci)" for ci
    by (simp add: defenders_at_def Let_def in_range_fighters_filter split: option.splits)
  then have "map (defenders_at mu g (Some fi) ti) cs = map Some (map ?F cs)" for cs
    by simp
  then show ?thesis
    unfolding getDefendingFighters_def by (simp only: concat_opt_Some)
qed

text \<open>
  The target selector sets orders only against a city that lies within the longest range among
  the bombers on the ground at the airbase.
\<close>

lemma find_SomeD: "find P xs = Some x \<Longrightarrow> x \<in> set xs \<and> P x"
  by (induction xs) (auto split: if_splits)

lemma showTargetSelector_in_range:
  assumes "showTargetSelector mu lc answer ci g \<noteq> g"
  shows "\<exists>t\<in>set (cities g).
           greatCircleDistance mu (lat (cities g ! ci)) (lon (cities g ! ci)) (lat t) (lon t)
             \<le> maxRange g (getBombersAtCity g (c_id (cities g ! ci)))
           \<and> showTargetSelector mu lc answer ci g
               = snd (setBomberOrders mu (c_id (cities g ! ci)) (c_id t) g)"
proof -
  let ?c = "cities g ! ci"
  let ?ts = "filter (\<lambda>t. c_owner t \<noteq> c_owner ?c
                         \<and> greatCircleDistance mu (lat ?c) (lon ?c) (lat t) (lon t)
                             \<le> maxRange g (getBombersAtCity g (c_id ?c))) (cities g)"
  from assms obtain nm t where
    t: "find (\<lambda>t. lc (c_name t) = lc nm) ?ts = Some t"
       "showTargetSelector mu lc answer ci g = snd (setBomberOrders mu (c_id ?c) (c_id t) g)"
    by (auto simp: showTargetSelector_def Let_def split: option.splits if_splits)
  from find_SomeD [OF t(1)] have "t \<in> set ?ts" by blast
  then have "t \<in> set (cities g)"
    and "greatCircleDistance mu (lat ?c) (lon ?c) (lat t) (lon t)
           \<le> maxRange g (getBombersAtCity g (c_id ?c))"
    by simp_all
  then show ?thesis using t(2) by blast
qed

lemma showTargetSelector_out_of_range:
  assumes "\<forall>t\<in>set (cities g). maxRange g (getBombersAtCity g (c_id (cities g ! ci)))
              < greatCircleDistance mu (lat (cities g ! ci)) (lon (cities g ! ci)) (lat t) (lon t)"
  shows "showTargetSelector mu lc answer ci g = g"
  using showTargetSelector_in_range [of mu lc answer ci g] assms by fastforce

text \<open>The bot's target search returns only a city within that range.\<close>

lemma selectBestTarget_member:
  assumes "selectBestTarget mu g ci cs = Some ti"
  shows "ti \<in> set cs"
proof -
  define f where "f = (\<lambda>ti (b :: nat option \<times> jsnum).
                  if js_gt (target_score mu g ci ti) (snd b)
                  then (Some ti, target_score mu g ci ti) else b)"
  have "fst (fold f cs b) = Some ti \<Longrightarrow> ti \<in> set cs \<or> fst b = Some ti" for b
  proof (induction cs arbitrary: b)
    case Nil
    then show ?case by simp
  next
    case (Cons c cs)
    from Cons.IH [of "f c b"] Cons.prems have "ti \<in> set cs \<or> fst (f c b) = Some ti" by simp
    then show ?case by (auto simp: f_def split: if_splits)
  qed
  moreover have "(\<lambda>ti (bestTarget, bestScore).
                  if js_gt (target_score mu g ci ti) bestScore
                  then (Some ti, target_score mu g ci ti) else (bestTarget, bestScore)) = f"
    by (auto simp: f_def fun_eq_iff)
  ultimately show ?thesis
    using assms unfolding selectBestTarget_def by fastforce
qed

lemma findBestBomberTarget_in_range:
  assumes "findBestBomberTarget mu ci g = Some ti"
  shows "ti < length (cities g)
       \<and> greatCircleDistance mu (lat (cities g ! ci)) (lon (cities g ! ci))
            (lat (cities g ! ti)) (lon (cities g ! ti))
           \<le> maxRange g (getBombersAtCity g (c_id (cities g ! ci)))"
proof -
  let ?near = "\<lambda>ti. greatCircleDistance mu (lat (cities g ! ci)) (lon (cities g ! ci))
                       (lat (cities g ! ti)) (lon (cities g ! ti))
                     \<le> maxRange g (getBombersAtCity g (c_id (cities g ! ci)))"
  define enemy where "enemy = filter ?near (filter (\<lambda>ti. c_owner (cities g ! ti) \<noteq> Some (bot_teamName g)
                                          \<and> c_owner (cities g ! ti) \<noteq> None) [0..<length (cities g)])"
  define neutral where "neutral = filter ?near (filter (\<lambda>ti. c_owner (cities g ! ti) = None) [0..<length (cities g)])"
  define ph where "ph = filter (\<lambda>ti. isPlaceholder (cities g ! ti)) neutral"
  have sub: "set enemy \<subseteq> {ti. ti < length (cities g) \<and> ?near ti}"
    "set neutral \<subseteq> {ti. ti < length (cities g) \<and> ?near ti}"
    "set ph \<subseteq> {ti. ti < length (cities g) \<and> ?near ti}"
    by (auto simp: enemy_def neutral_def ph_def)
  have "selectBestTarget mu g ci enemy = Some ti \<or> selectBestTarget mu g ci neutral = Some ti
        \<or> selectBestTarget mu g ci ph = Some ti"
    using assms unfolding findBestBomberTarget_def Let_def enemy_def [symmetric] neutral_def [symmetric]
      ph_def [symmetric]
    by (simp split: if_splits)
  then have "ti \<in> set enemy \<union> set neutral \<union> set ph"
    using selectBestTarget_member by blast
  then show ?thesis using sub by blast
qed






end
